(* ===== verification/Prelude.thy ===== *)
theory Prelude
  imports Main "HOL-Library.Word" "HOL-Library.DAList"
begin

text \<open>
  Shared vocabulary of the development: Go's byte slices, errors as values, the fixed
  width integer conversions the bridge uses, Go maps as association lists with unique
  keys, and the generic lemmas on them that the component theories rely on.
\<close>

section \<open>Collections of facts\<close>

named_theorems gomap_simps \<open>rewrite rules for Go maps\<close>
named_theorems inv_preserve \<open>operations that keep the invariant of the bridge state\<close>

section \<open>Bytes, strings and errors\<close>

type_synonym byte = "8 word"
type_synonym bytes = "byte list"

text \<open>
  A Go \<open>error\<close> value. The constructors name the package that makes the error; the text
  that \<open>err.Error()\<close> renders is not modelled, only where the error comes from. \<open>ErrLib\<close>
  is any error returned by code outside the repository.
\<close>

datatype goerr =
    ErrJson
  | ErrBase64
  | ErrHexByte char
  | ErrHexLength
  | ErrSyntax
  | ErrRange
  | ErrAddrFormat
  | ErrTLEmpty
  | ErrTLTrailing
  | ErrPeerReplacement
  | ErrPeerOwned
  | ErrPeerClosed goerr
  | ErrMsg string
  | ErrWrap string goerr
  | ErrLib nat

text \<open>\<open>result\<close> is Go's pair of a value and an error, of which exactly one is meaningful.\<close>

type_synonym 'a result = "goerr + 'a"

definition ok :: "'a result \<Rightarrow> bool" where
  "ok r \<longleftrightarrow> (case r of Inl _ \<Rightarrow> False | Inr _ \<Rightarrow> True)"

lemma ok_simps [simp]: "ok (Inr x)" "\<not> ok (Inl e)"
  by (simp_all add: ok_def)

lemma ok_iff: "ok r \<longleftrightarrow> (\<exists>x. r = Inr x)"
  by (cases r) auto

section \<open>Machine integers\<close>

text \<open>
  Go's \<open>int\<close> and \<open>int64\<close> are kept as \<open>int\<close>; a conversion to a narrower signed type
  keeps the low bits as two's complement, which \<open>signed_take_bit\<close> computes.
\<close>

definition to_int32 :: "int \<Rightarrow> int" where
  "to_int32 x = signed_take_bit 31 x"

definition to_int64 :: "int \<Rightarrow> int" where
  "to_int64 x = signed_take_bit 63 x"

definition to_uint64 :: "int \<Rightarrow> nat" where
  "to_uint64 x = nat (x mod 2 ^ 64)"

lemma to_int32_id: "- (2 ^ 31) \<le> x \<Longrightarrow> x < 2 ^ 31 \<Longrightarrow> to_int32 x = x"
  by (simp add: to_int32_def signed_take_bit_int_eq_self)

lemma to_int64_id: "- (2 ^ 63) \<le> x \<Longrightarrow> x < 2 ^ 63 \<Longrightarrow> to_int64 x = x"
  by (simp add: to_int64_def signed_take_bit_int_eq_self)

lemma to_int32_bounds: "- (2 ^ 31) \<le> to_int32 x \<and> to_int32 x < 2 ^ 31"
  using signed_take_bit_int_greater_eq_minus_exp [of 31 x] signed_take_bit_int_less_exp [of 31 x]
  by (simp add: to_int32_def)

section \<open>Go maps\<close>

text \<open>
  A Go map is an association list with unique keys (\<open>HOL-Library.DAList\<close>). The order of
  the list stands for the iteration order of \<open>range\<close>, which Go leaves unspecified; no
  statement of the development depends on a particular order.
\<close>

type_synonym ('k, 'v) gomap = "('k, 'v) alist"

abbreviation gm_empty :: "('k, 'v) gomap" where
  "gm_empty \<equiv> DAList.empty"

abbreviation gm_get :: "('k, 'v) gomap \<Rightarrow> 'k \<Rightarrow> 'v option" where
  "gm_get \<equiv> DAList.lookup"

abbreviation gm_put :: "'k \<Rightarrow> 'v \<Rightarrow> ('k, 'v) gomap \<Rightarrow> ('k, 'v) gomap" where
  "gm_put \<equiv> DAList.update"

abbreviation gm_del :: "'k \<Rightarrow> ('k, 'v) gomap \<Rightarrow> ('k, 'v) gomap" where
  "gm_del \<equiv> DAList.delete"

abbreviation gm_entries :: "('k, 'v) gomap \<Rightarrow> ('k \<times> 'v) list" where
  "gm_entries \<equiv> DAList.impl_of"

definition gm_filter :: "('k \<Rightarrow> 'v \<Rightarrow> bool) \<Rightarrow> ('k, 'v) gomap \<Rightarrow> ('k, 'v) gomap" where
  "gm_filter P m = DAList.filter (\<lambda>(k, v). P k v) m"

definition gm_len :: "('k, 'v) gomap \<Rightarrow> nat" where
  "gm_len m = length (gm_entries m)"

text \<open>The keys with a value that satisfies \<open>P\<close>, as a \<open>range\<close> loop collects them.\<close>

definition gm_keys_where :: "('k \<Rightarrow> 'v \<Rightarrow> bool) \<Rightarrow> ('k, 'v) gomap \<Rightarrow> 'k list" where
  "gm_keys_where P m = map fst (filter (\<lambda>(k, v). P k v) (gm_entries m))"

definition gm_dom :: "('k, 'v) gomap \<Rightarrow> 'k set" where
  "gm_dom m = {k. gm_get m k \<noteq> None}"

text \<open>Delete every key of a list, as a \<open>range\<close> loop with \<open>delete\<close> does.\<close>

definition gm_del_all :: "'k list \<Rightarrow> ('k, 'v) gomap \<Rightarrow> ('k, 'v) gomap" where
  "gm_del_all ks m = gm_filter (\<lambda>k _. k \<notin> set ks) m"

lemma map_of_filter_distinct:
  "distinct (map fst xs) \<Longrightarrow>
   map_of (filter (\<lambda>(k, v). P k v) xs) k =
     (case map_of xs k of None \<Rightarrow> None | Some v \<Rightarrow> if P k v then Some v else None)"
proof (induction xs)
  case Nil
  then show ?case by simp
next
  case (Cons x xs)
  obtain k' v' where x: "x = (k', v')" by (cases x)
  have "k' \<notin> fst ` set xs" using Cons.prems x by simp
  then have "map_of xs k' = None"
    by (metis map_of_eq_None_iff)
  then show ?case using Cons x by auto
qed

lemma gm_get_filter [gomap_simps]:
  "gm_get (gm_filter P m) k =
     (case gm_get m k of None \<Rightarrow> None | Some v \<Rightarrow> if P k v then Some v else None)"
  unfolding gm_filter_def
  by transfer (simp add: map_of_filter_distinct)

lemma gm_get_del_all [gomap_simps]:
  "gm_get (gm_del_all ks m) k = (if k \<in> set ks then None else gm_get m k)"
  by (simp add: gm_del_all_def gm_get_filter split: option.splits)

lemma gm_get_put [simp]: "gm_get (gm_put k v m) x = (if x = k then Some v else gm_get m x)"
  by (simp add: lookup_update)

lemma gm_entries_get: "(k, v) \<in> set (gm_entries m) \<longleftrightarrow> gm_get m k = Some v"
  by transfer (auto simp: map_of_eq_Some_iff)

lemma set_gm_keys_where [gomap_simps]:
  "set (gm_keys_where P m) = {k. \<exists>v. gm_get m k = Some v \<and> P k v}"
  by (force simp: gm_keys_where_def gm_entries_get)

lemma gm_dom_iff [gomap_simps]: "k \<in> gm_dom m \<longleftrightarrow> gm_get m k \<noteq> None"
  by (simp add: gm_dom_def)

lemma gm_len_empty [simp]: "gm_len gm_empty = 0"
  by (simp add: gm_len_def DAList.empty_def Alist_inverse)

lemma gm_len_update:
  "gm_len (gm_put k v m) = (if gm_get m k = None then Suc (gm_len m) else gm_len m)"
  unfolding gm_len_def
proof (transfer)
  fix k :: 'a and v :: 'b and m :: "('a \<times> 'b) list"
  have "length (AList.update k v m) = (if map_of m k = None then Suc (length m) else length m)"
    by (induction m) auto
  then show "length (AList.update k v m)
      = (if map_of m k = None then Suc (length m) else length m)" .
qed

lemma gm_len_delete_le: "gm_len (gm_del k m) \<le> gm_len m"
  unfolding gm_len_def
  by transfer (simp add: AList.delete_eq)

section \<open>Generic lemmas\<close>

lemma fold_invariant:
  assumes "I s" and "\<And>x s. x \<in> set xs \<Longrightarrow> I s \<Longrightarrow> I (f x s)"
  shows "I (fold f xs s)"
  using assms by (induction xs arbitrary: s) auto

lemma distinct_filter_length_le: "length (filter P xs) \<le> length xs"
  by simp

text \<open>Counting after one element of a list is replaced or taken out.\<close>

lemma filter_length_update:
  "k < length xs \<Longrightarrow>
   length (filter P (xs[k := x])) + (if P (xs ! k) then 1 else 0) = length (filter P xs) + (if P x then 1 else 0)"
proof (induction xs arbitrary: k)
  case (Cons y ys)
  then show ?case by (cases k) auto
qed simp

lemma filter_length_remove:
  "k < length xs \<Longrightarrow>
   length (filter P (take k xs @ drop (Suc k) xs)) + (if P (xs ! k) then 1 else 0) = length (filter P xs)"
proof (induction xs arbitrary: k)
  case (Cons y ys)
  then show ?case by (cases k) auto
qed simp

end
