(* ===== verification/Encoding.thy ===== *)
theory Encoding
  imports Prelude
begin

text \<open>
  The textual encodings the bridge reads and writes: hexadecimal identifiers, base64
  payloads (\<open>decodeBase64\<close> of wsbridge/helpers.go over Go's \<open>encoding/base64\<close>), decimal
  and hexadecimal 64-bit integers (\<open>strconv.ParseUint\<close>, \<open>%d\<close> and \<open>%016x\<close>). Each encoder is
  proved to be inverted by its decoder, so that identifiers are injective.
\<close>

section \<open>The contract of an encoding\<close>

locale codec =
  fixes enc :: "'a \<Rightarrow> string"
    and dec :: "string \<Rightarrow> 'a result"
    and valid :: "'a \<Rightarrow> bool"
  assumes dec_enc: "valid x \<Longrightarrow> dec (enc x) = Inr x"
begin

lemma enc_inject: "valid x \<Longrightarrow> valid y \<Longrightarrow> enc x = enc y \<longleftrightarrow> x = y"
  by (metis dec_enc sum.inject(2))

lemma enc_inj_on: "inj_on enc (Collect valid)"
  by (rule inj_onI) (metis dec_enc mem_Collect_eq sum.inject(2))

end

section \<open>Characters and bytes\<close>

definition char_code :: "char \<Rightarrow> nat" where
  "char_code c = of_char c"

definition byte_of_char :: "char \<Rightarrow> byte" where
  "byte_of_char c = of_char c"

definition bytes_of_string :: "string \<Rightarrow> bytes" where
  "bytes_of_string s = map byte_of_char s"

section \<open>Hexadecimal (encoding/hex)\<close>

definition hex_digit :: "nat \<Rightarrow> char" where
  "hex_digit n = (if n < 10 then char_of (48 + n) else char_of (87 + n))"

definition hex_value :: "char \<Rightarrow> nat option" where
  "hex_value c =
     (let n = char_code c in
      if 48 \<le> n \<and> n \<le> 57 then Some (n - 48)
      else if 97 \<le> n \<and> n \<le> 102 then Some (n - 87)
      else if 65 \<le> n \<and> n \<le> 70 then Some (n - 55)
      else None)"

text \<open>\<open>hex.EncodeToString\<close>: two lower-case digits for each byte.\<close>

fun hex_encode :: "bytes \<Rightarrow> string" where
  "hex_encode [] = []"
| "hex_encode (b # bs) =
     hex_digit (unat b div 16) # hex_digit (unat b mod 16) # hex_encode bs"

text \<open>\<open>hex.DecodeString\<close>: a bad digit is reported before an odd length.\<close>

fun hex_decode :: "string \<Rightarrow> bytes result" where
  "hex_decode [] = Inr []"
| "hex_decode [p] = (case hex_value p of None \<Rightarrow> Inl (ErrHexByte p) | Some _ \<Rightarrow> Inl ErrHexLength)"
| "hex_decode (p # q # s) =
     (case hex_value p of
        None \<Rightarrow> Inl (ErrHexByte p)
      | Some a \<Rightarrow>
          (case hex_value q of
             None \<Rightarrow> Inl (ErrHexByte q)
           | Some b \<Rightarrow>
               (case hex_decode s of
                  Inl e \<Rightarrow> Inl e
                | Inr bs \<Rightarrow> Inr (word_of_nat (a * 16 + b) # bs))))"

lemma char_code_char_of [simp]: "n < 256 \<Longrightarrow> char_code (char_of n) = n"
  by (simp add: char_code_def)

lemma hex_value_digit: "n < 16 \<Longrightarrow> hex_value (hex_digit n) = Some n"
  by (auto simp: hex_value_def hex_digit_def Let_def)

lemma byte_nibbles: "word_of_nat (unat b div 16 * 16 + unat b mod 16) = (b :: byte)"
  by simp

lemma unat_byte_div: "unat (b :: byte) div 16 < 16"
  using unsigned_less [of b, where 'a = nat] by simp

lemma hex_decode_encode: "hex_decode (hex_encode bs) = Inr bs"
proof (induction bs)
  case Nil
  then show ?case by simp
next
  case (Cons b bs)
  have "hex_value (hex_digit (unat b div 16)) = Some (unat b div 16)"
    by (rule hex_value_digit) (rule unat_byte_div)
  moreover have "hex_value (hex_digit (unat b mod 16)) = Some (unat b mod 16)"
    by (rule hex_value_digit) simp
  ultimately show ?case using Cons by simp
qed

interpretation hex: codec hex_encode hex_decode "\<lambda>_. True"
  by unfold_locales (rule hex_decode_encode)

lemma length_hex_encode: "length (hex_encode bs) = 2 * length bs"
  by (induction bs) auto

lemma hex_encode_eq_iff [simp]: "hex_encode x = hex_encode y \<longleftrightarrow> x = y"
  by (rule hex.enc_inject) simp_all

lemma hex_decode_length: "hex_decode s = Inr bs \<Longrightarrow> length s = 2 * length bs"
  by (induction s arbitrary: bs rule: hex_decode.induct)
    (auto split: option.splits sum.splits)

section \<open>Unsigned integers (strconv.ParseUint)\<close>

text \<open>
  \<open>strconv.ParseUint(s, base, 64)\<close> for an explicit base: an empty string or a character that
  is not a digit of the base is a syntax error, a value of \<open>2^64\<close> or more a range error.
  The loop stops at the first of the two.
\<close>

definition digit_value :: "char \<Rightarrow> nat option" where
  "digit_value c =
     (let n = char_code c in
      if 48 \<le> n \<and> n \<le> 57 then Some (n - 48)
      else if 97 \<le> n \<and> n \<le> 122 then Some (n - 87)
      else if 65 \<le> n \<and> n \<le> 90 then Some (n - 55)
      else None)"

fun parse_uint_loop :: "nat \<Rightarrow> nat \<Rightarrow> string \<Rightarrow> nat result" where
  "parse_uint_loop base acc [] = Inr acc"
| "parse_uint_loop base acc (c # s) =
     (case digit_value c of
        None \<Rightarrow> Inl ErrSyntax
      | Some d \<Rightarrow>
          if base \<le> d then Inl ErrSyntax
          else if 2 ^ 64 \<le> acc * base + d then Inl ErrRange
          else parse_uint_loop base (acc * base + d) s)"

definition parse_uint :: "nat \<Rightarrow> string \<Rightarrow> nat result" where
  "parse_uint base s = (if s = [] then Inl ErrSyntax else parse_uint_loop base 0 s)"

lemma parse_uint_loop_bound:
  "acc < 2 ^ 64 \<Longrightarrow> parse_uint_loop base acc s = Inr n \<Longrightarrow> n < 2 ^ 64"
  by (induction base acc s rule: parse_uint_loop.induct)
    (auto split: option.splits if_splits)

lemma parse_uint_bound: "parse_uint base s = Inr n \<Longrightarrow> n < 2 ^ 64"
  using parse_uint_loop_bound [of 0 base s n] by (simp add: parse_uint_def split: if_splits)

lemma parse_uint_loop_append:
  "parse_uint_loop base acc (s @ t) =
     (case parse_uint_loop base acc s of
        Inl e \<Rightarrow> Inl e
      | Inr n \<Rightarrow> parse_uint_loop base n t)"
  by (induction base acc s rule: parse_uint_loop.induct) (auto split: option.splits)

lemma digit_value_hex_digit: "n < 16 \<Longrightarrow> digit_value (hex_digit n) = Some n"
  by (auto simp: digit_value_def hex_digit_def Let_def)

subsection \<open>Decimal output (%d)\<close>

fun show_nat :: "nat \<Rightarrow> string" where
  "show_nat n = (if n < 10 then [hex_digit n] else show_nat (n div 10) @ [hex_digit (n mod 10)])"

declare show_nat.simps [simp del]

definition show_int :: "int \<Rightarrow> string" where
  "show_int x = (if x < 0 then CHR ''-'' # show_nat (nat (- x)) else show_nat (nat x))"

lemma show_nat_nonempty: "show_nat n \<noteq> []"
  by (subst show_nat.simps) simp

lemma hex_digit_not_minus: "n < 16 \<Longrightarrow> hex_digit n \<noteq> CHR ''-''"
  using digit_value_hex_digit [of n] by (auto simp: digit_value_def char_code_def)

lemma show_nat_no_minus: "hd (show_nat n) \<noteq> CHR ''-''"
proof (induction n rule: show_nat.induct)
  case (1 n)
  then show ?case by (subst show_nat.simps) (simp add: hd_append show_nat_nonempty hex_digit_not_minus)
qed

lemma parse_show_nat_loop:
  "n < 2 ^ 64 \<Longrightarrow> parse_uint_loop 10 0 (show_nat n) = Inr n"
proof (induction n rule: show_nat.induct)
  case (1 n)
  show ?case
  proof (cases "n < 10")
    case True
    then show ?thesis by (subst show_nat.simps) (simp add: digit_value_hex_digit)
  next
    case False
    have "n div 10 < 2 ^ 64" using "1.prems" by simp
    with False have "parse_uint_loop 10 0 (show_nat (n div 10)) = Inr (n div 10)"
      by (intro "1.IH")
    with False "1.prems" show ?thesis
      by (subst show_nat.simps)
        (simp add: parse_uint_loop_append digit_value_hex_digit mult.commute)
  qed
qed

lemma parse_show_nat: "n < 2 ^ 64 \<Longrightarrow> parse_uint 10 (show_nat n) = Inr n"
  by (simp add: parse_uint_def show_nat_nonempty parse_show_nat_loop)

interpretation dec64: codec show_nat "parse_uint 10" "\<lambda>n. n < 2 ^ 64"
  by unfold_locales (rule parse_show_nat)

subsection \<open>Sixteen hexadecimal digits (%016x)\<close>

fun hex_fixed :: "nat \<Rightarrow> nat \<Rightarrow> string" where
  "hex_fixed 0 n = []"
| "hex_fixed (Suc w) n = hex_fixed w (n div 16) @ [hex_digit (n mod 16)]"

definition hex16 :: "nat \<Rightarrow> string" where
  "hex16 n = hex_fixed 16 n"

lemma length_hex_fixed [simp]: "length (hex_fixed w n) = w"
  by (induction w arbitrary: n) auto

lemma parse_hex_fixed:
  "n < 16 ^ w \<Longrightarrow> n < 2 ^ 64 \<Longrightarrow> parse_uint_loop 16 0 (hex_fixed w n) = Inr n"
proof (induction w arbitrary: n)
  case 0
  then show ?case by simp
next
  case (Suc w)
  have "n div 16 < 16 ^ w" and "n div 16 < 2 ^ 64"
    using Suc.prems by (auto simp: less_mult_imp_div_less mult.commute)
  then have "parse_uint_loop 16 0 (hex_fixed w (n div 16)) = Inr (n div 16)"
    by (rule Suc.IH)
  then show ?case using Suc.prems
    by (simp add: parse_uint_loop_append digit_value_hex_digit mult.commute)
qed

lemma hex16_nonempty: "hex16 n \<noteq> []"
proof
  assume "hex16 n = []"
  then have "length (hex_fixed 16 n) = 0" by (simp add: hex16_def)
  then show False by simp
qed

lemma parse_hex16: "n < 2 ^ 64 \<Longrightarrow> parse_uint 16 (hex16 n) = Inr n"
  using parse_hex_fixed [of n 16] hex16_nonempty [of n]
  by (simp add: parse_uint_def hex16_def del: hex_fixed.simps)

interpretation hex16: codec hex16 "parse_uint 16" "\<lambda>n. n < 2 ^ 64"
  by unfold_locales (rule parse_hex16)

end
