(* ===== verification/GoDuration.thy ===== *)
theory GoDuration
  imports Encoding
begin

text \<open>
  \<open>time.ParseDuration\<close>, which config.go applies to every timeout string. A duration is an
  \<open>int64\<close> number of nanoseconds. The fraction of a component goes through \<open>float64\<close> as in
  Go, so the three float operations it needs are modelled with their rounding.
\<close>

section \<open>Positive float64 values\<close>

text \<open>The pair \<open>(m, e)\<close> stands for \<open>m * 2^e\<close>; zero is \<open>(0, 0)\<close>.\<close>

type_synonym f64 = "nat \<times> int"

fun bit_len :: "nat \<Rightarrow> nat" where
  "bit_len n = (if n = 0 then 0 else Suc (bit_len (n div 2)))"

declare bit_len.simps [simp del]

definition round_div :: "nat \<Rightarrow> nat \<Rightarrow> nat" where
  "round_div a b =
     (let q = a div b; r = a mod b in
      if 2 * r < b \<or> 2 * r = b \<and> even q then q else Suc q)"

text \<open>\<open>a / (b * 2^e)\<close> as a fraction of naturals.\<close>

definition scale_ratio :: "nat \<Rightarrow> nat \<Rightarrow> int \<Rightarrow> nat \<times> nat" where
  "scale_ratio a b e = (if 0 \<le> e then (a, b * 2 ^ nat e) else (a * 2 ^ nat (- e), b))"

text \<open>Rounding \<open>a / b\<close> to 53 significant bits, ties to even.\<close>

definition f64_ratio :: "nat \<Rightarrow> nat \<Rightarrow> f64" where
  "f64_ratio a b =
     (if a = 0 then (0, 0)
      else
       (let e = int (bit_len a) - int (bit_len b) - 53;
            (x, y) = scale_ratio a b e;
            e' = (if 2 ^ 53 * y \<le> x then e + 1 else e);
            (x', y') = scale_ratio a b e'
        in (round_div x' y', e')))"

definition f64_of_nat :: "nat \<Rightarrow> f64" where
  "f64_of_nat n = f64_ratio n 1"

definition f64_shift :: "int \<Rightarrow> f64 \<Rightarrow> f64" where
  "f64_shift k x = (fst x, snd x + k)"

definition f64_mul :: "f64 \<Rightarrow> f64 \<Rightarrow> f64" where
  "f64_mul x y = f64_shift (snd x + snd y) (f64_ratio (fst x * fst y) 1)"

definition f64_div :: "f64 \<Rightarrow> f64 \<Rightarrow> f64" where
  "f64_div x y = f64_shift (snd x - snd y) (f64_ratio (fst x) (fst y))"

definition f64_trunc :: "f64 \<Rightarrow> nat" where
  "f64_trunc x = (if 0 \<le> snd x then fst x * 2 ^ nat (snd x) else fst x div 2 ^ nat (- snd x))"

section \<open>The parser\<close>

definition dur_digit :: "char \<Rightarrow> bool" where
  "dur_digit c \<longleftrightarrow> 48 \<le> char_code c \<and> char_code c \<le> 57"

fun leading_int :: "nat \<Rightarrow> string \<Rightarrow> (nat \<times> string) option" where
  "leading_int x [] = Some (x, [])"
| "leading_int x (c # s) =
     (if \<not> dur_digit c then Some (x, c # s)
      else if 2 ^ 63 div 10 < x then None
      else (let x' = x * 10 + (char_code c - 48)
            in if 2 ^ 63 < x' then None else leading_int x' s))"

fun leading_fraction :: "bool \<Rightarrow> nat \<Rightarrow> f64 \<Rightarrow> string \<Rightarrow> nat \<times> f64 \<times> string" where
  "leading_fraction ovf x sc [] = (x, sc, [])"
| "leading_fraction ovf x sc (c # s) =
     (if \<not> dur_digit c then (x, sc, c # s)
      else if ovf \<or> (2 ^ 63 - 1) div 10 < x then leading_fraction True x sc s
      else (let y = x * 10 + (char_code c - 48)
            in if 2 ^ 63 < y then leading_fraction True x sc s
               else leading_fraction False y (f64_mul sc (f64_of_nat 10)) s))"

definition unit_map :: "(string \<times> nat) list" where
  "unit_map =
    [(''ns'', 1), (''us'', 1000), ([CHR 0xC2, CHR 0xB5, CHR ''s''], 1000),
     ([CHR 0xCE, CHR 0xBC, CHR ''s''], 1000), (''ms'', 1000000), (''s'', 1000000000),
     (''m'', 60000000000), (''h'', 3600000000000)]"

text \<open>One component: a number with an optional fraction and its unit. \<open>None\<close> is an error.\<close>

definition dur_number :: "string \<Rightarrow> (nat \<times> nat \<times> f64 \<times> string) option" where
  "dur_number s =
     (case leading_int 0 s of
        None \<Rightarrow> None
      | Some (v, s1) \<Rightarrow>
          (if s1 \<noteq> [] \<and> hd s1 = CHR ''.'' then
             (case leading_fraction False 0 (f64_of_nat 1) (tl s1) of
                (f, sc, s2) \<Rightarrow>
                  if length s1 = length s \<and> length s2 = length (tl s1) then None
                  else Some (v, f, sc, s2))
           else if length s1 = length s then None
           else Some (v, 0, f64_of_nat 1, s1)))"

definition dur_component :: "string \<Rightarrow> (nat \<times> string) option" where
  "dur_component s =
     (if s = [] \<or> \<not> (hd s = CHR ''.'' \<or> dur_digit (hd s)) then None
      else
       (case dur_number s of
          None \<Rightarrow> None
        | Some (v, f, sc, s2) \<Rightarrow>
            (let u = takeWhile (\<lambda>c. c \<noteq> CHR ''.'' \<and> \<not> dur_digit c) s2;
                 s3 = dropWhile (\<lambda>c. c \<noteq> CHR ''.'' \<and> \<not> dur_digit c) s2
             in if u = [] then None
                else (case map_of unit_map u of
                        None \<Rightarrow> None
                      | Some unit \<Rightarrow>
                          if 2 ^ 63 div unit < v then None
                          else if f = 0 then Some (v * unit, s3)
                          else
                           (let frac = f64_trunc (f64_mul (f64_of_nat f) (f64_div (f64_of_nat unit) sc));
                                w = (v * unit + frac) mod 2 ^ 64
                            in if 2 ^ 63 < w then None else Some (w, s3))))))"

lemma leading_int_length: "leading_int x s = Some (v, r) \<Longrightarrow> length r \<le> length s"
  by (induction x s rule: leading_int.induct) (auto simp: Let_def split: if_splits)

lemma leading_fraction_length:
  "leading_fraction ovf x sc s = (f, sc', r) \<Longrightarrow> length r \<le> length s"
proof (induction s arbitrary: ovf x sc)
  case (Cons c s)
  from Cons.prems show ?case
    by (auto simp only: leading_fraction.simps Let_def prod.inject list.size
        split: if_splits dest!: Cons.IH)
qed simp

lemma dur_number_length: "dur_number s = Some (v, f, sc, r) \<Longrightarrow> length r \<le> length s"
  by (auto simp: dur_number_def split: option.splits if_splits prod.splits
      dest!: leading_int_length leading_fraction_length)

lemma dur_component_length:
  assumes "dur_component s = Some (v, r)"
  shows "length r < length s"
proof -
  let ?p = "\<lambda>c. c \<noteq> CHR ''.'' \<and> \<not> dur_digit c"
  from assms obtain v' f sc s2 where n: "dur_number s = Some (v', f, sc, s2)"
    and u: "takeWhile ?p s2 \<noteq> []" and r: "r = dropWhile ?p s2"
    by (auto simp: dur_component_def Let_def split: if_splits option.splits prod.splits)
  have "length s2 = length (takeWhile ?p s2) + length r"
    using r by (metis length_append takeWhile_dropWhile_id)
  with u have "length r < length s2" by simp
  with dur_number_length [OF n] show ?thesis by simp
qed

function dur_loop :: "nat \<Rightarrow> string \<Rightarrow> nat option" where
  "dur_loop d s =
     (if s = [] then Some d
      else (case dur_component s of
              None \<Rightarrow> None
            | Some (v, r) \<Rightarrow>
                (let d' = (d + v) mod 2 ^ 64
                 in if 2 ^ 63 < d' then None else dur_loop d' r)))"
  by pat_completeness auto
termination
  by (relation "measure (\<lambda>(d, s). length s)") (auto dest: dur_component_length)

declare dur_loop.simps [simp del]

definition strip_sign :: "string \<Rightarrow> bool \<times> string" where
  "strip_sign s =
     (if s \<noteq> [] \<and> (hd s = CHR ''-'' \<or> hd s = CHR ''+'') then (hd s = CHR ''-'', tl s)
      else (False, s))"

definition ParseDuration :: "string \<Rightarrow> int option" where
  "ParseDuration str =
     (case strip_sign str of
        (neg, s) \<Rightarrow>
          if s = ''0'' then Some 0
          else if s = [] then None
          else (case dur_loop 0 s of
                  None \<Rightarrow> None
                | Some d \<Rightarrow>
                    if neg then Some (to_int64 (- int d))
                    else if 2 ^ 63 - 1 < d then None
                    else Some (int d)))"

definition second :: int where "second = 1000000000"

text \<open>Values are in the range of \<open>int64\<close>.\<close>

lemma dur_loop_bound: "d \<le> 2 ^ 63 \<Longrightarrow> dur_loop d s = Some r \<Longrightarrow> r \<le> 2 ^ 63"
proof (induction d s rule: dur_loop.induct)
  case (1 d s)
  show ?case
  proof (cases "s = []")
    case True
    with "1.prems" show ?thesis by (simp add: dur_loop.simps)
  next
    case False
    with "1.prems" obtain v t where c: "dur_component s = Some (v, t)"
      and le: "\<not> 2 ^ 63 < (d + v) mod 2 ^ 64" and rec: "dur_loop ((d + v) mod 2 ^ 64) t = Some r"
      by (subst (asm) dur_loop.simps) (auto simp: Let_def split: option.splits if_splits)
    show ?thesis using "1.IH" [OF False c refl refl le _ rec] le by simp
  qed
qed

lemma ParseDuration_range: "ParseDuration s = Some d \<Longrightarrow> - (2 ^ 63) \<le> d \<and> d < 2 ^ 63"
  using signed_take_bit_int_greater_eq_minus_exp [of 63] signed_take_bit_int_less_exp [of 63]
  by (auto simp: ParseDuration_def to_int64_def split: prod.splits if_splits option.splits)

lemmas duration_eval =
  ParseDuration_def strip_sign_def dur_loop.simps dur_component_def dur_number_def unit_map_def
  dur_digit_def char_code_def Let_def to_int64_def second_def

lemma parse_seconds:
  "ParseDuration ''10s'' = Some (10 * second)" "ParseDuration ''15s'' = Some (15 * second)"
  "ParseDuration ''30s'' = Some (30 * second)" "ParseDuration ''60s'' = Some (60 * second)"
  "ParseDuration ''120s'' = Some (120 * second)" "ParseDuration ''180s'' = Some (180 * second)"
  by (simp_all add: duration_eval)

end
