(* ===== verification/RuntimeConfig.thy ===== *)
theory RuntimeConfig
  imports GoDuration
begin

text \<open>
  wsbridge/config.go: the configuration the bridge runs with. Go's embedded structs are
  record extensions, so \<open>Enabled\<close> and \<open>Timeout\<close> are promoted as in the source. Durations
  are nanoseconds.
\<close>

record NSRuntimeConfig =
  Enabled :: bool
  Timeout :: int

record LiteRuntimeConfig = NSRuntimeConfig +
  SendWaitTimeout :: int
  WatchTimeout :: int

record SubscribeRuntimeConfig = NSRuntimeConfig +
  MaxSubscriptions :: int
  MaxMultiAccounts :: int
  MaxConfigParams :: int

record ADNLRuntimeConfig = NSRuntimeConfig +
  MaxPeers :: int
  QueryMaxTimeout :: int
  SSRFProtection :: bool

record OverlayRuntimeConfig = NSRuntimeConfig +
  MaxOverlays :: int
  ov_QueryMaxTimeout :: int

record DHTRuntimeConfig = NSRuntimeConfig +
  TunnelTimeout :: int
  AllowWrite :: bool

record TraceRuntimeConfig = NSRuntimeConfig +
  MaxDepth :: int
  DefaultDepth :: int
  MaxMsgTimeout :: int
  DefaultMsgTimeout :: int
  MaxResolvers :: int

record NamespacesRuntimeConfig =
  Lite :: LiteRuntimeConfig
  Subscribe :: SubscribeRuntimeConfig
  ADNL :: ADNLRuntimeConfig
  Overlay :: OverlayRuntimeConfig
  DHT :: DHTRuntimeConfig
  SubscribeTrace :: TraceRuntimeConfig
  Jetton :: NSRuntimeConfig
  NFT :: NSRuntimeConfig
  DNS :: NSRuntimeConfig
  Wallet :: NSRuntimeConfig
  SBT :: NSRuntimeConfig
  Payment :: NSRuntimeConfig
  Network :: NSRuntimeConfig

record BridgeConfig =
  MaxClients :: int
  AllowedOrigins :: "string list"
  APIKey :: string
  WriteTimeout :: int
  PongDeadline :: int
  PingPeriod :: int
  MaxInflight :: int
  MaxMessageSize :: int
  Namespaces :: NamespacesRuntimeConfig

definition DefaultNamespaces :: NamespacesRuntimeConfig where
  "DefaultNamespaces =
    \<lparr>Lite = \<lparr>Enabled = True, Timeout = 10 * second,
        SendWaitTimeout = 60 * second, WatchTimeout = 180 * second\<rparr>,
     Subscribe = \<lparr>Enabled = True, Timeout = 0,
        MaxSubscriptions = 50, MaxMultiAccounts = 100, MaxConfigParams = 50\<rparr>,
     ADNL = \<lparr>Enabled = True, Timeout = 10 * second,
        MaxPeers = 20, QueryMaxTimeout = 60 * second, SSRFProtection = True\<rparr>,
     Overlay = \<lparr>Enabled = True, Timeout = 10 * second,
        MaxOverlays = 10, ov_QueryMaxTimeout = 60 * second\<rparr>,
     DHT = \<lparr>Enabled = True, Timeout = 15 * second,
        TunnelTimeout = 30 * second, AllowWrite = False\<rparr>,
     SubscribeTrace = \<lparr>Enabled = True, Timeout = 0, MaxDepth = 10, DefaultDepth = 3,
        MaxMsgTimeout = 120 * second, DefaultMsgTimeout = 10 * second, MaxResolvers = 50\<rparr>,
     Jetton = \<lparr>Enabled = True, Timeout = 10 * second\<rparr>,
     NFT = \<lparr>Enabled = True, Timeout = 10 * second\<rparr>,
     DNS = \<lparr>Enabled = True, Timeout = 10 * second\<rparr>,
     Wallet = \<lparr>Enabled = True, Timeout = 10 * second\<rparr>,
     SBT = \<lparr>Enabled = True, Timeout = 10 * second\<rparr>,
     Payment = \<lparr>Enabled = True, Timeout = 10 * second\<rparr>,
     Network = \<lparr>Enabled = True, Timeout = 0\<rparr>\<rparr>"

definition DefaultBridgeConfig :: BridgeConfig where
  "DefaultBridgeConfig =
    \<lparr>MaxClients = 100,
     AllowedOrigins = [''127.0.0.1'', ''localhost'', ''::1''],
     APIKey = [],
     WriteTimeout = 10 * second,
     PongDeadline = 60 * second,
     PingPeriod = 54 * second,
     MaxInflight = 100,
     MaxMessageSize = 2 ^ 20,
     Namespaces = DefaultNamespaces\<rparr>"

text \<open>The text of a method before its first dot.\<close>

definition ns_prefix :: "string \<Rightarrow> string" where
  "ns_prefix m = takeWhile (\<lambda>c. c \<noteq> CHR ''.'') m"

definition namespaceEnabled :: "BridgeConfig \<Rightarrow> string \<Rightarrow> bool" where
  "namespaceEnabled c m =
     (let ns = ns_prefix m; n = Namespaces c in
      if m = ''subscribe.trace'' then Enabled (Subscribe n) \<and> Enabled (SubscribeTrace n)
      else if ns = ''lite'' then Enabled (Lite n)
      else if ns = ''subscribe'' then Enabled (Subscribe n)
      else if ns = ''adnl'' then Enabled (ADNL n)
      else if ns = ''overlay'' then Enabled (Overlay n)
      else if ns = ''dht'' then Enabled (DHT n)
      else if ns = ''jetton'' then Enabled (Jetton n)
      else if ns = ''nft'' then Enabled (NFT n)
      else if ns = ''dns'' then Enabled (DNS n)
      else if ns = ''wallet'' then Enabled (Wallet n)
      else if ns = ''sbt'' then Enabled (SBT n)
      else if ns = ''payment'' then Enabled (Payment n)
      else if ns = ''network'' then Enabled (Network n)
      else True)"

text \<open>Every method of the subscribe namespace, tracing included, is off with the namespace.\<close>

lemma subscribe_gates_trace:
  "\<not> Enabled (Subscribe (Namespaces c)) \<Longrightarrow> ns_prefix m = ''subscribe'' \<Longrightarrow> \<not> namespaceEnabled c m"
  by (simp add: namespaceEnabled_def Let_def)

end
