(* ===== verification/Base64.thy ===== *)
theory Base64
  imports Encoding
begin

text \<open>
  Base64 payloads: Go's \<open>base64.StdEncoding\<close> and the bridge's tolerant wrapper
  \<open>decodeBase64\<close> (wsbridge/helpers.go), which restores missing padding first. The lemmas
  show that every byte sequence survives the round trip with and without its padding.
\<close>

section \<open>The alphabet\<close>

definition b64_char :: "nat \<Rightarrow> char" where
  "b64_char n =
     (if n < 26 then char_of (65 + n)
      else if n < 52 then char_of (71 + n)
      else if n < 62 then char_of (n - 4)
      else if n = 62 then CHR ''+'' else CHR ''/'')"

definition b64_value :: "char \<Rightarrow> nat option" where
  "b64_value c =
     (let n = char_code c in
      if 65 \<le> n \<and> n \<le> 90 then Some (n - 65)
      else if 97 \<le> n \<and> n \<le> 122 then Some (n - 71)
      else if 48 \<le> n \<and> n \<le> 57 then Some (n + 4)
      else if n = 43 then Some 62
      else if n = 47 then Some 63
      else None)"

abbreviation pad_char :: char where
  "pad_char \<equiv> CHR ''=''"

definition is_newline :: "char \<Rightarrow> bool" where
  "is_newline c \<longleftrightarrow> char_code c = 10 \<or> char_code c = 13"

section \<open>Encoding and decoding\<close>

definition sextet1 :: "byte \<Rightarrow> nat" where
  "sextet1 a = unat a div 4"

definition sextet2 :: "byte \<Rightarrow> nat \<Rightarrow> nat" where
  "sextet2 a b = unat a mod 4 * 16 + b div 16"

definition sextet3 :: "byte \<Rightarrow> nat \<Rightarrow> nat" where
  "sextet3 b c = unat b mod 16 * 4 + c div 64"

text \<open>\<open>StdEncoding.EncodeToString\<close>: three bytes to four characters, the last group padded.\<close>

fun b64_encode :: "bytes \<Rightarrow> string" where
  "b64_encode [] = []"
| "b64_encode [a] = [b64_char (sextet1 a), b64_char (sextet2 a 0), pad_char, pad_char]"
| "b64_encode [a, b] =
     [b64_char (sextet1 a), b64_char (sextet2 a (unat b)), b64_char (sextet3 b 0), pad_char]"
| "b64_encode (a # b # c # bs) =
     b64_char (sextet1 a) # b64_char (sextet2 a (unat b)) # b64_char (sextet3 b (unat c))
       # b64_char (unat c mod 64) # b64_encode bs"

text \<open>
  \<open>StdEncoding.DecodeString\<close>: CR and LF are skipped, every group has four characters, and
  padding may only end the last group. Unused low bits are not checked (the encoding is not
  strict).
\<close>

fun b64_groups :: "string \<Rightarrow> bytes result" where
  "b64_groups [] = Inr []"
| "b64_groups (w # x # y # z # s) =
     (case (b64_value w, b64_value x) of
        (Some i, Some j) \<Rightarrow>
          (case b64_value y of
             Some k \<Rightarrow>
               (case b64_value z of
                  Some l \<Rightarrow>
                    (case b64_groups s of
                       Inl e \<Rightarrow> Inl e
                     | Inr bs \<Rightarrow> Inr (word_of_nat (i * 4 + j div 16)
                         # word_of_nat (j mod 16 * 16 + k div 4)
                         # word_of_nat (k mod 4 * 64 + l) # bs))
                | None \<Rightarrow>
                    if z = pad_char \<and> s = []
                    then Inr [word_of_nat (i * 4 + j div 16), word_of_nat (j mod 16 * 16 + k div 4)]
                    else Inl ErrBase64)
           | None \<Rightarrow>
               if y = pad_char \<and> z = pad_char \<and> s = []
               then Inr [word_of_nat (i * 4 + j div 16)]
               else Inl ErrBase64)
      | _ \<Rightarrow> Inl ErrBase64)"
| "b64_groups _ = Inl ErrBase64"

definition b64_decode :: "string \<Rightarrow> bytes result" where
  "b64_decode s = b64_groups (filter (\<lambda>c. \<not> is_newline c) s)"

text \<open>\<open>decodeBase64\<close>: pads to a multiple of four, counting every character of the input.\<close>

definition decodeBase64 :: "string \<Rightarrow> bytes result" where
  "decodeBase64 s =
     (let m = length s mod 4;
          s' = (if m \<noteq> 0 then s @ replicate (4 - m) pad_char else s)
      in b64_decode s')"

section \<open>Round trips\<close>

lemma b64_value_char: "n < 64 \<Longrightarrow> b64_value (b64_char n) = Some n"
proof -
  assume n: "n < 64"
  consider "n < 26" | "26 \<le> n" "n < 52" | "52 \<le> n" "n < 62" | "n = 62" | "n = 63"
    using n by linarith
  then show ?thesis
  proof cases
    case 4
    then show ?thesis by (simp add: b64_value_def b64_char_def char_code_def)
  next
    case 5
    then show ?thesis by (simp add: b64_value_def b64_char_def char_code_def)
  next
    case 3
    then have "48 \<le> n - 4" and "n - 4 \<le> 57" and "n - 4 \<noteq> 43" and "n - 4 \<noteq> 47"
      by linarith+
    with 3 show ?thesis by (simp add: b64_value_def b64_char_def Let_def)
  qed (simp_all add: b64_value_def b64_char_def Let_def)
qed

lemma sextet_bounds:
  "sextet1 a < 64" "b < 256 \<Longrightarrow> sextet2 a b < 64" "c < 256 \<Longrightarrow> sextet3 d c < 64"
proof -
  have "unat a < 256" using unsigned_less [of a, where 'a = nat] by simp
  then show "sextet1 a < 64" by (simp add: sextet1_def)
  show "sextet2 a b < 64" if "b < 256"
  proof -
    have "b div 16 < 16" using that by simp
    moreover have "unat a mod 4 < 4" by simp
    ultimately show ?thesis by (simp add: sextet2_def)
  qed
  show "sextet3 d c < 64" if "c < 256"
  proof -
    have "c div 64 < 4" using that by simp
    moreover have "unat d mod 16 < 16" by simp
    ultimately show ?thesis by (simp add: sextet3_def)
  qed
qed

lemma byte_less: "unat (b :: byte) < 256"
  using unsigned_less [of b, where 'a = nat] by simp

lemma sextet2_div: "b < 256 \<Longrightarrow> sextet2 a b div 16 = unat a mod 4"
  by (simp add: sextet2_def)

lemma sextet2_mod: "b < 256 \<Longrightarrow> sextet2 a b mod 16 = b div 16"
  by (simp add: sextet2_def)

lemma sextet3_div: "c < 256 \<Longrightarrow> sextet3 b c div 4 = unat b mod 16"
  by (simp add: sextet3_def)

lemma sextet3_mod: "c < 256 \<Longrightarrow> sextet3 b c mod 4 = c div 64"
  by (simp add: sextet3_def)

lemma byte1: "b < 256 \<Longrightarrow> (word_of_nat (sextet1 a * 4 + sextet2 a b div 16) :: byte) = a"
  by (simp add: sextet1_def sextet2_div)

lemma byte2:
  "c < 256 \<Longrightarrow> (word_of_nat (sextet2 a (unat b) mod 16 * 16 + sextet3 b c div 4) :: byte) = b"
  by (simp add: sextet2_mod [OF byte_less] sextet3_div)

lemma byte3:
  "(word_of_nat (sextet3 b (unat c) mod 4 * 64 + unat c mod 64) :: byte) = c"
  by (simp add: sextet3_mod [OF byte_less])

lemmas sextet_values [simp] =
  b64_value_char [OF sextet_bounds(1)]
  b64_value_char [OF sextet_bounds(2) [OF byte_less]]
  b64_value_char [OF sextet_bounds(3) [OF byte_less]]
  b64_value_char [OF sextet_bounds(2) [of 0, simplified]]
  b64_value_char [OF sextet_bounds(3) [of 0, simplified]]

lemma pad_no_value [simp]: "b64_value pad_char = None"
  by (simp add: b64_value_def char_code_def)

lemma b64_groups_encode: "b64_groups (b64_encode bs) = Inr bs"
proof (induction bs rule: b64_encode.induct)
  case 1
  then show ?case by simp
next
  case (2 a)
  then show ?case using byte1 [of 0 a] by simp
next
  case (3 a b)
  then show ?case using byte1 [OF byte_less, of a b] byte2 [of 0 a b] by simp
next
  case (4 a b c bs)
  then show ?case
    using byte1 [OF byte_less, of a b] byte2 [OF byte_less, of a b c] byte3 [of b c]
    by (simp add: b64_value_char)
qed

lemma b64_char_plain: "n < 64 \<Longrightarrow> \<not> is_newline (b64_char n) \<and> b64_char n \<noteq> pad_char"
proof -
  assume n: "n < 64"
  have "b64_value (b64_char n) = Some n" by (rule b64_value_char [OF n])
  moreover have "is_newline c \<Longrightarrow> b64_value c = None" for c
    by (auto simp: is_newline_def b64_value_def Let_def)
  ultimately show ?thesis by (metis option.distinct(1) pad_no_value)
qed

lemma pad_not_newline [simp]: "\<not> is_newline pad_char"
  by (simp add: is_newline_def char_code_def)

lemmas sextet_plain [simp] =
  b64_char_plain [OF sextet_bounds(1)]
  b64_char_plain [OF sextet_bounds(2) [OF byte_less]]
  b64_char_plain [OF sextet_bounds(3) [OF byte_less]]
  b64_char_plain [OF sextet_bounds(2) [of 0, simplified]]
  b64_char_plain [OF sextet_bounds(3) [of 0, simplified]]

lemma b64_encode_no_newline: "filter (\<lambda>c. \<not> is_newline c) (b64_encode bs) = b64_encode bs"
  by (induction bs rule: b64_encode.induct) (simp_all add: b64_char_plain)

lemma b64_decode_encode: "b64_decode (b64_encode bs) = Inr bs"
  by (simp add: b64_decode_def b64_encode_no_newline b64_groups_encode)

lemma length_b64_encode_mod: "length (b64_encode bs) mod 4 = 0"
  by (induction bs rule: b64_encode.induct) auto

lemma decodeBase64_encode: "decodeBase64 (b64_encode bs) = Inr bs"
  by (simp add: decodeBase64_def length_b64_encode_mod b64_decode_encode)

interpretation b64: codec b64_encode decodeBase64 "\<lambda>_. True"
  by unfold_locales (rule decodeBase64_encode)

text \<open>The unpadded form (\<open>RawStdEncoding\<close>): the encoding up to its first padding character.\<close>

definition b64_raw_encode :: "bytes \<Rightarrow> string" where
  "b64_raw_encode bs = takeWhile (\<lambda>c. c \<noteq> pad_char) (b64_encode bs)"

lemma b64_raw_repad:
  "b64_encode bs =
     (let s = b64_raw_encode bs; m = length s mod 4
      in if m \<noteq> 0 then s @ replicate (4 - m) pad_char else s)"
proof (induction bs rule: b64_encode.induct)
  case 1
  then show ?case by (simp add: b64_raw_encode_def)
next
  case (2 a)
  have "b64_raw_encode [a] = [b64_char (sextet1 a), b64_char (sextet2 a 0)]"
    by (simp add: b64_raw_encode_def)
  then show ?case by (simp add: numeral_2_eq_2)
next
  case (3 a b)
  have "b64_raw_encode [a, b] =
      [b64_char (sextet1 a), b64_char (sextet2 a (unat b)), b64_char (sextet3 b 0)]"
    by (simp add: b64_raw_encode_def)
  then show ?case by simp
next
  case (4 a b c bs)
  have raw: "b64_raw_encode (a # b # c # bs) =
      b64_char (sextet1 a) # b64_char (sextet2 a (unat b)) # b64_char (sextet3 b (unat c))
        # b64_char (unat c mod 64) # b64_raw_encode bs"
    by (simp add: b64_raw_encode_def b64_char_plain)
  have "Suc (Suc (Suc (Suc n))) mod 4 = n mod 4" for n :: nat
    by presburger
  with 4 show ?case by (simp add: raw Let_def split: if_splits)
qed

lemma decodeBase64_raw: "decodeBase64 (b64_raw_encode bs) = Inr bs"
proof -
  let ?s = "b64_raw_encode bs"
  have "decodeBase64 ?s = b64_decode (b64_encode bs)"
    using b64_raw_repad [of bs] by (metis decodeBase64_def)
  then show ?thesis by (simp add: b64_decode_encode)
qed

interpretation b64raw: codec b64_raw_encode decodeBase64 "\<lambda>_. True"
  by unfold_locales (rule decodeBase64_raw)

end
