(* ===== verification/JsonRpc.thy ===== *)
theory JsonRpc
  imports Base64
begin

text \<open>
  The JSON-RPC 2.0 surface of wsbridge/bridge.go: JSON values, the way Go's \<open>encoding/json\<close>
  fills a parameter struct, requests, results and errors, and the observable effects of a
  handler (replies, push events and calls into the network libraries).
\<close>

section \<open>JSON values\<close>

text \<open>A number keeps its literal, because Go parses it again at the type of its field.\<close>

datatype json =
    JNull
  | JBool bool
  | JNum string
  | JStr string
  | JArr "json list"
  | JObj "(string \<times> json) list"

definition jint :: "int \<Rightarrow> json" where
  "jint x = JNum (show_int x)"

definition jbytes :: "bytes \<Rightarrow> json" where
  "jbytes bs = JStr (b64_encode bs)"

section \<open>json.Unmarshal into a parameter struct\<close>

text \<open>
  A setter gets the JSON value found under a field's key and the struct so far. It is \<open>None\<close>
  where Go reports a type mismatch; a JSON \<open>null\<close> leaves the field as it is.
\<close>

type_synonym 'p setter = "json \<Rightarrow> 'p \<Rightarrow> 'p option"

definition fold_char :: "char \<Rightarrow> char" where
  "fold_char c =
     (let n = char_code c in if 65 \<le> n \<and> n \<le> 90 then char_of (n + 32) else c)"

definition key_matches :: "string \<Rightarrow> string \<Rightarrow> bool" where
  "key_matches name k \<longleftrightarrow> map fold_char name = map fold_char k"

lemma key_matches_refl [simp]: "key_matches n n"
  by (simp add: key_matches_def)

fun find_field :: "(string \<times> 'p setter) list \<Rightarrow> string \<Rightarrow> 'p setter option" where
  "find_field [] k = None"
| "find_field ((name, st) # fs) k = (if key_matches name k then Some st else find_field fs k)"

text \<open>Keys are visited in document order; unknown keys are skipped and a later duplicate wins.\<close>

fun unmarshal_entries :: "(string \<times> 'p setter) list \<Rightarrow> (string \<times> json) list \<Rightarrow> 'p \<Rightarrow> 'p option" where
  "unmarshal_entries fs [] p = Some p"
| "unmarshal_entries fs ((k, v) # es) p =
     (case find_field fs k of
        None \<Rightarrow> unmarshal_entries fs es p
      | Some st \<Rightarrow> (case st v p of None \<Rightarrow> None | Some p' \<Rightarrow> unmarshal_entries fs es p'))"

text \<open>\<open>None\<close> as raw message is the empty one, of a request without \<open>params\<close>.\<close>

definition unmarshal :: "(string \<times> 'p setter) list \<Rightarrow> json option \<Rightarrow> 'p \<Rightarrow> 'p result" where
  "unmarshal fs raw p =
     (case raw of
        None \<Rightarrow> Inl ErrJson
      | Some JNull \<Rightarrow> Inr p
      | Some (JObj es) \<Rightarrow> (case unmarshal_entries fs es p of None \<Rightarrow> Inl ErrJson | Some q \<Rightarrow> Inr q)
      | Some _ \<Rightarrow> Inl ErrJson)"

subsection \<open>Fields\<close>

definition string_field :: "(string \<Rightarrow> 'p \<Rightarrow> 'p) \<Rightarrow> 'p setter" where
  "string_field upd v p =
     (case v of JNull \<Rightarrow> Some p | JStr s \<Rightarrow> Some (upd s p) | _ \<Rightarrow> None)"

definition bool_field :: "(bool \<Rightarrow> 'p \<Rightarrow> 'p) \<Rightarrow> 'p setter" where
  "bool_field upd v p =
     (case v of JNull \<Rightarrow> Some p | JBool b \<Rightarrow> Some (upd b p) | _ \<Rightarrow> None)"

text \<open>\<open>strconv.ParseInt\<close> of a JSON number literal, which never has a plus sign.\<close>

definition parse_int_lit :: "nat \<Rightarrow> string \<Rightarrow> int option" where
  "parse_int_lit w s =
     (let neg = (s \<noteq> [] \<and> hd s = CHR ''-''); body = (if neg then tl s else s) in
      case parse_uint 10 body of
        Inl _ \<Rightarrow> None
      | Inr n \<Rightarrow>
          if neg then (if n \<le> 2 ^ (w - 1) then Some (- int n) else None)
          else (if n < 2 ^ (w - 1) then Some (int n) else None))"

definition parse_uint_lit :: "nat \<Rightarrow> string \<Rightarrow> nat option" where
  "parse_uint_lit w s =
     (case parse_uint 10 s of Inl _ \<Rightarrow> None | Inr n \<Rightarrow> if n < 2 ^ w then Some n else None)"

definition int_field :: "nat \<Rightarrow> (int \<Rightarrow> 'p \<Rightarrow> 'p) \<Rightarrow> 'p setter" where
  "int_field w upd v p =
     (case v of
        JNull \<Rightarrow> Some p
      | JNum s \<Rightarrow> map_option (\<lambda>n. upd n p) (parse_int_lit w s)
      | _ \<Rightarrow> None)"

definition uint_field :: "nat \<Rightarrow> (nat \<Rightarrow> 'p \<Rightarrow> 'p) \<Rightarrow> 'p setter" where
  "uint_field w upd v p =
     (case v of
        JNull \<Rightarrow> Some p
      | JNum s \<Rightarrow> map_option (\<lambda>n. upd n p) (parse_uint_lit w s)
      | _ \<Rightarrow> None)"

text \<open>A slice: every element starts from the zero value of the element type.\<close>

fun unmarshal_list :: "'a setter \<Rightarrow> 'a \<Rightarrow> json list \<Rightarrow> 'a list option" where
  "unmarshal_list st z [] = Some []"
| "unmarshal_list st z (v # vs) =
     (case st v z of
        None \<Rightarrow> None
      | Some x \<Rightarrow> (case unmarshal_list st z vs of None \<Rightarrow> None | Some xs \<Rightarrow> Some (x # xs)))"

definition list_field :: "'a setter \<Rightarrow> 'a \<Rightarrow> ('a list \<Rightarrow> 'p \<Rightarrow> 'p) \<Rightarrow> 'p setter" where
  "list_field st z upd v p =
     (case v of
        JNull \<Rightarrow> Some (upd [] p)
      | JArr vs \<Rightarrow> map_option (\<lambda>xs. upd xs p) (unmarshal_list st z vs)
      | _ \<Rightarrow> None)"

definition struct_setter :: "(string \<times> 'p setter) list \<Rightarrow> 'p setter" where
  "struct_setter fs v p =
     (case v of JNull \<Rightarrow> Some p | JObj es \<Rightarrow> unmarshal_entries fs es p | _ \<Rightarrow> None)"

lemma unmarshal_absent [simp]: "unmarshal fs None p = Inl ErrJson"
  by (simp add: unmarshal_def)

lemma unmarshal_null [simp]: "unmarshal fs (Some JNull) p = Inr p"
  by (simp add: unmarshal_def)

lemma unmarshal_list_length: "unmarshal_list st z vs = Some xs \<Longrightarrow> length xs = length vs"
  by (induction vs arbitrary: xs) (auto split: option.splits)

section \<open>Requests, replies and errors\<close>

record WSRequest =
  req_jsonrpc :: string
  req_id :: string
  req_method :: string
  req_params :: "json option"

definition zero_request :: WSRequest where
  "zero_request = \<lparr>req_jsonrpc = [], req_id = [], req_method = [], req_params = None\<rparr>"

text \<open>The decoder of the request envelope; \<open>params\<close> is kept raw, \<open>null\<close> included.\<close>

definition request_fields :: "(string \<times> WSRequest setter) list" where
  "request_fields =
    [(''jsonrpc'', string_field (\<lambda>s r. r\<lparr>req_jsonrpc := s\<rparr>)),
     (''id'', string_field (\<lambda>s r. r\<lparr>req_id := s\<rparr>)),
     (''method'', string_field (\<lambda>s r. r\<lparr>req_method := s\<rparr>)),
     (''params'', \<lambda>v r. Some (r\<lparr>req_params := Some v\<rparr>))]"

definition parse_request :: "json option \<Rightarrow> WSRequest result" where
  "parse_request msg = unmarshal request_fields msg zero_request"

text \<open>The text of an error reply: a literal, or a prefix followed by \<open>err.Error()\<close>.\<close>

datatype err_text = Lit string | Wrap string goerr

datatype reply = Result json | Error int err_text

definition parse_error :: int where "parse_error = -32700"
definition method_not_found :: int where "method_not_found = -32601"
definition invalid_params :: int where "invalid_params = -32602"
definition internal_error :: int where "internal_error = -32603"

text \<open>\<open>sendError\<close> without a code replies with an internal error.\<close>

abbreviation bad :: "err_text \<Rightarrow> reply" where
  "bad t \<equiv> Error invalid_params t"

abbreviation failed :: "err_text \<Rightarrow> reply" where
  "failed t \<equiv> Error internal_error t"

definition is_error :: "reply \<Rightarrow> bool" where
  "is_error r \<longleftrightarrow> (case r of Error _ _ \<Rightarrow> True | Result _ \<Rightarrow> False)"

lemma is_error_simps [simp]: "is_error (Error c t)" "\<not> is_error (Result j)"
  by (simp_all add: is_error_def)

text \<open>\<open>sendError\<close> resolves its optional code argument; the default is an internal error.\<close>

definition sendError :: "err_text \<Rightarrow> int list \<Rightarrow> reply" where
  "sendError t codes = Error (case codes of [] \<Rightarrow> internal_error | c # _ \<Rightarrow> c) t"

definition sendResult :: "json \<Rightarrow> reply" where
  "sendResult j = Result j"

text \<open>The wire form of a reply (\<open>WSResponse\<close>); \<open>omitempty\<close> leaves a nil result out.\<close>

definition response_json :: "string \<Rightarrow> (err_text \<Rightarrow> string) \<Rightarrow> reply \<Rightarrow> json" where
  "response_json i render r =
     (case r of
        Result j \<Rightarrow> JObj ([(''jsonrpc'', JStr ''2.0''), (''id'', JStr i)] @
          (if j = JNull then [] else [(''result'', j)]))
      | Error c t \<Rightarrow> JObj [(''jsonrpc'', JStr ''2.0''), (''id'', JStr i),
          (''error'', JObj [(''code'', jint c), (''message'', JStr (render t))])])"

end
