(* ===== verification/ServerConfig.thy ===== *)
theory ServerConfig
  imports RuntimeConfig JsonRpc "HOL-Library.Signed_Division"
begin

text \<open>
  config.go: the configuration file. The records keep the layout of the Go structs (embedded
  structs are record extensions, a nil pointer or slice is \<open>None\<close>), \<open>config_fields\<close> is what
  \<open>encoding/json\<close> derives from the field tags for reading and \<open>config_json\<close> for writing.
  The file holds \<open>None\<close> where its text is not JSON.
\<close>

section \<open>The structs\<close>

record WebSocketConfig =
  cWriteTimeout :: string
  cPongDeadline :: string
  cMaxInflight :: int
  cMaxMessageSize :: int

record NamespaceConfig =
  cEnabled :: "bool option"
  cTimeout :: string

record LiteConfig = NamespaceConfig +
  cSendWaitTimeout :: string
  cWatchTimeout :: string

record SubscribeConfig = NamespaceConfig +
  cMaxSubscriptions :: int
  cMaxMultiAccounts :: int
  cMaxConfigParams :: int

record ADNLConfig = NamespaceConfig +
  cMaxPeers :: int
  cQueryMaxTimeout :: string
  cSSRFProtection :: bool

record OverlayConfig = NamespaceConfig +
  cMaxOverlays :: int
  cov_QueryMaxTimeout :: string

record DHTConfig = NamespaceConfig +
  cTunnelTimeout :: string
  cAllowWrite :: bool

record TraceConfig = NamespaceConfig +
  cMaxDepth :: int
  cDefaultDepth :: int
  cMaxMsgTimeout :: string
  cDefaultMsgTimeout :: string
  cMaxResolvers :: int

record NamespacesConfig =
  cLite :: LiteConfig
  cSubscribe :: SubscribeConfig
  cADNL :: ADNLConfig
  cOverlay :: OverlayConfig
  cDHT :: DHTConfig
  cSubscribeTrace :: TraceConfig
  cJetton :: NamespaceConfig
  cNFT :: NamespaceConfig
  cDNS :: NamespaceConfig
  cWallet :: NamespaceConfig
  cSBT :: NamespaceConfig
  cPayment :: NamespaceConfig
  cNetwork :: NamespaceConfig

record Config =
  cVersion :: int
  cADNLKey :: "bytes option"
  cListen :: string
  cVerbosity :: int
  cTunnelSections :: int
  cTonConfig :: string
  cMaxClients :: int
  cAllowedOrigins :: "string list option"
  cAPIKey :: string
  cWebSocket :: WebSocketConfig
  cNamespaces :: NamespacesConfig

definition IsEnabled :: "'a NamespaceConfig_scheme \<Rightarrow> bool" where
  "IsEnabled n = (case cEnabled n of None \<Rightarrow> True | Some b \<Rightarrow> b)"

section \<open>Defaults\<close>

definition DefaultWebSocket :: WebSocketConfig where
  "DefaultWebSocket =
    \<lparr>cWriteTimeout = ''10s'', cPongDeadline = ''60s'', cMaxInflight = 100,
     cMaxMessageSize = 2 ^ 20\<rparr>"

definition DefaultNamespacesConfig :: NamespacesConfig where
  "DefaultNamespacesConfig =
    \<lparr>cLite = \<lparr>cEnabled = Some True, cTimeout = ''10s'',
        cSendWaitTimeout = ''60s'', cWatchTimeout = ''180s''\<rparr>,
     cSubscribe = \<lparr>cEnabled = Some True, cTimeout = [],
        cMaxSubscriptions = 50, cMaxMultiAccounts = 100, cMaxConfigParams = 50\<rparr>,
     cADNL = \<lparr>cEnabled = Some True, cTimeout = ''10s'',
        cMaxPeers = 20, cQueryMaxTimeout = ''60s'', cSSRFProtection = True\<rparr>,
     cOverlay = \<lparr>cEnabled = Some True, cTimeout = ''10s'',
        cMaxOverlays = 10, cov_QueryMaxTimeout = ''60s''\<rparr>,
     cDHT = \<lparr>cEnabled = Some True, cTimeout = ''15s'',
        cTunnelTimeout = ''30s'', cAllowWrite = False\<rparr>,
     cSubscribeTrace = \<lparr>cEnabled = Some True, cTimeout = [], cMaxDepth = 10, cDefaultDepth = 3,
        cMaxMsgTimeout = ''120s'', cDefaultMsgTimeout = ''10s'', cMaxResolvers = 50\<rparr>,
     cJetton = \<lparr>cEnabled = Some True, cTimeout = ''10s''\<rparr>,
     cNFT = \<lparr>cEnabled = Some True, cTimeout = ''10s''\<rparr>,
     cDNS = \<lparr>cEnabled = Some True, cTimeout = ''10s''\<rparr>,
     cWallet = \<lparr>cEnabled = Some True, cTimeout = ''10s''\<rparr>,
     cSBT = \<lparr>cEnabled = Some True, cTimeout = ''10s''\<rparr>,
     cPayment = \<lparr>cEnabled = Some True, cTimeout = ''10s''\<rparr>,
     cNetwork = \<lparr>cEnabled = Some True, cTimeout = []\<rparr>\<rparr>"

definition DefaultConfig :: Config where
  "DefaultConfig =
    \<lparr>cVersion = 2, cADNLKey = None, cListen = ''127.0.0.1:8081'', cVerbosity = 2,
     cTunnelSections = 0, cTonConfig = [], cMaxClients = 100,
     cAllowedOrigins = Some [''127.0.0.1'', ''localhost'', ''::1''], cAPIKey = [],
     cWebSocket = DefaultWebSocket, cNamespaces = DefaultNamespacesConfig\<rparr>"

text \<open>The two ways a zero field takes its default.\<close>

definition str_default :: "string \<Rightarrow> string \<Rightarrow> string" where
  "str_default s d = (if s = [] then d else s)"

definition int_default :: "int \<Rightarrow> int \<Rightarrow> int" where
  "int_default n d = (if n = 0 then d else n)"

text \<open>The closure \<open>nsDefault\<close> of \<open>applyDefaults\<close>.\<close>

definition nsDefault :: "'a NamespaceConfig_scheme \<Rightarrow> 'b NamespaceConfig_scheme \<Rightarrow> 'a NamespaceConfig_scheme" where
  "nsDefault ns def = ns\<lparr>cTimeout := str_default (cTimeout ns) (cTimeout def)\<rparr>"

definition applyDefaults_ws :: "WebSocketConfig \<Rightarrow> WebSocketConfig" where
  "applyDefaults_ws w =
    \<lparr>cWriteTimeout = str_default (cWriteTimeout w) (cWriteTimeout DefaultWebSocket),
     cPongDeadline = str_default (cPongDeadline w) (cPongDeadline DefaultWebSocket),
     cMaxInflight = int_default (cMaxInflight w) (cMaxInflight DefaultWebSocket),
     cMaxMessageSize = int_default (cMaxMessageSize w) (cMaxMessageSize DefaultWebSocket)\<rparr>"

definition applyDefaults_ns :: "NamespacesConfig \<Rightarrow> NamespacesConfig" where
  "applyDefaults_ns n =
    (let d = DefaultNamespacesConfig in
    \<lparr>cLite = (nsDefault (cLite n) (cLite d))
       \<lparr>cSendWaitTimeout := str_default (cSendWaitTimeout (cLite n)) (cSendWaitTimeout (cLite d)),
        cWatchTimeout := str_default (cWatchTimeout (cLite n)) (cWatchTimeout (cLite d))\<rparr>,
     cSubscribe = (nsDefault (cSubscribe n) (cSubscribe d))
       \<lparr>cMaxSubscriptions := int_default (cMaxSubscriptions (cSubscribe n)) (cMaxSubscriptions (cSubscribe d)),
        cMaxMultiAccounts := int_default (cMaxMultiAccounts (cSubscribe n)) (cMaxMultiAccounts (cSubscribe d)),
        cMaxConfigParams := int_default (cMaxConfigParams (cSubscribe n)) (cMaxConfigParams (cSubscribe d))\<rparr>,
     cADNL = (nsDefault (cADNL n) (cADNL d))
       \<lparr>cMaxPeers := int_default (cMaxPeers (cADNL n)) (cMaxPeers (cADNL d)),
        cQueryMaxTimeout := str_default (cQueryMaxTimeout (cADNL n)) (cQueryMaxTimeout (cADNL d))\<rparr>,
     cOverlay = (nsDefault (cOverlay n) (cOverlay d))
       \<lparr>cMaxOverlays := int_default (cMaxOverlays (cOverlay n)) (cMaxOverlays (cOverlay d)),
        cov_QueryMaxTimeout := str_default (cov_QueryMaxTimeout (cOverlay n)) (cov_QueryMaxTimeout (cOverlay d))\<rparr>,
     cDHT = (nsDefault (cDHT n) (cDHT d))
       \<lparr>cTunnelTimeout := str_default (cTunnelTimeout (cDHT n)) (cTunnelTimeout (cDHT d))\<rparr>,
     cSubscribeTrace = (nsDefault (cSubscribeTrace n) (cSubscribeTrace d))
       \<lparr>cMaxDepth := int_default (cMaxDepth (cSubscribeTrace n)) (cMaxDepth (cSubscribeTrace d)),
        cDefaultDepth := int_default (cDefaultDepth (cSubscribeTrace n)) (cDefaultDepth (cSubscribeTrace d)),
        cMaxMsgTimeout := str_default (cMaxMsgTimeout (cSubscribeTrace n)) (cMaxMsgTimeout (cSubscribeTrace d)),
        cDefaultMsgTimeout := str_default (cDefaultMsgTimeout (cSubscribeTrace n)) (cDefaultMsgTimeout (cSubscribeTrace d)),
        cMaxResolvers := int_default (cMaxResolvers (cSubscribeTrace n)) (cMaxResolvers (cSubscribeTrace d))\<rparr>,
     cJetton = nsDefault (cJetton n) (cJetton d),
     cNFT = nsDefault (cNFT n) (cNFT d),
     cDNS = nsDefault (cDNS n) (cDNS d),
     cWallet = nsDefault (cWallet n) (cWallet d),
     cSBT = nsDefault (cSBT n) (cSBT d),
     cPayment = nsDefault (cPayment n) (cPayment d),
     cNetwork = cNetwork n\<rparr>)"

definition applyDefaults :: "Config \<Rightarrow> Config" where
  "applyDefaults c =
     c\<lparr>cListen := str_default (cListen c) (cListen DefaultConfig),
       cMaxClients := int_default (cMaxClients c) (cMaxClients DefaultConfig),
       cAllowedOrigins :=
         (case cAllowedOrigins c of None \<Rightarrow> cAllowedOrigins DefaultConfig | Some os \<Rightarrow> Some os),
       cWebSocket := applyDefaults_ws (cWebSocket c),
       cNamespaces := applyDefaults_ns (cNamespaces c)\<rparr>"

definition migrateV1 :: "Config \<Rightarrow> Config" where
  "migrateV1 c =
     c\<lparr>cVersion := 2,
       cListen := cListen DefaultConfig,
       cVerbosity := cVerbosity DefaultConfig,
       cMaxClients := cMaxClients DefaultConfig,
       cAllowedOrigins := cAllowedOrigins DefaultConfig,
       cWebSocket := cWebSocket DefaultConfig,
       cNamespaces := cNamespaces DefaultConfig\<rparr>"

section \<open>Validation\<close>

definition durations :: "Config \<Rightarrow> (string \<times> string) list" where
  "durations c =
    (let w = cWebSocket c; n = cNamespaces c in
     [(''websocket.write_timeout'', cWriteTimeout w),
      (''websocket.pong_deadline'', cPongDeadline w),
      (''namespaces.lite.timeout'', cTimeout (cLite n)),
      (''namespaces.lite.send_wait_timeout'', cSendWaitTimeout (cLite n)),
      (''namespaces.lite.watch_timeout'', cWatchTimeout (cLite n)),
      (''namespaces.adnl.timeout'', cTimeout (cADNL n)),
      (''namespaces.adnl.query_max_timeout'', cQueryMaxTimeout (cADNL n)),
      (''namespaces.overlay.timeout'', cTimeout (cOverlay n)),
      (''namespaces.overlay.query_max_timeout'', cov_QueryMaxTimeout (cOverlay n)),
      (''namespaces.dht.timeout'', cTimeout (cDHT n)),
      (''namespaces.dht.tunnel_timeout'', cTunnelTimeout (cDHT n)),
      (''namespaces.subscribe_trace.max_msg_timeout'', cMaxMsgTimeout (cSubscribeTrace n)),
      (''namespaces.subscribe_trace.default_msg_timeout'', cDefaultMsgTimeout (cSubscribeTrace n)),
      (''namespaces.jetton.timeout'', cTimeout (cJetton n)),
      (''namespaces.nft.timeout'', cTimeout (cNFT n)),
      (''namespaces.dns.timeout'', cTimeout (cDNS n)),
      (''namespaces.wallet.timeout'', cTimeout (cWallet n)),
      (''namespaces.sbt.timeout'', cTimeout (cSBT n)),
      (''namespaces.payment.timeout'', cTimeout (cPayment n))])"

definition bad_duration :: "string \<Rightarrow> bool" where
  "bad_duration s \<longleftrightarrow> s \<noteq> [] \<and> ParseDuration s = None"

text \<open>
  Go ranges over the durations in an unspecified order; the model takes the order of the
  source, so only the field that the message names could differ.
\<close>

definition Validate :: "Config \<Rightarrow> unit result" where
  "Validate c =
    (let w = cWebSocket c; n = cNamespaces c in
     if cMaxClients c < 1 then Inl (ErrMsg ''max_clients'')
     else
       (case filter (\<lambda>(f, v). bad_duration v) (durations c) of
          (f, _) # _ \<Rightarrow> Inl (ErrMsg f)
        | [] \<Rightarrow>
          if cMaxInflight w < 1 then Inl (ErrMsg ''websocket.max_inflight'')
          else if cMaxMessageSize w < 1 then Inl (ErrMsg ''websocket.max_message_size'')
          else if IsEnabled (cSubscribe n) \<and> cMaxSubscriptions (cSubscribe n) < 1
            then Inl (ErrMsg ''namespaces.subscribe.max_subscriptions'')
          else if IsEnabled (cSubscribe n) \<and> cMaxInflight w \<le> cMaxSubscriptions (cSubscribe n)
            then Inl (ErrMsg ''websocket.max_inflight'')
          else if IsEnabled (cADNL n) \<and> cMaxPeers (cADNL n) < 1
            then Inl (ErrMsg ''namespaces.adnl.max_peers'')
          else if IsEnabled (cOverlay n) \<and> cMaxOverlays (cOverlay n) < 1
            then Inl (ErrMsg ''namespaces.overlay.max_overlays'')
          else if IsEnabled (cSubscribeTrace n) \<and> cMaxDepth (cSubscribeTrace n) < 1
            then Inl (ErrMsg ''namespaces.subscribe_trace.max_depth'')
          else if IsEnabled (cSubscribeTrace n) \<and> cDefaultDepth (cSubscribeTrace n) < 1
            then Inl (ErrMsg ''namespaces.subscribe_trace.default_depth'')
          else Inr ()))"

section \<open>The runtime configuration\<close>

definition parseDur :: "string \<Rightarrow> int" where
  "parseDur s =
     (if s = [] then 0 else case ParseDuration s of None \<Rightarrow> 10 * second | Some d \<Rightarrow> d)"

definition simple_ns :: "NamespaceConfig \<Rightarrow> NSRuntimeConfig" where
  "simple_ns n = \<lparr>Enabled = IsEnabled n, Timeout = parseDur (cTimeout n)\<rparr>"

definition runtime_namespaces :: "NamespacesConfig \<Rightarrow> NamespacesRuntimeConfig" where
  "runtime_namespaces n =
    \<lparr>Lite = \<lparr>Enabled = IsEnabled (cLite n), Timeout = parseDur (cTimeout (cLite n)),
        SendWaitTimeout = parseDur (cSendWaitTimeout (cLite n)),
        WatchTimeout = parseDur (cWatchTimeout (cLite n))\<rparr>,
     Subscribe = \<lparr>Enabled = IsEnabled (cSubscribe n), Timeout = 0,
        MaxSubscriptions = cMaxSubscriptions (cSubscribe n),
        MaxMultiAccounts = cMaxMultiAccounts (cSubscribe n),
        MaxConfigParams = cMaxConfigParams (cSubscribe n)\<rparr>,
     ADNL = \<lparr>Enabled = IsEnabled (cADNL n), Timeout = parseDur (cTimeout (cADNL n)),
        MaxPeers = cMaxPeers (cADNL n),
        QueryMaxTimeout = parseDur (cQueryMaxTimeout (cADNL n)),
        SSRFProtection = cSSRFProtection (cADNL n)\<rparr>,
     Overlay = \<lparr>Enabled = IsEnabled (cOverlay n), Timeout = parseDur (cTimeout (cOverlay n)),
        MaxOverlays = cMaxOverlays (cOverlay n),
        ov_QueryMaxTimeout = parseDur (cov_QueryMaxTimeout (cOverlay n))\<rparr>,
     DHT = \<lparr>Enabled = IsEnabled (cDHT n), Timeout = parseDur (cTimeout (cDHT n)),
        TunnelTimeout = parseDur (cTunnelTimeout (cDHT n)),
        AllowWrite = cAllowWrite (cDHT n)\<rparr>,
     SubscribeTrace = \<lparr>Enabled = IsEnabled (cSubscribeTrace n), Timeout = 0,
        MaxDepth = cMaxDepth (cSubscribeTrace n),
        DefaultDepth = cDefaultDepth (cSubscribeTrace n),
        MaxMsgTimeout = parseDur (cMaxMsgTimeout (cSubscribeTrace n)),
        DefaultMsgTimeout = parseDur (cDefaultMsgTimeout (cSubscribeTrace n)),
        MaxResolvers = cMaxResolvers (cSubscribeTrace n)\<rparr>,
     Jetton = simple_ns (cJetton n), NFT = simple_ns (cNFT n), DNS = simple_ns (cDNS n),
     Wallet = simple_ns (cWallet n), SBT = simple_ns (cSBT n), Payment = simple_ns (cPayment n),
     Network = \<lparr>Enabled = IsEnabled (cNetwork n), Timeout = 0\<rparr>\<rparr>"

definition ToWSBridgeConfig :: "Config \<Rightarrow> BridgeConfig" where
  "ToWSBridgeConfig c =
    (let pongDeadline = parseDur (cPongDeadline (cWebSocket c)) in
    \<lparr>MaxClients = cMaxClients c,
     AllowedOrigins = (case cAllowedOrigins c of None \<Rightarrow> [] | Some os \<Rightarrow> os),
     APIKey = cAPIKey c,
     WriteTimeout = parseDur (cWriteTimeout (cWebSocket c)),
     PongDeadline = pongDeadline,
     PingPeriod = to_int64 (pongDeadline * 9) sdiv 10,
     MaxInflight = cMaxInflight (cWebSocket c),
     MaxMessageSize = cMaxMessageSize (cWebSocket c),
     Namespaces = runtime_namespaces (cNamespaces c)\<rparr>)"

section \<open>What validation and the defaults guarantee\<close>

lemmas default_config_defs =
  DefaultConfig_def DefaultWebSocket_def DefaultNamespacesConfig_def

lemmas runtime_defs =
  ToWSBridgeConfig_def runtime_namespaces_def simple_ns_def Let_def

lemma bad_duration_simps [simp]:
  "\<not> bad_duration []" "\<not> bad_duration ''10s''" "\<not> bad_duration ''15s''" "\<not> bad_duration ''30s''"
  "\<not> bad_duration ''60s''" "\<not> bad_duration ''120s''" "\<not> bad_duration ''180s''"
  by (simp_all add: bad_duration_def parse_seconds)

lemma parseDur_simps [simp]:
  "parseDur [] = 0" "parseDur ''10s'' = 10 * second" "parseDur ''15s'' = 15 * second"
  "parseDur ''30s'' = 30 * second" "parseDur ''60s'' = 60 * second"
  "parseDur ''120s'' = 120 * second" "parseDur ''180s'' = 180 * second"
  by (simp_all add: parseDur_def parse_seconds)

lemma IsEnabled_simps [simp]:
  "cEnabled n = None \<Longrightarrow> IsEnabled n" "cEnabled n = Some b \<Longrightarrow> IsEnabled n = b"
  by (simp_all add: IsEnabled_def)

text \<open>The conditions that an accepted configuration meets, as one predicate.\<close>

definition valid_config :: "Config \<Rightarrow> bool" where
  "valid_config c \<longleftrightarrow>
    (let w = cWebSocket c; n = cNamespaces c in
     1 \<le> cMaxClients c \<and>
     list_all (\<lambda>(f, v). \<not> bad_duration v) (durations c) \<and>
     1 \<le> cMaxInflight w \<and> 1 \<le> cMaxMessageSize w \<and>
     (IsEnabled (cSubscribe n) \<longrightarrow>
        1 \<le> cMaxSubscriptions (cSubscribe n) \<and> cMaxSubscriptions (cSubscribe n) < cMaxInflight w) \<and>
     (IsEnabled (cADNL n) \<longrightarrow> 1 \<le> cMaxPeers (cADNL n)) \<and>
     (IsEnabled (cOverlay n) \<longrightarrow> 1 \<le> cMaxOverlays (cOverlay n)) \<and>
     (IsEnabled (cSubscribeTrace n) \<longrightarrow>
        1 \<le> cMaxDepth (cSubscribeTrace n) \<and> 1 \<le> cDefaultDepth (cSubscribeTrace n)))"

lemma no_bad_durations:
  "filter (\<lambda>(f, v). bad_duration v) ds = [] \<longleftrightarrow> list_all (\<lambda>(f, v). \<not> bad_duration v) ds"
  by (auto simp: filter_empty_conv list_all_iff)

lemma valid_config_Validate: "valid_config c \<Longrightarrow> Validate c = Inr ()"
proof -
  assume v: "valid_config c"
  then have "filter (\<lambda>(f, v). bad_duration v) (durations c) = []"
    by (simp add: valid_config_def Let_def no_bad_durations)
  with v show ?thesis
    unfolding Validate_def Let_def by (simp add: valid_config_def Let_def not_less not_le)
qed

lemma Validate_valid_config:
  assumes "Validate c = Inr ()"
  shows "valid_config c"
proof -
  have "1 \<le> cMaxClients c"
    using assms by (simp add: Validate_def Let_def not_less [symmetric] split: if_splits)
  moreover have ds: "filter (\<lambda>(f, v). bad_duration v) (durations c) = []"
    using assms by (cases "filter (\<lambda>(f, v). bad_duration v) (durations c)")
      (auto simp: Validate_def Let_def split: if_splits)
  moreover note assms
  ultimately show ?thesis
    unfolding valid_config_def Let_def no_bad_durations [symmetric]
    by (auto simp: Validate_def Let_def split: if_splits)
qed

text \<open>
  The conditions of \<open>Validate\<close> as one predicate, for the proofs that start from a validated
  configuration. Nothing bounds \<open>max_multi_accounts\<close>, \<open>max_config_params\<close> and \<open>max_resolvers\<close>,
  which may be negative, and the in-flight headroom is asked for only while the subscriptions are
  enabled.
\<close>
lemma Validate_characterised: "Validate c = Inr () \<longleftrightarrow> valid_config c"
  using valid_config_Validate Validate_valid_config by blast

lemma DefaultConfig_valid: "valid_config (DefaultConfig\<lparr>cADNLKey := k\<rparr>)"
  by (simp add: valid_config_def durations_def default_config_defs Let_def)

lemma migrated_valid: "valid_config (applyDefaults (migrateV1 c))"
  by (simp add: valid_config_def durations_def applyDefaults_def migrateV1_def
      applyDefaults_ws_def applyDefaults_ns_def nsDefault_def str_default_def int_default_def
      default_config_defs Let_def)

text \<open>
  The shipped defaults validate, and parsing them gives exactly the runtime defaults that
  the bridge falls back to when it gets no configuration.
\<close>
theorem defaults_agree:
  "Validate DefaultConfig = Inr () \<and> ToWSBridgeConfig DefaultConfig = DefaultBridgeConfig"
proof
  have "DefaultConfig = DefaultConfig\<lparr>cADNLKey := None\<rparr>" by (simp add: DefaultConfig_def)
  with DefaultConfig_valid [of None] show "Validate DefaultConfig = Inr ()"
    by (simp add: valid_config_Validate)
  have ping: "to_int64 (540 * second) sdiv 10 = 54 * second"
    by (simp add: second_def to_int64_id signed_divide_int_def sgn_if)
  show "ToWSBridgeConfig DefaultConfig = DefaultBridgeConfig"
    unfolding runtime_defs default_config_defs
    by (simp add: ping DefaultBridgeConfig_def DefaultNamespaces_def)
qed

lemma str_default_idem: "str_default (str_default s d) d = str_default s d"
  by (simp add: str_default_def)

lemma int_default_idem: "int_default (int_default s d) d = int_default s d"
  by (simp add: int_default_def)

lemma nsDefault_more [simp]:
  "nsDefault (nsDefault n d) d = nsDefault n d"
  "cTimeout (nsDefault n d) = str_default (cTimeout n) (cTimeout d)"
  "cEnabled (nsDefault n d) = cEnabled n"
  by (simp_all add: nsDefault_def str_default_idem)

lemma applyDefaults_ws_idem: "applyDefaults_ws (applyDefaults_ws w) = applyDefaults_ws w"
  by (simp add: applyDefaults_ws_def str_default_idem int_default_idem)

lemma applyDefaults_ns_idem: "applyDefaults_ns (applyDefaults_ns n) = applyDefaults_ns n"
  by (simp add: applyDefaults_ns_def nsDefault_def Let_def str_default_idem int_default_idem)

lemma applyDefaults_idem: "applyDefaults (applyDefaults c) = applyDefaults c"
  by (simp add: applyDefaults_def str_default_idem int_default_idem applyDefaults_ws_idem
      applyDefaults_ns_idem DefaultConfig_def split: option.splits)

lemma applyDefaults_DefaultConfig:
  "applyDefaults (DefaultConfig\<lparr>cADNLKey := k\<rparr>) = DefaultConfig\<lparr>cADNLKey := k\<rparr>"
  by (simp add: applyDefaults_def applyDefaults_ws_def applyDefaults_ns_def nsDefault_def
      str_default_def int_default_def default_config_defs Let_def)

text \<open>
  Filling in defaults leaves no client limit, in-flight limit, message size or subscription
  limit at zero, is idempotent, and never touches what the file decides about the security
  switches: the \<open>enabled\<close> flags, SSRF protection and DHT writes.
\<close>
theorem applyDefaults_spec:
  "applyDefaults (applyDefaults c) = applyDefaults c
   \<and> cMaxClients (applyDefaults c) \<noteq> 0
   \<and> cMaxInflight (cWebSocket (applyDefaults c)) \<noteq> 0
   \<and> cMaxMessageSize (cWebSocket (applyDefaults c)) \<noteq> 0
   \<and> cMaxSubscriptions (cSubscribe (cNamespaces (applyDefaults c))) \<noteq> 0
   \<and> cAllowedOrigins (applyDefaults c) \<noteq> None
   \<and> cSSRFProtection (cADNL (cNamespaces (applyDefaults c))) = cSSRFProtection (cADNL (cNamespaces c))
   \<and> cAllowWrite (cDHT (cNamespaces (applyDefaults c))) = cAllowWrite (cDHT (cNamespaces c))
   \<and> cEnabled (cADNL (cNamespaces (applyDefaults c))) = cEnabled (cADNL (cNamespaces c))
   \<and> cAPIKey (applyDefaults c) = cAPIKey c"
  unfolding applyDefaults_idem
  by (simp add: applyDefaults_def applyDefaults_ws_def applyDefaults_ns_def Let_def
      int_default_def nsDefault_def default_config_defs split: option.splits)

section \<open>The ping period\<close>

lemma parseDur_range: "- (2 ^ 63) \<le> parseDur s \<and> parseDur s < 2 ^ 63"
  using ParseDuration_range [of s] by (auto simp: parseDur_def second_def split: option.splits)

lemma sdiv_10_pos: "0 \<le> x \<Longrightarrow> x sdiv 10 = x div (10 :: int)"
  by (cases "x = 0") (simp_all add: signed_divide_int_def sgn_if)

text \<open>
  For a read deadline from two nanoseconds up to the largest duration whose ninefold fits
  \<open>int64\<close>, the ping period is positive and pings leave before the deadline expires.
\<close>
theorem ping_before_deadline:
  assumes "2 \<le> parseDur (cPongDeadline (cWebSocket c))"
    and "parseDur (cPongDeadline (cWebSocket c)) * 9 < 2 ^ 63"
  shows "0 < PingPeriod (ToWSBridgeConfig c)
    \<and> PingPeriod (ToWSBridgeConfig c) < PongDeadline (ToWSBridgeConfig c)"
proof -
  let ?d = "parseDur (cPongDeadline (cWebSocket c))"
  have "to_int64 (?d * 9) = ?d * 9" using assms by (intro to_int64_id) simp_all
  then have "PingPeriod (ToWSBridgeConfig c) = ?d * 9 div 10"
    using assms by (simp add: ToWSBridgeConfig_def Let_def sdiv_10_pos)
  moreover have "0 < ?d * 9 div 10" "?d * 9 div 10 < ?d" using assms by linarith+
  ultimately show ?thesis by (simp add: ToWSBridgeConfig_def Let_def)
qed

theorem ping_before_deadline_witness:
  "0 < PingPeriod (ToWSBridgeConfig DefaultConfig)
   \<and> PingPeriod (ToWSBridgeConfig DefaultConfig) < PongDeadline (ToWSBridgeConfig DefaultConfig)"
  by (rule ping_before_deadline) (simp_all add: default_config_defs second_def)

text \<open>A configuration whose read deadline is the text \<open>0s\<close>.\<close>

definition zero_deadline_config :: Config where
  "zero_deadline_config =
     DefaultConfig\<lparr>cWebSocket := DefaultWebSocket\<lparr>cPongDeadline := ''0s''\<rparr>\<rparr>"

lemma parse_zero_seconds: "ParseDuration ''0s'' = Some 0"
  by (simp add: duration_eval)

text \<open>
  Validation does not bound the read deadline from below: a configuration with the deadline
  \<open>0s\<close> is accepted and gives the ping ticker the period zero, for which \<open>time.NewTicker\<close> panics.
\<close>
theorem zero_ping_period_accepted:
  "Validate zero_deadline_config = Inr () \<and> PingPeriod (ToWSBridgeConfig zero_deadline_config) = 0"
proof
  have "\<not> bad_duration ''0s''" by (simp add: bad_duration_def parse_zero_seconds)
  then have "valid_config zero_deadline_config"
    by (simp add: valid_config_def durations_def zero_deadline_config_def default_config_defs Let_def)
  then show "Validate zero_deadline_config = Inr ()" by (rule valid_config_Validate)
  have "parseDur ''0s'' = 0" by (simp add: parseDur_def parse_zero_seconds)
  then show "PingPeriod (ToWSBridgeConfig zero_deadline_config) = 0"
    by (simp add: ToWSBridgeConfig_def zero_deadline_config_def default_config_defs Let_def
        to_int64_def signed_divide_int_def)
qed

end
