(* ===== verification/ConfigFile.thy ===== *)
theory ConfigFile
  imports ServerConfig
begin

text \<open>
  Reading and writing config.json (\<open>LoadConfig\<close> and \<open>SaveConfig\<close> of config.go): the decoder
  and encoder that the field tags define, first launch, migration, key regeneration and
  validation, over a directory whose file operations may fail.
\<close>

section \<open>Decoding\<close>

definition opt_bool_field :: "(bool option \<Rightarrow> 'p \<Rightarrow> 'p) \<Rightarrow> 'p setter" where
  "opt_bool_field upd v p =
     (case v of JNull \<Rightarrow> Some (upd None p) | JBool b \<Rightarrow> Some (upd (Some b) p) | _ \<Rightarrow> None)"

text \<open>A byte slice is base64 text, or an array of numbers below 256.\<close>

definition bytes_field :: "(bytes option \<Rightarrow> 'p \<Rightarrow> 'p) \<Rightarrow> 'p setter" where
  "bytes_field upd v p =
     (case v of
        JNull \<Rightarrow> Some (upd None p)
      | JStr s \<Rightarrow> (case b64_decode s of Inl _ \<Rightarrow> None | Inr bs \<Rightarrow> Some (upd (Some bs) p))
      | JArr vs \<Rightarrow>
          map_option (\<lambda>ns. upd (Some (map word_of_nat ns)) p)
            (unmarshal_list (uint_field 8 (\<lambda>n _. n)) 0 vs)
      | _ \<Rightarrow> None)"

definition strings_field :: "(string list option \<Rightarrow> 'p \<Rightarrow> 'p) \<Rightarrow> 'p setter" where
  "strings_field upd v p =
     (case v of
        JNull \<Rightarrow> Some (upd None p)
      | JArr vs \<Rightarrow> map_option (\<lambda>xs. upd (Some xs) p) (unmarshal_list (string_field (\<lambda>s _. s)) [] vs)
      | _ \<Rightarrow> None)"

definition nested :: "(string \<times> 'a setter) list \<Rightarrow> ('p \<Rightarrow> 'a) \<Rightarrow> ('a \<Rightarrow> 'p \<Rightarrow> 'p) \<Rightarrow> 'p setter" where
  "nested fs get upd v p = map_option (\<lambda>x. upd x p) (struct_setter fs v (get p))"

definition ns_fields :: "(string \<times> 'a NamespaceConfig_scheme setter) list" where
  "ns_fields =
    [(''enabled'', opt_bool_field (\<lambda>b p. p\<lparr>cEnabled := b\<rparr>)),
     (''timeout'', string_field (\<lambda>s p. p\<lparr>cTimeout := s\<rparr>))]"

definition websocket_fields :: "(string \<times> WebSocketConfig setter) list" where
  "websocket_fields =
    [(''write_timeout'', string_field (\<lambda>s p. p\<lparr>cWriteTimeout := s\<rparr>)),
     (''pong_deadline'', string_field (\<lambda>s p. p\<lparr>cPongDeadline := s\<rparr>)),
     (''max_inflight'', int_field 64 (\<lambda>n p. p\<lparr>cMaxInflight := n\<rparr>)),
     (''max_message_size'', int_field 64 (\<lambda>n p. p\<lparr>cMaxMessageSize := n\<rparr>))]"

definition lite_fields :: "(string \<times> LiteConfig setter) list" where
  "lite_fields = ns_fields @
    [(''send_wait_timeout'', string_field (\<lambda>s p. p\<lparr>cSendWaitTimeout := s\<rparr>)),
     (''watch_timeout'', string_field (\<lambda>s p. p\<lparr>cWatchTimeout := s\<rparr>))]"

definition subscribe_fields :: "(string \<times> SubscribeConfig setter) list" where
  "subscribe_fields = ns_fields @
    [(''max_subscriptions'', int_field 64 (\<lambda>n p. p\<lparr>cMaxSubscriptions := n\<rparr>)),
     (''max_multi_accounts'', int_field 64 (\<lambda>n p. p\<lparr>cMaxMultiAccounts := n\<rparr>)),
     (''max_config_params'', int_field 64 (\<lambda>n p. p\<lparr>cMaxConfigParams := n\<rparr>))]"

definition adnl_fields :: "(string \<times> ADNLConfig setter) list" where
  "adnl_fields = ns_fields @
    [(''max_peers'', int_field 64 (\<lambda>n p. p\<lparr>cMaxPeers := n\<rparr>)),
     (''query_max_timeout'', string_field (\<lambda>s p. p\<lparr>cQueryMaxTimeout := s\<rparr>)),
     (''ssrf_protection'', bool_field (\<lambda>b p. p\<lparr>cSSRFProtection := b\<rparr>))]"

definition overlay_fields :: "(string \<times> OverlayConfig setter) list" where
  "overlay_fields = ns_fields @
    [(''max_overlays'', int_field 64 (\<lambda>n p. p\<lparr>cMaxOverlays := n\<rparr>)),
     (''query_max_timeout'', string_field (\<lambda>s p. p\<lparr>cov_QueryMaxTimeout := s\<rparr>))]"

definition dht_fields :: "(string \<times> DHTConfig setter) list" where
  "dht_fields = ns_fields @
    [(''tunnel_timeout'', string_field (\<lambda>s p. p\<lparr>cTunnelTimeout := s\<rparr>)),
     (''allow_write'', bool_field (\<lambda>b p. p\<lparr>cAllowWrite := b\<rparr>))]"

definition trace_fields :: "(string \<times> TraceConfig setter) list" where
  "trace_fields = ns_fields @
    [(''max_depth'', int_field 64 (\<lambda>n p. p\<lparr>cMaxDepth := n\<rparr>)),
     (''default_depth'', int_field 64 (\<lambda>n p. p\<lparr>cDefaultDepth := n\<rparr>)),
     (''max_msg_timeout'', string_field (\<lambda>s p. p\<lparr>cMaxMsgTimeout := s\<rparr>)),
     (''default_msg_timeout'', string_field (\<lambda>s p. p\<lparr>cDefaultMsgTimeout := s\<rparr>)),
     (''max_resolvers'', int_field 64 (\<lambda>n p. p\<lparr>cMaxResolvers := n\<rparr>))]"

definition namespaces_fields :: "(string \<times> NamespacesConfig setter) list" where
  "namespaces_fields =
    [(''lite'', nested lite_fields cLite (\<lambda>x p. p\<lparr>cLite := x\<rparr>)),
     (''subscribe'', nested subscribe_fields cSubscribe (\<lambda>x p. p\<lparr>cSubscribe := x\<rparr>)),
     (''adnl'', nested adnl_fields cADNL (\<lambda>x p. p\<lparr>cADNL := x\<rparr>)),
     (''overlay'', nested overlay_fields cOverlay (\<lambda>x p. p\<lparr>cOverlay := x\<rparr>)),
     (''dht'', nested dht_fields cDHT (\<lambda>x p. p\<lparr>cDHT := x\<rparr>)),
     (''subscribe_trace'', nested trace_fields cSubscribeTrace (\<lambda>x p. p\<lparr>cSubscribeTrace := x\<rparr>)),
     (''jetton'', nested ns_fields cJetton (\<lambda>x p. p\<lparr>cJetton := x\<rparr>)),
     (''nft'', nested ns_fields cNFT (\<lambda>x p. p\<lparr>cNFT := x\<rparr>)),
     (''dns'', nested ns_fields cDNS (\<lambda>x p. p\<lparr>cDNS := x\<rparr>)),
     (''wallet'', nested ns_fields cWallet (\<lambda>x p. p\<lparr>cWallet := x\<rparr>)),
     (''sbt'', nested ns_fields cSBT (\<lambda>x p. p\<lparr>cSBT := x\<rparr>)),
     (''payment'', nested ns_fields cPayment (\<lambda>x p. p\<lparr>cPayment := x\<rparr>)),
     (''network'', nested ns_fields cNetwork (\<lambda>x p. p\<lparr>cNetwork := x\<rparr>))]"

definition config_fields :: "(string \<times> Config setter) list" where
  "config_fields =
    [(''version'', int_field 64 (\<lambda>n p. p\<lparr>cVersion := n\<rparr>)),
     (''adnl_key'', bytes_field (\<lambda>b p. p\<lparr>cADNLKey := b\<rparr>)),
     (''listen'', string_field (\<lambda>s p. p\<lparr>cListen := s\<rparr>)),
     (''verbosity'', int_field 64 (\<lambda>n p. p\<lparr>cVerbosity := n\<rparr>)),
     (''tunnel_sections'', int_field 64 (\<lambda>n p. p\<lparr>cTunnelSections := n\<rparr>)),
     (''ton_config'', string_field (\<lambda>s p. p\<lparr>cTonConfig := s\<rparr>)),
     (''max_clients'', int_field 64 (\<lambda>n p. p\<lparr>cMaxClients := n\<rparr>)),
     (''allowed_origins'', strings_field (\<lambda>xs p. p\<lparr>cAllowedOrigins := xs\<rparr>)),
     (''api_key'', string_field (\<lambda>s p. p\<lparr>cAPIKey := s\<rparr>)),
     (''websocket'', nested websocket_fields cWebSocket (\<lambda>x p. p\<lparr>cWebSocket := x\<rparr>)),
     (''namespaces'', nested namespaces_fields cNamespaces (\<lambda>x p. p\<lparr>cNamespaces := x\<rparr>))]"

definition zero_ns :: NamespaceConfig where
  "zero_ns = \<lparr>cEnabled = None, cTimeout = []\<rparr>"

definition zero_websocket :: WebSocketConfig where
  "zero_websocket = \<lparr>cWriteTimeout = [], cPongDeadline = [], cMaxInflight = 0, cMaxMessageSize = 0\<rparr>"

definition zero_namespaces :: NamespacesConfig where
  "zero_namespaces =
    \<lparr>cLite = \<lparr>cEnabled = None, cTimeout = [], cSendWaitTimeout = [], cWatchTimeout = []\<rparr>,
     cSubscribe = \<lparr>cEnabled = None, cTimeout = [],
        cMaxSubscriptions = 0, cMaxMultiAccounts = 0, cMaxConfigParams = 0\<rparr>,
     cADNL = \<lparr>cEnabled = None, cTimeout = [],
        cMaxPeers = 0, cQueryMaxTimeout = [], cSSRFProtection = False\<rparr>,
     cOverlay = \<lparr>cEnabled = None, cTimeout = [], cMaxOverlays = 0, cov_QueryMaxTimeout = []\<rparr>,
     cDHT = \<lparr>cEnabled = None, cTimeout = [], cTunnelTimeout = [], cAllowWrite = False\<rparr>,
     cSubscribeTrace = \<lparr>cEnabled = None, cTimeout = [], cMaxDepth = 0, cDefaultDepth = 0,
        cMaxMsgTimeout = [], cDefaultMsgTimeout = [], cMaxResolvers = 0\<rparr>,
     cJetton = zero_ns, cNFT = zero_ns, cDNS = zero_ns, cWallet = zero_ns, cSBT = zero_ns,
     cPayment = zero_ns, cNetwork = zero_ns\<rparr>"

definition zero_config :: Config where
  "zero_config =
    \<lparr>cVersion = 0, cADNLKey = None, cListen = [], cVerbosity = 0, cTunnelSections = 0,
     cTonConfig = [], cMaxClients = 0, cAllowedOrigins = None, cAPIKey = [],
     cWebSocket = zero_websocket, cNamespaces = zero_namespaces\<rparr>"

definition unmarshal_config :: "json option \<Rightarrow> Config result" where
  "unmarshal_config j = unmarshal config_fields j zero_config"

section \<open>Encoding\<close>

definition omit_str :: "string \<Rightarrow> string \<Rightarrow> (string \<times> json) list" where
  "omit_str k s = (if s = [] then [] else [(k, JStr s)])"

definition ns_entries :: "'a NamespaceConfig_scheme \<Rightarrow> (string \<times> json) list" where
  "ns_entries n =
     (case cEnabled n of None \<Rightarrow> [] | Some b \<Rightarrow> [(''enabled'', JBool b)]) @
     omit_str ''timeout'' (cTimeout n)"

definition websocket_json :: "WebSocketConfig \<Rightarrow> json" where
  "websocket_json w = JObj
    [(''write_timeout'', JStr (cWriteTimeout w)), (''pong_deadline'', JStr (cPongDeadline w)),
     (''max_inflight'', jint (cMaxInflight w)), (''max_message_size'', jint (cMaxMessageSize w))]"

definition lite_json :: "LiteConfig \<Rightarrow> json" where
  "lite_json x = JObj (ns_entries x @
     omit_str ''send_wait_timeout'' (cSendWaitTimeout x) @ omit_str ''watch_timeout'' (cWatchTimeout x))"

definition subscribe_json :: "SubscribeConfig \<Rightarrow> json" where
  "subscribe_json x = JObj (ns_entries x @
    [(''max_subscriptions'', jint (cMaxSubscriptions x)),
     (''max_multi_accounts'', jint (cMaxMultiAccounts x)),
     (''max_config_params'', jint (cMaxConfigParams x))])"

definition adnl_json :: "ADNLConfig \<Rightarrow> json" where
  "adnl_json x = JObj (ns_entries x @ [(''max_peers'', jint (cMaxPeers x))] @
     omit_str ''query_max_timeout'' (cQueryMaxTimeout x) @
     [(''ssrf_protection'', JBool (cSSRFProtection x))])"

definition overlay_json :: "OverlayConfig \<Rightarrow> json" where
  "overlay_json x = JObj (ns_entries x @ [(''max_overlays'', jint (cMaxOverlays x))] @
     omit_str ''query_max_timeout'' (cov_QueryMaxTimeout x))"

definition dht_json :: "DHTConfig \<Rightarrow> json" where
  "dht_json x = JObj (ns_entries x @ omit_str ''tunnel_timeout'' (cTunnelTimeout x) @
     [(''allow_write'', JBool (cAllowWrite x))])"

definition trace_json :: "TraceConfig \<Rightarrow> json" where
  "trace_json x = JObj (ns_entries x @
     [(''max_depth'', jint (cMaxDepth x)), (''default_depth'', jint (cDefaultDepth x))] @
     omit_str ''max_msg_timeout'' (cMaxMsgTimeout x) @
     omit_str ''default_msg_timeout'' (cDefaultMsgTimeout x) @
     [(''max_resolvers'', jint (cMaxResolvers x))])"

definition namespaces_json :: "NamespacesConfig \<Rightarrow> json" where
  "namespaces_json n = JObj
    [(''lite'', lite_json (cLite n)), (''subscribe'', subscribe_json (cSubscribe n)),
     (''adnl'', adnl_json (cADNL n)), (''overlay'', overlay_json (cOverlay n)),
     (''dht'', dht_json (cDHT n)), (''subscribe_trace'', trace_json (cSubscribeTrace n)),
     (''jetton'', JObj (ns_entries (cJetton n))), (''nft'', JObj (ns_entries (cNFT n))),
     (''dns'', JObj (ns_entries (cDNS n))), (''wallet'', JObj (ns_entries (cWallet n))),
     (''sbt'', JObj (ns_entries (cSBT n))), (''payment'', JObj (ns_entries (cPayment n))),
     (''network'', JObj (ns_entries (cNetwork n)))]"

definition opt_json :: "('a \<Rightarrow> json) \<Rightarrow> 'a option \<Rightarrow> json" where
  "opt_json f x = (case x of None \<Rightarrow> JNull | Some y \<Rightarrow> f y)"

definition config_json :: "Config \<Rightarrow> json" where
  "config_json c = JObj (
    [(''version'', jint (cVersion c)),
     (''adnl_key'', opt_json (\<lambda>bs. JStr (b64_encode bs)) (cADNLKey c)),
     (''listen'', JStr (cListen c)), (''verbosity'', jint (cVerbosity c)),
     (''tunnel_sections'', jint (cTunnelSections c))] @
    omit_str ''ton_config'' (cTonConfig c) @
    [(''max_clients'', jint (cMaxClients c)),
     (''allowed_origins'', opt_json (\<lambda>xs. JArr (map JStr xs)) (cAllowedOrigins c))] @
    omit_str ''api_key'' (cAPIKey c) @
    [(''websocket'', websocket_json (cWebSocket c)),
     (''namespaces'', namespaces_json (cNamespaces c))])"

section \<open>Loading and saving\<close>

text \<open>
  The directory: the file is absent, or holds a document. The outcome of every system call is
  a field of the environment; a failing write may leave any text behind.
\<close>

type_synonym disk = "json option option"

record sys =
  stat_err :: "goerr option"
  read_err :: "goerr option"
  mkdir_err :: "goerr option"
  write_err :: "(goerr \<times> disk) option"
  new_seed :: "bytes result"

definition SaveConfig :: "sys \<Rightarrow> Config \<Rightarrow> disk \<Rightarrow> goerr option \<times> disk" where
  "SaveConfig s cfg d =
     (case mkdir_err s of
        Some e \<Rightarrow> (Some e, d)
      | None \<Rightarrow>
          (case write_err s of
             Some (e, d') \<Rightarrow> (Some e, d')
           | None \<Rightarrow> (None, Some (Some (config_json cfg)))))"

definition first_launch :: "sys \<Rightarrow> disk \<Rightarrow> Config result \<times> disk" where
  "first_launch s d =
     (case new_seed s of
        Inl e \<Rightarrow> (Inl e, d)
      | Inr seed \<Rightarrow>
          (let cfg = DefaultConfig\<lparr>cADNLKey := Some seed\<rparr> in
           case SaveConfig s cfg d of
             (Some e, d') \<Rightarrow> (Inl e, d')
           | (None, d') \<Rightarrow> (Inr cfg, d')))"

text \<open>Migration, defaults and key regeneration; the flag says whether to write the file back.\<close>

definition upgrade :: "sys \<Rightarrow> Config \<Rightarrow> (Config \<times> bool) result" where
  "upgrade s cfg0 =
     (let migrated = cVersion cfg0 < 2;
          cfg = applyDefaults (if migrated then migrateV1 cfg0 else cfg0)
      in case cADNLKey cfg of
           Some k \<Rightarrow>
             (if length k = 32 then Inr (cfg, migrated)
              else (case new_seed s of
                      Inl e \<Rightarrow> Inl e
                    | Inr seed \<Rightarrow> Inr (cfg\<lparr>cADNLKey := Some seed\<rparr>, True)))
         | None \<Rightarrow>
             (case new_seed s of
                Inl e \<Rightarrow> Inl e
              | Inr seed \<Rightarrow> Inr (cfg\<lparr>cADNLKey := Some seed\<rparr>, True)))"

definition LoadConfig :: "sys \<Rightarrow> disk \<Rightarrow> Config result \<times> disk" where
  "LoadConfig s d =
     (case stat_err s of
        Some e \<Rightarrow> (Inl e, d)
      | None \<Rightarrow>
         (case d of
            None \<Rightarrow> first_launch s d
          | Some content \<Rightarrow>
             (case read_err s of
                Some e \<Rightarrow> (Inl e, d)
              | None \<Rightarrow>
                 (case unmarshal_config content of
                    Inl e \<Rightarrow> (Inl e, d)
                  | Inr cfg0 \<Rightarrow>
                     (case upgrade s cfg0 of
                        Inl e \<Rightarrow> (Inl e, d)
                      | Inr (cfg, migrated) \<Rightarrow>
                         (case Validate cfg of
                            Inl e \<Rightarrow> (Inl e, d)
                          | Inr _ \<Rightarrow>
                             (Inr cfg, if migrated then snd (SaveConfig s cfg d) else d)))))))"

section \<open>Reading back what was written\<close>

lemma fold_char_lower:
  "fold_char CHR ''a'' = CHR ''a''" "fold_char CHR ''b'' = CHR ''b''"
  "fold_char CHR ''c'' = CHR ''c''" "fold_char CHR ''d'' = CHR ''d''"
  "fold_char CHR ''e'' = CHR ''e''" "fold_char CHR ''f'' = CHR ''f''"
  "fold_char CHR ''g'' = CHR ''g''" "fold_char CHR ''h'' = CHR ''h''"
  "fold_char CHR ''i'' = CHR ''i''" "fold_char CHR ''j'' = CHR ''j''"
  "fold_char CHR ''k'' = CHR ''k''" "fold_char CHR ''l'' = CHR ''l''"
  "fold_char CHR ''m'' = CHR ''m''" "fold_char CHR ''n'' = CHR ''n''"
  "fold_char CHR ''o'' = CHR ''o''" "fold_char CHR ''p'' = CHR ''p''"
  "fold_char CHR ''q'' = CHR ''q''" "fold_char CHR ''r'' = CHR ''r''"
  "fold_char CHR ''s'' = CHR ''s''" "fold_char CHR ''t'' = CHR ''t''"
  "fold_char CHR ''u'' = CHR ''u''" "fold_char CHR ''v'' = CHR ''v''"
  "fold_char CHR ''w'' = CHR ''w''" "fold_char CHR ''x'' = CHR ''x''"
  "fold_char CHR ''y'' = CHR ''y''" "fold_char CHR ''z'' = CHR ''z''"
  "fold_char CHR ''_'' = CHR ''_''"
  by (simp_all add: fold_char_def char_code_def)

lemmas lookup_field = key_matches_def fold_char_lower

lemma parse_int_lit_show:
  assumes "- (2 ^ 63) \<le> n" and "n < 2 ^ 63"
  shows "parse_int_lit 64 (show_int n) = Some n"
proof (cases "n < 0")
  case True
  with assms have "nat (- n) < 2 ^ 64" "nat (- n) \<le> 2 ^ 63" by (simp_all add: nat_less_iff nat_le_iff)
  with True show ?thesis
    by (simp add: parse_int_lit_def show_int_def parse_show_nat)
next
  case False
  with assms have "nat n < 2 ^ 64" "nat n < 2 ^ 63" by (simp_all add: nat_less_iff)
  moreover have "hd (show_nat (nat n)) \<noteq> CHR ''-''" by (rule show_nat_no_minus)
  ultimately show ?thesis
    using False by (simp add: parse_int_lit_def show_int_def parse_show_nat)
qed

definition int64_range :: "int \<Rightarrow> bool" where
  "int64_range n \<longleftrightarrow> - (2 ^ 63) \<le> n \<and> n < 2 ^ 63"

lemma int_field_jint: "int64_range n \<Longrightarrow> int_field 64 upd (jint n) p = Some (upd n p)"
  by (simp add: int64_range_def int_field_def jint_def parse_int_lit_show)

lemma unmarshal_entries_append:
  "unmarshal_entries fs (xs @ ys) p =
     (case unmarshal_entries fs xs p of None \<Rightarrow> None | Some q \<Rightarrow> unmarshal_entries fs ys q)"
  by (induction xs arbitrary: p) (auto split: option.splits)

lemma unmarshal_strings: "unmarshal_list (string_field (\<lambda>s _. s)) [] (map JStr xs) = Some xs"
  by (induction xs) (simp_all add: string_field_def)

lemmas decode_defs =
  struct_setter_def string_field_def bool_field_def opt_bool_field_def omit_str_def
  ns_fields_def ns_entries_def unmarshal_entries_append int_field_jint lookup_field

lemma websocket_roundtrip:
  assumes "int64_range (cMaxInflight w)" "int64_range (cMaxMessageSize w)"
  shows "struct_setter websocket_fields (websocket_json w) zero_websocket = Some w"
  using assms by (simp add: websocket_fields_def websocket_json_def zero_websocket_def decode_defs)

lemma ns_roundtrip: "struct_setter ns_fields (JObj (ns_entries n)) zero_ns = Some (n :: NamespaceConfig)"
  by (cases "cEnabled n") (simp_all add: zero_ns_def decode_defs)

lemma lite_roundtrip: "struct_setter lite_fields (lite_json x) (cLite zero_namespaces) = Some x"
  by (cases "cEnabled x") (simp_all add: lite_fields_def lite_json_def zero_namespaces_def decode_defs)

lemma subscribe_roundtrip:
  assumes "int64_range (cMaxSubscriptions x)" "int64_range (cMaxMultiAccounts x)"
    "int64_range (cMaxConfigParams x)"
  shows "struct_setter subscribe_fields (subscribe_json x) (cSubscribe zero_namespaces) = Some x"
  using assms
  by (cases "cEnabled x") (simp_all add: subscribe_fields_def subscribe_json_def zero_namespaces_def decode_defs)

lemma adnl_roundtrip:
  assumes "int64_range (cMaxPeers x)"
  shows "struct_setter adnl_fields (adnl_json x) (cADNL zero_namespaces) = Some x"
  using assms
  by (cases "cEnabled x") (simp_all add: adnl_fields_def adnl_json_def zero_namespaces_def decode_defs)

lemma overlay_roundtrip:
  assumes "int64_range (cMaxOverlays x)"
  shows "struct_setter overlay_fields (overlay_json x) (cOverlay zero_namespaces) = Some x"
  using assms
  by (cases "cEnabled x") (simp_all add: overlay_fields_def overlay_json_def zero_namespaces_def decode_defs)

lemma dht_roundtrip: "struct_setter dht_fields (dht_json x) (cDHT zero_namespaces) = Some x"
  by (cases "cEnabled x") (simp_all add: dht_fields_def dht_json_def zero_namespaces_def decode_defs)

lemma trace_roundtrip:
  assumes "int64_range (cMaxDepth x)" "int64_range (cDefaultDepth x)" "int64_range (cMaxResolvers x)"
  shows "struct_setter trace_fields (trace_json x) (cSubscribeTrace zero_namespaces) = Some x"
  using assms
  by (cases "cEnabled x") (simp_all add: trace_fields_def trace_json_def zero_namespaces_def decode_defs)

text \<open>Every integer of the configuration is an \<open>int64\<close>, as the Go types ensure.\<close>

definition namespaces_int64 :: "NamespacesConfig \<Rightarrow> bool" where
  "namespaces_int64 n \<longleftrightarrow>
     list_all int64_range
       [cMaxSubscriptions (cSubscribe n), cMaxMultiAccounts (cSubscribe n),
        cMaxConfigParams (cSubscribe n), cMaxPeers (cADNL n), cMaxOverlays (cOverlay n),
        cMaxDepth (cSubscribeTrace n), cDefaultDepth (cSubscribeTrace n),
        cMaxResolvers (cSubscribeTrace n)]"

definition config_int64 :: "Config \<Rightarrow> bool" where
  "config_int64 c \<longleftrightarrow>
     list_all int64_range
       [cVersion c, cVerbosity c, cTunnelSections c, cMaxClients c,
        cMaxInflight (cWebSocket c), cMaxMessageSize (cWebSocket c)] \<and>
     namespaces_int64 (cNamespaces c)"

lemma zero_namespaces_ns [simp]:
  "cJetton zero_namespaces = zero_ns" "cNFT zero_namespaces = zero_ns" "cDNS zero_namespaces = zero_ns"
  "cWallet zero_namespaces = zero_ns" "cSBT zero_namespaces = zero_ns"
  "cPayment zero_namespaces = zero_ns" "cNetwork zero_namespaces = zero_ns"
  by (simp_all add: zero_namespaces_def)

lemma namespaces_roundtrip:
  assumes "namespaces_int64 n"
  shows "struct_setter namespaces_fields (namespaces_json n) zero_namespaces = Some n"
  using assms unfolding struct_setter_def [of namespaces_fields]
  by (simp add: namespaces_int64_def namespaces_fields_def namespaces_json_def
      nested_def lookup_field lite_roundtrip subscribe_roundtrip adnl_roundtrip overlay_roundtrip
      dht_roundtrip trace_roundtrip ns_roundtrip)

lemma config_roundtrip:
  assumes "config_int64 c"
  shows "unmarshal_config (Some (config_json c)) = Inr c"
  using assms
  by (cases "cADNLKey c"; cases "cAllowedOrigins c")
    (simp_all add: config_int64_def unmarshal_config_def unmarshal_def config_json_def config_fields_def
      zero_config_def omit_str_def opt_json_def nested_def lookup_field string_field_def bytes_field_def
      strings_field_def unmarshal_strings b64_decode_encode int_field_jint unmarshal_entries_append
      websocket_roundtrip namespaces_roundtrip)

section \<open>Decoded integers fit their type\<close>

text \<open>A setter keeps a predicate of its struct; so does decoding an object with such setters.\<close>

definition keeps :: "('p \<Rightarrow> bool) \<Rightarrow> 'p setter \<Rightarrow> bool" where
  "keeps P st \<longleftrightarrow> (\<forall>v p q. P p \<longrightarrow> st v p = Some q \<longrightarrow> P q)"

lemma find_field_keeps:
  "list_all (\<lambda>(_, st). keeps P st) fs \<Longrightarrow> find_field fs k = Some st \<Longrightarrow> keeps P st"
  by (induction fs) (auto split: if_splits)

lemma unmarshal_entries_keeps:
  "list_all (\<lambda>(_, st). keeps P st) fs \<Longrightarrow> P p \<Longrightarrow> unmarshal_entries fs es p = Some q \<Longrightarrow> P q"
proof (induction es arbitrary: p)
  case (Cons e es)
  obtain k v where e: "e = (k, v)" by (cases e)
  show ?case
  proof (cases "find_field fs k")
    case None
    with Cons e show ?thesis by simp
  next
    case (Some st)
    with Cons.prems e obtain p' where "st v p = Some p'" "unmarshal_entries fs es p' = Some q"
      by (auto split: option.splits)
    with Cons.IH Cons.prems find_field_keeps [OF Cons.prems(1) Some] show ?thesis
      unfolding keeps_def by blast
  qed
qed simp

lemma keeps_string: "(\<And>s p. P p \<Longrightarrow> P (upd s p)) \<Longrightarrow> keeps P (string_field upd)"
  by (auto simp: keeps_def string_field_def split: json.splits)

lemma keeps_bool: "(\<And>s p. P p \<Longrightarrow> P (upd s p)) \<Longrightarrow> keeps P (bool_field upd)"
  by (auto simp: keeps_def bool_field_def split: json.splits)

lemma keeps_opt_bool: "(\<And>s p. P p \<Longrightarrow> P (upd s p)) \<Longrightarrow> keeps P (opt_bool_field upd)"
  by (auto simp: keeps_def opt_bool_field_def split: json.splits)

lemma keeps_bytes: "(\<And>s p. P p \<Longrightarrow> P (upd s p)) \<Longrightarrow> keeps P (bytes_field upd)"
  by (auto simp: keeps_def bytes_field_def split: json.splits sum.splits)

lemma keeps_strings: "(\<And>s p. P p \<Longrightarrow> P (upd s p)) \<Longrightarrow> keeps P (strings_field upd)"
  by (auto simp: keeps_def strings_field_def split: json.splits)

lemma parse_int_lit_range: "parse_int_lit 64 s = Some n \<Longrightarrow> int64_range n"
  by (auto simp: parse_int_lit_def int64_range_def Let_def split: sum.splits if_splits)

lemma keeps_int: "(\<And>n p. P p \<Longrightarrow> int64_range n \<Longrightarrow> P (upd n p)) \<Longrightarrow> keeps P (int_field 64 upd)"
  by (auto simp: keeps_def int_field_def dest: parse_int_lit_range split: json.splits)

lemma keeps_nested:
  assumes "list_all (\<lambda>(_, st). keeps Q st) fs" and "\<And>p. P p \<Longrightarrow> Q (get p)"
    and "\<And>x p. P p \<Longrightarrow> Q x \<Longrightarrow> P (upd x p)"
  shows "keeps P (nested fs get upd)"
  unfolding keeps_def nested_def struct_setter_def
  using assms(2,3) unmarshal_entries_keeps [OF assms(1)]
  by (fastforce split: json.splits)

lemmas keeps_intros =
  keeps_string keeps_bool keeps_opt_bool keeps_bytes keeps_strings keeps_int keeps_nested

definition sub_int64 :: "SubscribeConfig \<Rightarrow> bool" where
  "sub_int64 x \<longleftrightarrow> list_all int64_range [cMaxSubscriptions x, cMaxMultiAccounts x, cMaxConfigParams x]"

definition trace_int64 :: "TraceConfig \<Rightarrow> bool" where
  "trace_int64 x \<longleftrightarrow> list_all int64_range [cMaxDepth x, cDefaultDepth x, cMaxResolvers x]"

definition ws_int64 :: "WebSocketConfig \<Rightarrow> bool" where
  "ws_int64 x \<longleftrightarrow> list_all int64_range [cMaxInflight x, cMaxMessageSize x]"

lemma namespaces_int64_parts:
  "namespaces_int64 n \<longleftrightarrow> sub_int64 (cSubscribe n) \<and> int64_range (cMaxPeers (cADNL n))
     \<and> int64_range (cMaxOverlays (cOverlay n)) \<and> trace_int64 (cSubscribeTrace n)"
  by (auto simp: namespaces_int64_def sub_int64_def trace_int64_def)

lemma ns_fields_keep:
  "(\<And>b p. P p \<Longrightarrow> P (p\<lparr>cEnabled := b\<rparr>)) \<Longrightarrow> (\<And>s p. P p \<Longrightarrow> P (p\<lparr>cTimeout := s\<rparr>)) \<Longrightarrow>
   list_all (\<lambda>(_, st). keeps P st) ns_fields"
  by (auto simp: ns_fields_def intro!: keeps_intros)

lemma sub_fields_keep: "list_all (\<lambda>(_, st). keeps sub_int64 st) subscribe_fields"
  by (auto simp: subscribe_fields_def sub_int64_def intro!: keeps_intros ns_fields_keep)

lemma trace_fields_keep: "list_all (\<lambda>(_, st). keeps trace_int64 st) trace_fields"
  by (auto simp: trace_fields_def trace_int64_def intro!: keeps_intros ns_fields_keep)

lemma ws_fields_keep: "list_all (\<lambda>(_, st). keeps ws_int64 st) websocket_fields"
  by (auto simp: websocket_fields_def ws_int64_def intro!: keeps_intros)

lemma adnl_fields_keep: "list_all (\<lambda>(_, st). keeps (\<lambda>x. int64_range (cMaxPeers x)) st) adnl_fields"
  by (auto simp: adnl_fields_def intro!: keeps_intros ns_fields_keep)

lemma overlay_fields_keep:
  "list_all (\<lambda>(_, st). keeps (\<lambda>x. int64_range (cMaxOverlays x)) st) overlay_fields"
  by (auto simp: overlay_fields_def intro!: keeps_intros ns_fields_keep)

lemma true_keep: "keeps (\<lambda>_. True) st"
  by (simp add: keeps_def)

lemma true_keeps: "list_all (\<lambda>(_, st). keeps (\<lambda>_. True) st) fs"
  by (auto simp: list_all_iff true_keep)

lemma namespaces_fields_keep: "list_all (\<lambda>(_, st). keeps namespaces_int64 st) namespaces_fields"
  unfolding namespaces_fields_def
  by (auto simp: namespaces_int64_parts
      intro!: keeps_nested [OF true_keeps] keeps_nested [OF sub_fields_keep] keeps_nested [OF trace_fields_keep]
        keeps_nested [OF adnl_fields_keep] keeps_nested [OF overlay_fields_keep])

lemma config_int64_parts:
  "config_int64 c \<longleftrightarrow> list_all int64_range [cVersion c, cVerbosity c, cTunnelSections c, cMaxClients c]
     \<and> ws_int64 (cWebSocket c) \<and> namespaces_int64 (cNamespaces c)"
  by (auto simp: config_int64_def ws_int64_def)

lemma config_fields_keep: "list_all (\<lambda>(_, st). keeps config_int64 st) config_fields"
  unfolding config_fields_def
  by (auto simp: config_int64_parts
      intro!: keeps_string keeps_bytes keeps_strings keeps_int
        keeps_nested [OF ws_fields_keep] keeps_nested [OF namespaces_fields_keep])

lemma zero_config_int64: "config_int64 zero_config"
  by (simp add: config_int64_def namespaces_int64_def zero_config_def zero_websocket_def
      zero_namespaces_def int64_range_def)

lemma unmarshal_config_int64: "unmarshal_config j = Inr c \<Longrightarrow> config_int64 c"
  using unmarshal_entries_keeps [OF config_fields_keep zero_config_int64] zero_config_int64
  by (auto simp: unmarshal_config_def unmarshal_def split: option.splits json.splits)

section \<open>What a load guarantees\<close>

lemma int_default_int64: "int64_range n \<Longrightarrow> int64_range d \<Longrightarrow> int64_range (int_default n d)"
  by (simp add: int_default_def)

lemma DefaultConfig_int64: "config_int64 (DefaultConfig\<lparr>cADNLKey := k\<rparr>)"
  by (simp add: config_int64_def namespaces_int64_def default_config_defs int64_range_def)

lemma applyDefaults_int64: "config_int64 c \<Longrightarrow> config_int64 (applyDefaults c)"
  using DefaultConfig_int64 [of None]
  by (auto simp: config_int64_def namespaces_int64_def applyDefaults_def applyDefaults_ws_def
      applyDefaults_ns_def nsDefault_def Let_def default_config_defs intro!: int_default_int64)

lemma migrateV1_int64: "config_int64 c \<Longrightarrow> config_int64 (migrateV1 c)"
  using DefaultConfig_int64 [of None]
  by (simp add: config_int64_def namespaces_int64_def migrateV1_def default_config_defs int64_range_def)

text \<open>What \<open>upgrade\<close> leaves alone: a second run of it on its own result changes nothing.\<close>

definition settled :: "Config \<Rightarrow> bool" where
  "settled c \<longleftrightarrow> 2 \<le> cVersion c \<and> applyDefaults c = c \<and> (\<exists>k. cADNLKey c = Some k \<and> length k = 32)"

lemma applyDefaults_key: "(applyDefaults c)\<lparr>cADNLKey := k\<rparr> = applyDefaults (c\<lparr>cADNLKey := k\<rparr>)"
  by (simp add: applyDefaults_def split: option.splits)

lemma applyDefaults_version [simp]: "cVersion (applyDefaults c) = cVersion c"
  by (simp add: applyDefaults_def)

lemma applyDefaults_adnl_key [simp]: "cADNLKey (applyDefaults c) = cADNLKey c"
  by (simp add: applyDefaults_def)

lemma migrateV1_version [simp]: "cVersion (migrateV1 c) = 2"
  by (simp add: migrateV1_def)

lemma upgrade_settled_id:
  assumes "settled c"
  shows "upgrade s c = Inr (c, False)"
proof -
  from assms obtain k where "cADNLKey c = Some k" "length k = 32" "2 \<le> cVersion c" "applyDefaults c = c"
    by (auto simp: settled_def)
  then show ?thesis by (simp add: upgrade_def Let_def)
qed

lemma upgrade_result:
  assumes "upgrade s c = Inr (cfg, m)" and seed: "\<And>x. new_seed s = Inr x \<Longrightarrow> length x = 32"
  shows "settled cfg \<and> (config_int64 c \<longrightarrow> config_int64 cfg) \<and> (\<not> m \<longrightarrow> \<not> cVersion c < 2 \<and> cfg = applyDefaults c)"
proof -
  define c' where "c' = (if cVersion c < 2 then migrateV1 c else c)"
  have v: "2 \<le> cVersion c'" by (simp add: c'_def)
  have i: "config_int64 c \<longrightarrow> config_int64 (applyDefaults c')"
    by (simp add: c'_def applyDefaults_int64 migrateV1_int64)
  have ik: "config_int64 (x\<lparr>cADNLKey := k\<rparr>) = config_int64 x" for x k
    by (simp add: config_int64_def)
  from assms(1) consider
      (kept) k where "cADNLKey c' = Some k" "length k = 32" "cfg = applyDefaults c'" "m = (cVersion c < 2)"
    | (fresh) x where "new_seed s = Inr x" "cfg = (applyDefaults c')\<lparr>cADNLKey := Some x\<rparr>" "m"
    unfolding upgrade_def c'_def [symmetric] Let_def
    by (auto simp: c'_def split: option.splits sum.splits if_splits)
  then show ?thesis
  proof cases
    case kept
    with v i show ?thesis by (auto simp: settled_def applyDefaults_idem c'_def split: if_splits)
  next
    case fresh
    with v i seed show ?thesis
      by (auto simp: settled_def applyDefaults_key applyDefaults_idem ik simp flip: applyDefaults_key)
  qed
qed

lemma first_launch_result:
  assumes "first_launch s d = (Inr cfg, d')" and "\<And>x. new_seed s = Inr x \<Longrightarrow> length x = 32"
  shows "settled cfg \<and> config_int64 cfg \<and> valid_config cfg \<and> d' = Some (Some (config_json cfg))"
proof -
  from assms(1) obtain seed where seed: "new_seed s = Inr seed"
    and cfg: "cfg = DefaultConfig\<lparr>cADNLKey := Some seed\<rparr>" and d': "d' = Some (Some (config_json cfg))"
    by (auto simp: first_launch_def SaveConfig_def Let_def split: sum.splits option.splits prod.splits)
  have "settled cfg"
    using assms(2) [OF seed] applyDefaults_DefaultConfig [of "Some seed"]
    by (simp add: settled_def cfg) (simp add: DefaultConfig_def)
  then show ?thesis
    using d' DefaultConfig_int64 DefaultConfig_valid by (simp add: cfg)
qed

text \<open>A successful load of an existing file, in one step.\<close>

lemma LoadConfig_file:
  assumes "LoadConfig s (Some content) = (Inr cfg, d')"
  obtains c m where "unmarshal_config content = Inr c" "upgrade s c = Inr (cfg, m)" "valid_config cfg"
    "d' = (if m then snd (SaveConfig s cfg (Some content)) else Some content)"
proof -
  from assms obtain c m where "unmarshal_config content = Inr c" "upgrade s c = Inr (cfg, m)"
    "Validate cfg = Inr ()" "d' = (if m then snd (SaveConfig s cfg (Some content)) else Some content)"
    by (auto simp: LoadConfig_def split: option.splits sum.splits prod.splits)
  then show thesis using Validate_valid_config that by blast
qed

lemma LoadConfig_new:
  "LoadConfig s None = (Inr cfg, d') \<Longrightarrow> first_launch s None = (Inr cfg, d')"
  by (simp add: LoadConfig_def split: option.splits)

text \<open>
  C38: the process never starts on a configuration that does not validate: whatever the file
  holds, a successful load gives one that meets every validation rule, has version two or more,
  has its defaults filled in and has an ADNL key of 32 bytes.
\<close>
theorem LoadConfig_validated:
  assumes "LoadConfig s d = (Inr cfg, d')" and "\<forall>x. new_seed s = Inr x \<longrightarrow> length x = 32"
  shows "valid_config cfg \<and> settled cfg"
proof (cases d)
  case None
  with assms LoadConfig_new first_launch_result show ?thesis by metis
next
  case (Some content)
  with assms obtain c m where "upgrade s c = Inr (cfg, m)" "valid_config cfg"
    by (auto elim: LoadConfig_file)
  with assms(2) upgrade_result show ?thesis by metis
qed

text \<open>
  C39: a load is stable: once the writes it makes succeed, loading again gives the same
  configuration, under any later environment, and leaves the file as it is. So the ADNL key of
  a first launch or a migration is the one that every later start uses.
\<close>
theorem LoadConfig_stable:
  assumes load: "LoadConfig s d = (Inr cfg, d')" and seed: "\<forall>x. new_seed s = Inr x \<longrightarrow> length x = 32"
    and "mkdir_err s = None" "write_err s = None" and env: "stat_err s' = None" "read_err s' = None"
  shows "LoadConfig s' d' = (Inr cfg, d')"
proof -
  have reload: "LoadConfig s' (Some j) = (Inr cfg, Some j)"
    if "unmarshal_config j = Inr c" "upgrade s' c = Inr (cfg, False)" "valid_config cfg" for j c
    using that env by (simp add: LoadConfig_def valid_config_Validate)
  have saved: "LoadConfig s' (Some (Some (config_json cfg))) = (Inr cfg, Some (Some (config_json cfg)))"
    if "config_int64 cfg" "settled cfg" "valid_config cfg"
    using reload [OF config_roundtrip] that upgrade_settled_id by blast
  show ?thesis
  proof (cases d)
    case None
    with load seed LoadConfig_new first_launch_result saved show ?thesis by metis
  next
    case (Some j)
    with load obtain c m where c: "unmarshal_config j = Inr c" and u: "upgrade s c = Inr (cfg, m)"
      and v: "valid_config cfg" and d': "d' = (if m then snd (SaveConfig s cfg (Some j)) else Some j)"
      by (auto elim: LoadConfig_file)
    note res = upgrade_result [OF u]
    show ?thesis
    proof (cases m)
      case True
      with d' assms(3,4) have "d' = Some (Some (config_json cfg))" by (simp add: SaveConfig_def)
      with saved v res seed unmarshal_config_int64 [OF c] show ?thesis by auto
    next
      case False
      with res seed have "\<not> cVersion c < 2" "cfg = applyDefaults c" "settled cfg" by auto
      then have "upgrade s' c = Inr (cfg, False)"
        by (auto simp: upgrade_def settled_def)
      with reload c v d' False show ?thesis by simp
    qed
  qed
qed

definition good_sys :: sys where
  "good_sys = \<lparr>stat_err = None, read_err = None, mkdir_err = None, write_err = None,
     new_seed = Inr (replicate 32 7)\<rparr>"

lemma good_sys_calls: "stat_err good_sys = None" "read_err good_sys = None"
  by (simp_all add: good_sys_def)

lemma first_load:
  "LoadConfig good_sys None =
     (Inr (DefaultConfig\<lparr>cADNLKey := Some (replicate 32 7)\<rparr>),
      Some (Some (config_json (DefaultConfig\<lparr>cADNLKey := Some (replicate 32 7)\<rparr>))))"
  by (simp add: LoadConfig_def first_launch_def SaveConfig_def good_sys_def Let_def)

theorem LoadConfig_validated_witness:
  "valid_config (DefaultConfig\<lparr>cADNLKey := Some (replicate 32 7)\<rparr>)
   \<and> settled (DefaultConfig\<lparr>cADNLKey := Some (replicate 32 7)\<rparr>)"
  by (rule LoadConfig_validated [OF first_load]) (simp add: good_sys_def)

theorem LoadConfig_stable_witness:
  "LoadConfig good_sys (Some (Some (config_json (DefaultConfig\<lparr>cADNLKey := Some (replicate 32 7)\<rparr>))))
   = (Inr (DefaultConfig\<lparr>cADNLKey := Some (replicate 32 7)\<rparr>),
      Some (Some (config_json (DefaultConfig\<lparr>cADNLKey := Some (replicate 32 7)\<rparr>))))"
  by (rule LoadConfig_stable [OF first_load]) (simp_all add: good_sys_def)

text \<open>A version two file that names only its version.\<close>

definition minimal_v2 :: json where
  "minimal_v2 = JObj [(''version'', jint 2)]"

lemma unmarshal_minimal_v2:
  "unmarshal_config (Some minimal_v2) = Inr (zero_config\<lparr>cVersion := 2\<rparr>)"
  by (simp add: unmarshal_config_def unmarshal_def minimal_v2_def config_fields_def lookup_field
      int_field_jint int64_range_def)

text \<open>
  A file that leaves SSRF protection out: no object under \<open>namespaces\<close> and \<open>adnl\<close> has an entry of
  that name, in whatever case the decoder accepts.
\<close>

definition values_at :: "string \<Rightarrow> json \<Rightarrow> json list" where
  "values_at name j =
     (case j of JObj es \<Rightarrow> map snd (filter (\<lambda>(k, _). key_matches name k) es) | _ \<Rightarrow> [])"

definition leaves_out_ssrf :: "json \<Rightarrow> bool" where
  "leaves_out_ssrf j \<longleftrightarrow>
     concat (map (values_at ''ssrf_protection'')
       (concat (map (values_at ''adnl'') (values_at ''namespaces'' j)))) = []"

text \<open>Setting one value leaves a predicate of the struct as it is.\<close>

definition keeps_at :: "('p \<Rightarrow> bool) \<Rightarrow> 'p setter \<Rightarrow> json \<Rightarrow> bool" where
  "keeps_at P st v \<longleftrightarrow> (\<forall>p q. P p \<longrightarrow> st v p = Some q \<longrightarrow> P q)"

lemma keeps_keeps_at: "keeps P st \<Longrightarrow> keeps_at P st v"
  by (simp add: keeps_def keeps_at_def)

lemma find_field_keeps_at:
  "list_all (\<lambda>(n, st). key_matches n k \<longrightarrow> keeps_at P st v) fs \<Longrightarrow> find_field fs k = Some st \<Longrightarrow> keeps_at P st v"
  by (induction fs) (auto split: if_splits)

lemma unmarshal_entries_keeps_at:
  "\<forall>(k, v) \<in> set es. list_all (\<lambda>(n, st). key_matches n k \<longrightarrow> keeps_at P st v) fs \<Longrightarrow>
   P p \<Longrightarrow> unmarshal_entries fs es p = Some q \<Longrightarrow> P q"
proof (induction es arbitrary: p)
  case (Cons e es)
  obtain k v where e: "e = (k, v)" by (cases e)
  show ?case
  proof (cases "find_field fs k")
    case None
    with Cons e show ?thesis by simp
  next
    case (Some st)
    with Cons.prems e obtain p' where "st v p = Some p'" "unmarshal_entries fs es p' = Some q"
      by (auto split: option.splits)
    moreover have "keeps_at P st v" using find_field_keeps_at [OF _ Some] Cons.prems(1) e by auto
    ultimately show ?thesis using Cons.IH Cons.prems unfolding keeps_at_def by auto
  qed
qed simp

lemma struct_keeps_at:
  assumes "\<And>n st k w. (n, st) \<in> set fs \<Longrightarrow> key_matches n k \<Longrightarrow> w \<in> set (values_at n v) \<Longrightarrow> keeps_at P st w"
  shows "keeps_at P (struct_setter fs) v"
proof -
  have "P q" if o: "v = JObj es" and p: "P p" and u: "unmarshal_entries fs es p = Some q" for es p q
  proof -
    have "\<forall>(k, w) \<in> set es. list_all (\<lambda>(n, st). key_matches n k \<longrightarrow> keeps_at P st w) fs"
      using assms unfolding o values_at_def by (force simp: list_all_iff)
    from unmarshal_entries_keeps_at [where P = P, OF this p u] show ?thesis .
  qed
  then show ?thesis by (auto simp: keeps_at_def struct_setter_def split: json.splits)
qed

lemma nested_keeps_at:
  assumes "keeps_at Q (struct_setter fs) v" and "\<And>p. P p \<Longrightarrow> Q (get p)" and "\<And>x p. P p \<Longrightarrow> Q x \<Longrightarrow> P (upd x p)"
  shows "keeps_at P (nested fs get upd) v"
  using assms unfolding keeps_at_def nested_def by fastforce

lemma adnl_ssrf_off:
  assumes "values_at ''ssrf_protection'' v = []"
  shows "keeps_at (\<lambda>x. \<not> cSSRFProtection x) (struct_setter adnl_fields) v"
proof (rule struct_keeps_at)
  fix n st k w assume "(n, st) \<in> set adnl_fields" "w \<in> set (values_at n v)"
  with assms show "keeps_at (\<lambda>x. \<not> cSSRFProtection x) st w"
    by (auto simp: adnl_fields_def ns_fields_def intro!: keeps_keeps_at keeps_intros)
qed

lemma namespaces_ssrf_off:
  assumes "\<And>a. a \<in> set (values_at ''adnl'' v) \<Longrightarrow> values_at ''ssrf_protection'' a = []"
  shows "keeps_at (\<lambda>x. \<not> cSSRFProtection (cADNL x)) (struct_setter namespaces_fields) v"
proof (rule struct_keeps_at)
  fix n st k w assume h: "(n, st) \<in> set namespaces_fields" "w \<in> set (values_at n v)"
  show "keeps_at (\<lambda>x. \<not> cSSRFProtection (cADNL x)) st w"
  proof (cases "n = ''adnl''")
    case True
    with h(1) have "st = nested adnl_fields cADNL (\<lambda>x p. p\<lparr>cADNL := x\<rparr>)" by (auto simp: namespaces_fields_def)
    then show ?thesis using assms h(2) True by (auto intro!: nested_keeps_at [OF adnl_ssrf_off])
  qed (use h(1) in \<open>auto simp: namespaces_fields_def intro!: keeps_keeps_at keeps_nested [OF true_keeps]\<close>)
qed

lemma config_ssrf_off:
  assumes "leaves_out_ssrf j" "unmarshal_config (Some j) = Inr c"
  shows "\<not> cSSRFProtection (cADNL (cNamespaces c))"
proof -
  let ?P = "\<lambda>x. \<not> cSSRFProtection (cADNL (cNamespaces x))"
  have "keeps_at ?P (struct_setter config_fields) j"
  proof (rule struct_keeps_at)
    fix n st k w assume h: "(n, st) \<in> set config_fields" "w \<in> set (values_at n j)"
    show "keeps_at ?P st w"
    proof (cases "n = ''namespaces''")
      case True
      with h(1) have "st = nested namespaces_fields cNamespaces (\<lambda>x p. p\<lparr>cNamespaces := x\<rparr>)"
        by (auto simp: config_fields_def)
      then show ?thesis using assms(1) h(2) True
        by (auto simp: leaves_out_ssrf_def intro!: nested_keeps_at [OF namespaces_ssrf_off])
    qed (use h(1) in \<open>auto simp: config_fields_def intro!: keeps_keeps_at keeps_string keeps_bytes
          keeps_strings keeps_int keeps_nested [OF true_keeps]\<close>)
  qed
  moreover have "?P zero_config" by (simp add: zero_config_def zero_namespaces_def)
  ultimately show ?thesis
    using assms(2) by (auto simp: unmarshal_config_def unmarshal_def struct_setter_def keeps_at_def
        split: json.splits option.splits)
qed

lemma upgrade_keeps_ssrf:
  assumes "upgrade s c = Inr (cfg, m)" "2 \<le> cVersion c"
  shows "cSSRFProtection (cADNL (cNamespaces cfg)) = cSSRFProtection (cADNL (cNamespaces c))"
proof -
  have "cSSRFProtection (cADNL (cNamespaces (applyDefaults c))) = cSSRFProtection (cADNL (cNamespaces c))"
    by (simp add: applyDefaults_def applyDefaults_ns_def nsDefault_def Let_def)
  with assms show ?thesis by (auto simp: upgrade_def Let_def split: option.splits sum.splits if_splits)
qed

text \<open>
  C40: any file of version two or more that leaves SSRF protection out, whatever else it holds, is
  loaded, when it loads, with the protection off, although the shipped defaults have it on and the
  migration turns it on in every older file: \<open>applyDefaults\<close> skips the field.
\<close>
theorem partial_v2_without_ssrf:
  assumes "LoadConfig s (Some (Some j)) = (Inr cfg, d')" and "leaves_out_ssrf j"
    and "unmarshal_config (Some j) = Inr c" "2 \<le> cVersion c"
  shows "\<not> SSRFProtection (ADNL (Namespaces (ToWSBridgeConfig cfg)))
    \<and> SSRFProtection (ADNL (Namespaces (ToWSBridgeConfig DefaultConfig)))
    \<and> SSRFProtection (ADNL (Namespaces (ToWSBridgeConfig (applyDefaults (migrateV1 older)))))"
proof -
  obtain m where "upgrade s c = Inr (cfg, m)"
    by (rule LoadConfig_file [OF assms(1)]) (use assms(3) in auto)
  then have "\<not> cSSRFProtection (cADNL (cNamespaces cfg))"
    using upgrade_keeps_ssrf [OF _ assms(4)] config_ssrf_off [OF assms(2,3)] by blast
  then show ?thesis
    by (simp add: runtime_defs applyDefaults_def applyDefaults_ns_def nsDefault_def migrateV1_def
        default_config_defs)
qed

lemma minimal_v2_loads:
  "\<exists>cfg d'. LoadConfig good_sys (Some (Some minimal_v2)) = (Inr cfg, d')"
proof -
  let ?c = "(applyDefaults (zero_config\<lparr>cVersion := 2\<rparr>))\<lparr>cADNLKey := Some (replicate 32 7)\<rparr>"
  have k: "cADNLKey (zero_config\<lparr>cVersion := 2\<rparr>) = None" "cVersion (zero_config\<lparr>cVersion := 2\<rparr>) = 2"
    by (simp_all add: zero_config_def)
  have u: "upgrade good_sys (zero_config\<lparr>cVersion := 2\<rparr>) = Inr (?c, True)"
    using k by (simp add: upgrade_def Let_def good_sys_def)
  have v: "valid_config ?c"
    by (simp add: valid_config_def durations_def applyDefaults_def applyDefaults_ws_def
        applyDefaults_ns_def nsDefault_def str_default_def int_default_def default_config_defs
        zero_config_def zero_websocket_def zero_namespaces_def zero_ns_def Let_def)
  show ?thesis
    using u valid_config_Validate [OF v] unmarshal_minimal_v2 good_sys_calls by (simp add: LoadConfig_def)
qed

theorem partial_v2_without_ssrf_witness:
  "\<exists>cfg d'. LoadConfig good_sys (Some (Some minimal_v2)) = (Inr cfg, d')
     \<and> \<not> SSRFProtection (ADNL (Namespaces (ToWSBridgeConfig cfg)))"
proof -
  obtain cfg d' where l: "LoadConfig good_sys (Some (Some minimal_v2)) = (Inr cfg, d')"
    using minimal_v2_loads by blast
  have "leaves_out_ssrf minimal_v2"
    by (simp add: leaves_out_ssrf_def minimal_v2_def values_at_def lookup_field)
  from partial_v2_without_ssrf [OF l this unmarshal_minimal_v2] l show ?thesis by auto
qed

end
