(* ===== verification/GoNet.thy ===== *)
theory GoNet
  imports Encoding
begin

text \<open>
  The parts of Go's \<open>net\<close> package the bridge uses: IP addresses as byte slices, CIDR
  networks, the parsers \<open>net.ParseIP\<close> and \<open>net.SplitHostPort\<close>, the
  printers \<open>IP.String\<close> and \<open>net.JoinHostPort\<close>, and the address classes.
\<close>

unbundle bit_operations_syntax

section \<open>Splitting strings\<close>

fun split_on :: "char \<Rightarrow> string \<Rightarrow> string list" where
  "split_on c [] = [[]]"
| "split_on c (x # xs) =
     (if x = c then [] # split_on c xs
      else (case split_on c xs of [] \<Rightarrow> [[x]] | p # ps \<Rightarrow> (x # p) # ps))"

definition before_char :: "char \<Rightarrow> string \<Rightarrow> string" where
  "before_char c s = takeWhile (\<lambda>x. x \<noteq> c) s"

definition after_char :: "char \<Rightarrow> string \<Rightarrow> string" where
  "after_char c s = tl (dropWhile (\<lambda>x. x \<noteq> c) s)"

definition before_last :: "char \<Rightarrow> string \<Rightarrow> string" where
  "before_last c s = rev (after_char c (rev s))"

definition after_last :: "char \<Rightarrow> string \<Rightarrow> string" where
  "after_last c s = rev (before_char c (rev s))"

section \<open>IP addresses\<close>

type_synonym ip = bytes

definition to4 :: "ip \<Rightarrow> ip option" where
  "to4 a =
     (if length a = 4 then Some a
      else if length a = 16 \<and> take 12 a = replicate 10 0 @ [255, 255] then Some (drop 12 a)
      else None)"

definition v4_mapped :: "ip \<Rightarrow> ip" where
  "v4_mapped a = replicate 10 0 @ [255, 255] @ a"

definition ip_equal :: "ip \<Rightarrow> ip \<Rightarrow> bool" where
  "ip_equal a b =
     (if length a = length b then a = b
      else if length a = 4 \<and> length b = 16 then b = v4_mapped a
      else if length a = 16 \<and> length b = 4 then a = v4_mapped b
      else False)"

lemma to4_mapped: "length a = 4 \<Longrightarrow> to4 (v4_mapped a) = Some a"
  by (simp add: to4_def v4_mapped_def)

lemma length_v4_mapped [simp]: "length (v4_mapped a) = 12 + length a"
  by (simp add: v4_mapped_def)

subsection \<open>Networks\<close>

record ipnet =
  net_ip :: ip
  net_mask :: bytes

text \<open>A mask of \<open>n\<close> leading ones over \<open>w\<close> bytes (\<open>net.CIDRMask\<close>).\<close>

fun cidr_mask :: "nat \<Rightarrow> nat \<Rightarrow> bytes" where
  "cidr_mask n 0 = []"
| "cidr_mask n (Suc w) = NOT (mask (8 - min 8 n)) # cidr_mask (n - 8) w"

text \<open>
  The network that \<open>net.ParseCIDR\<close> returns for an address literal and a prefix length: the
  address with its host bits cleared, over 4 or 16 bytes.
\<close>

definition mask_ip :: "ip \<Rightarrow> bytes \<Rightarrow> ip" where
  "mask_ip a m = map2 (AND) a m"

definition cidr :: "ip \<Rightarrow> nat \<Rightarrow> ipnet" where
  "cidr a n = \<lparr>net_ip = mask_ip a (cidr_mask n (length a)), net_mask = cidr_mask n (length a)\<rparr>"

text \<open>An IPv6 literal by its leading 16-bit groups; the groups left out are zero.\<close>

definition v6 :: "nat list \<Rightarrow> ip" where
  "v6 gs = concat (map (\<lambda>g. [word_of_nat (g div 256), word_of_nat (g mod 256)]) gs)
     @ replicate (16 - 2 * length gs) 0"

definition net_contains :: "ipnet \<Rightarrow> ip \<Rightarrow> bool" where
  "net_contains n a =
     (let nn = (case to4 (net_ip n) of Some v \<Rightarrow> v | None \<Rightarrow> net_ip n);
          x = (case to4 a of Some v \<Rightarrow> v | None \<Rightarrow> a)
      in length x = length nn \<and> mask_ip nn (net_mask n) = mask_ip x (net_mask n))"

subsection \<open>Address classes\<close>

definition is_unspecified :: "ip \<Rightarrow> bool" where
  "is_unspecified a \<longleftrightarrow> ip_equal a [0, 0, 0, 0] \<or> ip_equal a (replicate 16 0)"

definition is_loopback :: "ip \<Rightarrow> bool" where
  "is_loopback a =
     (case to4 a of Some v \<Rightarrow> hd v = 127 | None \<Rightarrow> ip_equal a (replicate 15 0 @ [1]))"

definition is_multicast :: "ip \<Rightarrow> bool" where
  "is_multicast a =
     (case to4 a of Some v \<Rightarrow> hd v AND 0xf0 = 0xe0 | None \<Rightarrow> length a = 16 \<and> hd a = 0xff)"

definition is_link_local_unicast :: "ip \<Rightarrow> bool" where
  "is_link_local_unicast a =
     (case to4 a of
        Some v \<Rightarrow> v ! 0 = 169 \<and> v ! 1 = 254
      | None \<Rightarrow> length a = 16 \<and> a ! 0 = 0xfe \<and> a ! 1 AND 0xc0 = 0x80)"

definition is_global_unicast :: "ip \<Rightarrow> bool" where
  "is_global_unicast a \<longleftrightarrow>
     (length a = 4 \<or> length a = 16) \<and> \<not> ip_equal a [255, 255, 255, 255] \<and>
     \<not> is_unspecified a \<and> \<not> is_loopback a \<and> \<not> is_multicast a \<and> \<not> is_link_local_unicast a"

section \<open>Parsing\<close>

definition is_digit :: "char \<Rightarrow> bool" where
  "is_digit c \<longleftrightarrow> 48 \<le> char_code c \<and> char_code c \<le> 57"

text \<open>One field of a dotted quad: digits without a leading zero, at most 255.\<close>

definition parse_octet :: "string \<Rightarrow> byte option" where
  "parse_octet s =
     (if s = [] \<or> \<not> list_all is_digit s \<or> (hd s = CHR ''0'' \<and> 1 < length s) \<or> 3 < length s
      then None
      else (let n = foldl (\<lambda>a c. a * 10 + (char_code c - 48)) 0 s
            in if n \<le> 255 then Some (word_of_nat n) else None))"

definition parse_ipv4 :: "string \<Rightarrow> ip option" where
  "parse_ipv4 s =
     (let fs = map parse_octet (split_on (CHR ''.'') s)
      in if length fs = 4 \<and> list_all (\<lambda>f. f \<noteq> None) fs then Some (map the fs) else None)"

definition hex_run :: "string \<Rightarrow> string" where
  "hex_run s = takeWhile (\<lambda>c. hex_value c \<noteq> None) s"

definition hex_number :: "string \<Rightarrow> nat" where
  "hex_number s = foldl (\<lambda>a c. a * 16 + the (hex_value c)) 0 s"

text \<open>
  The loop of \<open>netip.parseIPv6\<close>. \<open>acc\<close> holds the bytes written so far and \<open>ell\<close> the
  position of the ellipsis. The fuel bounds the eight groups.
\<close>

fun ipv6_groups :: "nat \<Rightarrow> string \<Rightarrow> bytes \<Rightarrow> nat option \<Rightarrow> (bytes \<times> nat option) option" where
  "ipv6_groups 0 s acc ell = (if s = [] then Some (acc, ell) else None)"
| "ipv6_groups (Suc k) s acc ell =
     (if 16 \<le> length acc then (if s = [] then Some (acc, ell) else None)
      else
       (let run = hex_run s; rest = drop (length run) s; n = hex_number run in
        if run = [] \<or> 4 < length run then None
        else if rest \<noteq> [] \<and> hd rest = CHR ''.'' then
          (if (ell = None \<and> length acc \<noteq> 12) \<or> 16 < length acc + 4 then None
           else (case parse_ipv4 s of
                   None \<Rightarrow> None
                 | Some q \<Rightarrow> Some (acc @ q, ell)))
        else
          (let acc' = acc @ [word_of_nat (n div 256), word_of_nat (n mod 256)] in
           if rest = [] then Some (acc', ell)
           else if hd rest \<noteq> CHR '':'' \<or> tl rest = [] then None
           else if hd (tl rest) = CHR '':'' then
             (if ell \<noteq> None then None
              else if tl (tl rest) = [] then Some (acc', Some (length acc'))
              else ipv6_groups k (tl (tl rest)) acc' (Some (length acc')))
           else ipv6_groups k (tl rest) acc' ell)))"

definition expand_ellipsis :: "bytes \<times> nat option \<Rightarrow> ip option" where
  "expand_ellipsis p =
     (case p of
        (acc, None) \<Rightarrow> if length acc = 16 then Some acc else None
      | (acc, Some e) \<Rightarrow>
          if length acc < 16 then Some (take e acc @ replicate (16 - length acc) 0 @ drop e acc)
          else None)"

definition parse_ipv6 :: "string \<Rightarrow> ip option" where
  "parse_ipv6 s =
     (if take 2 s = ''::'' then
        (if length s = 2 then Some (replicate 16 0)
         else Option.bind (ipv6_groups 9 (drop 2 s) [] (Some 0)) expand_ellipsis)
      else Option.bind (ipv6_groups 9 s [] None) expand_ellipsis)"

text \<open>
  \<open>net.ParseIP\<close>: the first of \<open>.\<close>, \<open>:\<close> and \<open>%\<close> selects the grammar, an address with a
  zone is refused, and the result always has 16 bytes.
\<close>

definition parse_ip :: "string \<Rightarrow> ip option" where
  "parse_ip s =
     (case filter (\<lambda>c. c = CHR ''.'' \<or> c = CHR '':'' \<or> c = CHR ''%'') s of
        [] \<Rightarrow> None
      | c # _ \<Rightarrow>
          if c = CHR ''.'' then map_option v4_mapped (parse_ipv4 s)
          else if c = CHR '':'' \<and> CHR ''%'' \<notin> set s then parse_ipv6 s
          else None)"

text \<open>\<open>net.SplitHostPort\<close>: the host and the port, or a format error.\<close>

definition split_host_port :: "string \<Rightarrow> (string \<times> string) result" where
  "split_host_port s =
     (if CHR '':'' \<notin> set s then Inl ErrAddrFormat
      else if hd s = CHR ''['' then
        (let host = before_char (CHR '']'') (tl s);
             behind = after_char (CHR '']'') s;
             port = after_last (CHR '':'') s
         in if CHR '']'' \<notin> set s \<or> behind = [] \<or> hd behind \<noteq> CHR '':''
               \<or> CHR '':'' \<in> set (tl behind)
               \<or> CHR ''['' \<in> set (tl s) \<or> CHR '']'' \<in> set behind
            then Inl ErrAddrFormat
            else Inr (host, port))
      else
        (let host = before_last (CHR '':'') s; port = after_last (CHR '':'') s
         in if CHR '':'' \<in> set host \<or> CHR ''['' \<in> set s \<or> CHR '']'' \<in> set s
            then Inl ErrAddrFormat
            else Inr (host, port)))"

section \<open>Printing\<close>

definition show_octets :: "ip \<Rightarrow> string" where
  "show_octets v =
     (case map (\<lambda>b. show_nat (unat b)) v of
        [a, b, c, d] \<Rightarrow> a @ ''.'' @ b @ ''.'' @ c @ ''.'' @ d
      | _ \<Rightarrow> [])"

fun ip_groups :: "ip \<Rightarrow> nat list" where
  "ip_groups (a # b # r) = (unat a * 256 + unat b) # ip_groups r"
| "ip_groups _ = []"

fun show_hex :: "nat \<Rightarrow> string" where
  "show_hex n = (if n < 16 then [hex_digit n] else show_hex (n div 16) @ [hex_digit (n mod 16)])"

declare show_hex.simps [simp del]

definition zero_run :: "nat list \<Rightarrow> nat" where
  "zero_run gs = length (takeWhile (\<lambda>g. g = 0) gs)"

text \<open>The first longest run of zero groups: its start and its length.\<close>

fun longest_zero_run :: "nat \<Rightarrow> nat list \<Rightarrow> nat \<times> nat" where
  "longest_zero_run i [] = (i, 0)"
| "longest_zero_run i (g # gs) =
     (let (j, m) = longest_zero_run (Suc i) gs; n = zero_run (g # gs)
      in if m \<le> n then (i, n) else (j, m))"

fun join_colon :: "nat list \<Rightarrow> string" where
  "join_colon [] = []"
| "join_colon [g] = show_hex g"
| "join_colon (g # gs) = show_hex g @ CHR '':'' # join_colon gs"

definition show_ipv6 :: "ip \<Rightarrow> string" where
  "show_ipv6 a =
     (let gs = ip_groups a; (i, n) = longest_zero_run 0 gs in
      if n \<le> 1 then join_colon gs
      else join_colon (take i gs) @ ''::'' @ join_colon (drop (i + n) gs))"

definition show_ip :: "ip \<Rightarrow> string" where
  "show_ip a =
     (if a = [] then ''<nil>''
      else (case to4 a of
              Some v \<Rightarrow> show_octets v
            | None \<Rightarrow> if length a = 16 then show_ipv6 a else CHR ''?'' # hex_encode a))"

definition join_host_port :: "string \<Rightarrow> string \<Rightarrow> string" where
  "join_host_port host port =
     (if CHR '':'' \<in> set host \<or> CHR ''%'' \<in> set host
      then ''['' @ host @ '']:'' @ port else host @ '':'' @ port)"

section \<open>Masks and numeric ranges\<close>

text \<open>The number a byte sequence denotes, most significant byte first.\<close>

fun ip_num :: "ip \<Rightarrow> nat" where
  "ip_num [] = 0"
| "ip_num (b # bs) = unat b * 256 ^ length bs + ip_num bs"

lemma ip_num_bound: "ip_num a < 256 ^ length a"
proof (induction a)
  case Nil
  then show ?case by simp
next
  case (Cons b bs)
  have "unat b \<le> 255" using unsigned_less [of b, where 'a = nat] by simp
  then have "unat b * 256 ^ length bs \<le> 255 * 256 ^ length bs" by (rule mult_le_mono1)
  with Cons have "unat b * 256 ^ length bs + ip_num bs < 255 * 256 ^ length bs + 256 ^ length bs"
    by linarith
  then show ?case by simp
qed

lemma byte_mask_eq:
  fixes x y :: byte
  shows "x AND NOT (mask m) = y AND NOT (mask m) \<longleftrightarrow> unat x div 2 ^ m = unat y div 2 ^ m"
proof -
  have "x AND NOT (mask m) = y AND NOT (mask m) \<longleftrightarrow> drop_bit m x = drop_bit m y"
  proof
    assume eq: "x AND NOT (mask m) = y AND NOT (mask m)"
    show "drop_bit m x = drop_bit m y"
    proof (rule bit_word_eqI)
      fix n assume "n < LENGTH(8)"
      have "bit (x AND NOT (mask m)) (m + n) = bit (y AND NOT (mask m)) (m + n)"
        by (simp add: eq)
      then show "bit (drop_bit m x) n = bit (drop_bit m y) n"
        by (auto simp: bit_simps dest: bit_imp_le_length)
    qed
  next
    assume eq: "drop_bit m x = drop_bit m y"
    show "x AND NOT (mask m) = y AND NOT (mask m)"
    proof (rule bit_word_eqI)
      fix n assume n: "n < LENGTH(8)"
      show "bit (x AND NOT (mask m)) n = bit (y AND NOT (mask m)) n"
      proof (cases "m \<le> n")
        case True
        then have "bit (drop_bit m x) (n - m) = bit x n" and "bit (drop_bit m y) (n - m) = bit y n"
          by (simp_all add: bit_simps)
        with eq show ?thesis by (simp add: bit_simps)
      qed (simp add: bit_simps)
    qed
  qed
  also have "\<dots> \<longleftrightarrow> unat (drop_bit m x) = unat (drop_bit m y)"
    by (metis unsigned_word_eqI)
  also have "\<dots> \<longleftrightarrow> unat x div 2 ^ m = unat y div 2 ^ m"
    by (metis drop_bit_eq_div unat_drop_bit_eq)
  finally show ?thesis .
qed

lemma cidr_mask_0: "map2 (AND) x (cidr_mask 0 w) = replicate (min (length x) w) 0"
proof (induction w arbitrary: x)
  case 0
  then show ?case by simp
next
  case (Suc w)
  have "NOT (mask 8) = (0 :: byte)" by (simp add: mask_eq_exp_minus_1)
  then show ?case using Suc by (cases x) simp_all
qed

lemma div_split_head:
  fixes a x :: nat
  assumes "x < 2 ^ (k + d)"
  shows "(a * 2 ^ (k + d) + x) div 2 ^ k = a * 2 ^ d + x div 2 ^ k" and "x div 2 ^ k < 2 ^ d"
proof -
  have "a * 2 ^ (k + d) = (a * 2 ^ d) * 2 ^ k" by (simp add: power_add)
  then have "(a * 2 ^ (k + d) + x) div 2 ^ k = ((a * 2 ^ d) * 2 ^ k + x) div 2 ^ k" by (rule arg_cong)
  then show "(a * 2 ^ (k + d) + x) div 2 ^ k = a * 2 ^ d + x div 2 ^ k"
    using div_mult_self3 [of "2 ^ k" "a * 2 ^ d" x] by (simp only: power_not_zero) simp
  show "x div 2 ^ k < 2 ^ d"
    using assms by (simp add: less_mult_imp_div_less power_add mult.commute)
qed

lemma mixed_radix_eq:
  fixes a b x y m :: nat
  assumes "x < m" and "y < m"
  shows "a * m + x = b * m + y \<longleftrightarrow> a = b \<and> x = y"
proof
  assume eq: "a * m + x = b * m + y"
  then have "(a * m + x) div m = (b * m + y) div m" by simp
  then have "a = b" using assms by simp
  with eq show "a = b \<and> x = y" by simp
qed simp

lemma pow256: "(256 :: nat) ^ w = 2 ^ (8 * w)"
  by (simp add: power_mult)

text \<open>
  Comparing two addresses under a mask of \<open>n\<close> leading ones compares the numbers they denote
  after the low bits are dropped.
\<close>

lemma mask_ip_eq_iff:
  assumes "length x = w" and "length y = w" and "n \<le> 8 * w"
  shows "mask_ip x (cidr_mask n w) = mask_ip y (cidr_mask n w)
     \<longleftrightarrow> ip_num x div 2 ^ (8 * w - n) = ip_num y div 2 ^ (8 * w - n)"
  using assms
proof (induction w arbitrary: x y n)
  case 0
  then show ?case by simp
next
  case (Suc w)
  obtain a xs where x: "x = a # xs" and lx: "length xs = w"
    using Suc.prems(1) by (cases x) auto
  obtain b ys where y: "y = b # ys" and ly: "length ys = w"
    using Suc.prems(2) by (cases y) auto
  have bx: "ip_num xs < 2 ^ (8 * w)" and b2: "ip_num ys < 2 ^ (8 * w)"
    using ip_num_bound [of xs] ip_num_bound [of ys] lx ly by (simp_all add: pow256)
  show ?case
  proof (cases "8 \<le> n")
    case True
    define k where "k = 8 * w - (n - 8)"
    have k: "8 * Suc w - n = k" and kd: "8 * w = k + (n - 8)"
      using True Suc.prems(3) by (simp_all add: k_def)
    have head: "NOT (mask (8 - min 8 n)) = (-1 :: byte)" using True by simp
    have "mask_ip x (cidr_mask n (Suc w)) = mask_ip y (cidr_mask n (Suc w)) \<longleftrightarrow>
        a = b \<and> mask_ip xs (cidr_mask (n - 8) w) = mask_ip ys (cidr_mask (n - 8) w)"
      by (simp add: x y mask_ip_def head)
    also have "\<dots> \<longleftrightarrow> a = b \<and> ip_num xs div 2 ^ k = ip_num ys div 2 ^ k"
      using Suc.IH [OF lx ly, of "n - 8"] True Suc.prems(3) by (simp add: k_def)
    also have "\<dots> \<longleftrightarrow> unat a * 2 ^ (n - 8) + ip_num xs div 2 ^ k
        = unat b * 2 ^ (n - 8) + ip_num ys div 2 ^ k"
      using mixed_radix_eq [OF div_split_head(2) [of "ip_num xs" k "n - 8"]
          div_split_head(2) [of "ip_num ys" k "n - 8"]] bx b2 kd
      by (metis word_unat_eq_iff)
    also have "\<dots> \<longleftrightarrow> ip_num x div 2 ^ k = ip_num y div 2 ^ k"
      using div_split_head(1) [of "ip_num xs" k "n - 8" "unat a"]
        div_split_head(1) [of "ip_num ys" k "n - 8" "unat b"] bx b2 kd
      by (simp add: x y lx ly pow256)
    finally show ?thesis by (simp only: k)
  next
    case False
    then have n: "n < 8" by simp
    have e: "8 * Suc w - n = 8 * w + (8 - n)" using n by simp
    have red: "(unat c * 2 ^ (8 * w) + z) div 2 ^ (8 * w + (8 - n)) = unat c div 2 ^ (8 - n)"
      if "z < 2 ^ (8 * w)" for c :: byte and z :: nat
    proof -
      have "(unat c * 2 ^ (8 * w) + z) div 2 ^ (8 * w) = unat c" using that by simp
      then show ?thesis by (simp only: power_add div_mult2_eq)
    qed
    have "mask_ip x (cidr_mask n (Suc w)) = mask_ip y (cidr_mask n (Suc w)) \<longleftrightarrow>
        a AND NOT (mask (8 - n)) = b AND NOT (mask (8 - n))"
      using n by (simp add: x y mask_ip_def cidr_mask_0 lx ly min_def)
    also have "\<dots> \<longleftrightarrow> unat a div 2 ^ (8 - n) = unat b div 2 ^ (8 - n)"
      by (rule byte_mask_eq)
    also have "\<dots> \<longleftrightarrow> ip_num x div 2 ^ (8 * Suc w - n) = ip_num y div 2 ^ (8 * Suc w - n)"
      by (simp only: e x y ip_num.simps lx ly pow256 red [OF bx] red [OF b2])
    finally show ?thesis .
  qed
qed

end
