(* ===== verification/NetGuard.thy ===== *)
theory NetGuard
  imports GoNet
begin

text \<open>
  Address filtering (wsbridge/helpers.go and the top of wsbridge/adnl.go): the table of
  private and special-purpose networks, the tests on one address, and the choice of the
  endpoints that \<open>adnl.connectByADNL\<close> may dial.
\<close>

section \<open>The table of networks\<close>

definition privateCIDRs :: "(ip \<times> nat) list" where
  "privateCIDRs =
    [([0, 0, 0, 0], 8), ([127, 0, 0, 0], 8), ([10, 0, 0, 0], 8), ([172, 16, 0, 0], 12),
     ([192, 168, 0, 0], 16), ([169, 254, 0, 0], 16), ([100, 64, 0, 0], 10),
     ([192, 0, 0, 0], 24), ([192, 0, 2, 0], 24), ([192, 88, 99, 0], 24),
     ([198, 18, 0, 0], 15), ([198, 51, 100, 0], 24), ([203, 0, 113, 0], 24),
     ([224, 0, 0, 0], 4), ([240, 0, 0, 0], 4),
     (v6 [], 128), (v6 [0, 0, 0, 0, 0, 0, 0, 1], 128), (v6 [0x64, 0xff9b, 1], 48),
     (v6 [0x100], 64), (v6 [0x100, 0, 0, 1], 64), (v6 [0x2001], 23),
     (v6 [0x2001, 0xdb8], 32), (v6 [0x2002], 16), (v6 [0x3fff], 20),
     (v6 [0x5f00], 16), (v6 [0xfc00], 7), (v6 [0xfe80], 10), (v6 [0xff00], 8)]"

definition privateNets :: "ipnet list" where
  "privateNets = map (\<lambda>(a, n). cidr a n) privateCIDRs"

definition isPrivateIP :: "ip \<Rightarrow> bool" where
  "isPrivateIP a =
     (let x = (case to4 a of Some v \<Rightarrow> v | None \<Rightarrow> a)
      in list_ex (\<lambda>n. net_contains n x) privateNets)"

text \<open>The empty byte slice is Go's \<open>nil\<close> address.\<close>

definition isPublicUnicastIP :: "ip \<Rightarrow> bool" where
  "isPublicUnicastIP a \<longleftrightarrow> a \<noteq> [] \<and> is_global_unicast a \<and> \<not> isPrivateIP a"

section \<open>Endpoints from the DHT\<close>

text \<open>One address of a DHT record: \<open>address.IPValue\<close> and \<open>address.PortValue\<close> of it.\<close>

record adnl_addr =
  IPValue :: ip
  PortValue :: int

definition endpoint_of :: "adnl_addr \<Rightarrow> string" where
  "endpoint_of c = join_host_port (show_ip (IPValue c)) (show_int (PortValue c))"

definition endpoint_ok :: "adnl_addr \<Rightarrow> bool" where
  "endpoint_ok c \<longleftrightarrow> isPublicUnicastIP (IPValue c) \<and> 1 \<le> PortValue c \<and> PortValue c \<le> 65535"

fun endpoint_loop :: "adnl_addr list \<Rightarrow> int \<Rightarrow> string list \<Rightarrow> string list" where
  "endpoint_loop [] mx acc = acc"
| "endpoint_loop (c # cs) mx acc =
     (if \<not> isPublicUnicastIP (IPValue c) \<or> PortValue c < 1 \<or> 65535 < PortValue c
      then endpoint_loop cs mx acc
      else (let acc' = acc @ [endpoint_of c]
            in if int (length acc') = mx then acc' else endpoint_loop cs mx acc'))"

definition publicADNLEndpoints :: "adnl_addr list \<Rightarrow> int \<Rightarrow> string list" where
  "publicADNLEndpoints candidates mx = (if mx \<le> 0 then [] else endpoint_loop candidates mx [])"

section \<open>Lemmas\<close>

lemma endpoint_loop_take:
  "length acc < n \<Longrightarrow>
   endpoint_loop cs (int n) acc = acc @ take (n - length acc) (map endpoint_of (filter endpoint_ok cs))"
proof (induction cs arbitrary: acc)
  case Nil
  then show ?case by simp
next
  case (Cons c cs)
  show ?case
  proof (cases "endpoint_ok c")
    case False
    then show ?thesis using Cons by (auto simp: endpoint_ok_def)
  next
    case True
    let ?acc = "acc @ [endpoint_of c]"
    have step: "endpoint_loop (c # cs) (int n) acc =
        (if length ?acc = n then ?acc else endpoint_loop cs (int n) ?acc)"
      using True by (auto simp: endpoint_ok_def Let_def)
    show ?thesis
    proof (cases "length ?acc = n")
      case True': True
      then have "n - length acc = Suc 0" by simp
      with True True' step show ?thesis by simp
    next
      case False
      with Cons.prems have "length ?acc < n" by simp
      then have "endpoint_loop cs (int n) ?acc
          = ?acc @ take (n - length ?acc) (map endpoint_of (filter endpoint_ok cs))"
        by (rule Cons.IH)
      moreover have "n - length acc = Suc (n - length ?acc)" using \<open>length ?acc < n\<close> by simp
      ultimately show ?thesis using True False step by simp
    qed
  qed
qed

lemma publicADNLEndpoints_sound:
  assumes "e \<in> set (publicADNLEndpoints cs mx)"
  shows "\<exists>a \<in> set cs. endpoint_ok a \<and> e = endpoint_of a"
proof (cases "mx \<le> 0")
  case False
  define n where "n = nat mx"
  with False have n: "mx = int n" "0 < n" by simp_all
  then have "set (publicADNLEndpoints cs mx) = set (take n (map endpoint_of (filter endpoint_ok cs)))"
    using endpoint_loop_take [of "[]" n cs] by (simp add: publicADNLEndpoints_def)
  with assms set_take_subset [of n "map endpoint_of (filter endpoint_ok cs)"] show ?thesis by auto
qed (use assms in \<open>simp add: publicADNLEndpoints_def\<close>)

lemma to4_length: "to4 a = Some v \<Longrightarrow> length v = 4"
  by (auto simp: to4_def split: if_splits)

lemma to4_idem: "to4 a = Some v \<Longrightarrow> to4 v = Some v"
  by (drule to4_length) (simp add: to4_def)

lemma to4_16:
  assumes "length a = 16" and "to4 a = Some v"
  shows "a = v4_mapped v"
proof -
  have "take 12 a = replicate 10 0 @ [255, 255]" and "v = drop 12 a"
    using assms by (auto simp: to4_def split: if_splits)
  moreover have "a = take 12 a @ drop 12 a" by simp
  ultimately show ?thesis unfolding v4_mapped_def by (metis append.assoc)
qed

lemma isPrivateIP_to4: "to4 a = Some v \<Longrightarrow> isPrivateIP a = isPrivateIP v"
  by (simp add: isPrivateIP_def to4_idem)

lemma length_cidr_mask [simp]: "length (cidr_mask n w) = w"
  by (induction w arbitrary: n) auto

lemma mask_ip_idem: "mask_ip (mask_ip b m) m = mask_ip b m"
  by (auto simp: mask_ip_def list_eq_iff_nth_eq and.assoc)

lemma length_mask_ip [simp]: "length (mask_ip a m) = min (length a) (length m)"
  by (simp add: mask_ip_def)

text \<open>What every entry of the table has in common.\<close>

definition cidr_ok :: "ip \<times> nat \<Rightarrow> bool" where
  "cidr_ok p =
     (case p of (b, n) \<Rightarrow>
        (length b = 4 \<or> length b = 16 \<and> b ! 10 = 0) \<and> n \<le> 8 * length b
        \<and> 2 ^ (8 * length b - n) dvd ip_num b)"

lemma replicate_num: "replicate (numeral k) x = x # replicate (pred_numeral k) x"
  by (simp add: numeral_eq_Suc)

lemma privateCIDRs_ok: "list_all cidr_ok privateCIDRs"
  by (simp add: privateCIDRs_def cidr_ok_def v6_def replicate_num)

lemma cidr_to4_none:
  assumes "length b = 16" and "b ! 10 = 0"
  shows "to4 (mask_ip b (cidr_mask n 16)) = None"
proof -
  let ?m = "mask_ip b (cidr_mask n 16)"
  have "?m ! 10 = 0" using assms by (simp add: mask_ip_def)
  moreover have "take 12 ?m ! 10 = ?m ! 10" by (rule nth_take) simp
  moreover have "(replicate 10 0 @ [255, 255]) ! 10 = (255 :: byte)" by (simp add: nth_append)
  ultimately have "take 12 ?m ! 10 \<noteq> (replicate 10 0 @ [255, 255]) ! 10" by simp
  then have "take 12 ?m \<noteq> replicate 10 0 @ [255, 255]" by metis
  then show ?thesis using assms by (simp add: to4_def)
qed

lemma aligned_div_eq:
  fixes x b m :: nat
  assumes "m dvd b" and "0 < m"
  shows "x div m = b div m \<longleftrightarrow> b \<le> x \<and> x < b + m"
proof -
  obtain q where b: "b = m * q" using assms(1) ..
  have "x div m = q \<longleftrightarrow> m * q \<le> x \<and> x < m * q + m"
  proof
    assume "x div m = q"
    then show "m * q \<le> x \<and> x < m * q + m"
      using times_div_less_eq_dividend [of m x] dividend_less_times_div [OF assms(2), of x]
      by (simp add: add.commute)
  next
    assume "m * q \<le> x \<and> x < m * q + m"
    then show "x div m = q" by (intro div_nat_eqI) (simp_all add: mult.commute)
  qed
  then show ?thesis using assms(2) by (simp add: b)
qed

text \<open>An address in 4-byte form, or in 16-byte form that does not stand for an IPv4 address.\<close>

definition canonical_ip :: "ip \<Rightarrow> bool" where
  "canonical_ip a \<longleftrightarrow> length a = 4 \<or> length a = 16 \<and> to4 a = None"

definition in_block :: "ip \<Rightarrow> ip \<times> nat \<Rightarrow> bool" where
  "in_block a p =
     (case p of (b, n) \<Rightarrow>
        length a = length b \<and> ip_num b \<le> ip_num a
        \<and> ip_num a < ip_num b + 2 ^ (8 * length b - n))"

lemma net_contains_block:
  assumes "cidr_ok (b, n)" and "canonical_ip a"
  shows "net_contains (cidr b n) a \<longleftrightarrow> in_block a (b, n)"
proof -
  let ?m = "cidr_mask n (length b)"
  have sel: "net_ip (cidr b n) = mask_ip b ?m" "net_mask (cidr b n) = ?m"
    by (simp_all add: cidr_def)
  have nn: "(case to4 (net_ip (cidr b n)) of Some v \<Rightarrow> v | None \<Rightarrow> net_ip (cidr b n)) = mask_ip b ?m"
    unfolding sel using assms(1) cidr_to4_none [of b n] by (auto simp: cidr_ok_def to4_def)
  have aa: "(case to4 a of Some v \<Rightarrow> v | None \<Rightarrow> a) = a"
    using assms(2) by (auto simp: canonical_ip_def to4_def)
  have "net_contains (cidr b n) a \<longleftrightarrow> length a = length b \<and> mask_ip b ?m = mask_ip a ?m"
    unfolding net_contains_def Let_def nn aa by (simp add: sel mask_ip_idem)
  also have "\<dots> \<longleftrightarrow> length a = length b
      \<and> ip_num a div 2 ^ (8 * length b - n) = ip_num b div 2 ^ (8 * length b - n)"
    using mask_ip_eq_iff [of b "length b" a n] assms(1) by (auto simp: cidr_ok_def)
  also have "\<dots> \<longleftrightarrow> in_block a (b, n)"
    using assms(1) aligned_div_eq [of "2 ^ (8 * length b - n)" "ip_num b" "ip_num a"]
    by (auto simp: in_block_def cidr_ok_def)
  finally show ?thesis .
qed

lemma isPrivateIP_blocks:
  assumes "canonical_ip a"
  shows "isPrivateIP a \<longleftrightarrow> (\<exists>p \<in> set privateCIDRs. in_block a p)"
proof -
  have aa: "(case to4 a of Some v \<Rightarrow> v | None \<Rightarrow> a) = a"
    using assms by (auto simp: canonical_ip_def to4_def)
  have step: "net_contains (case p of (b, n) \<Rightarrow> cidr b n) a \<longleftrightarrow> in_block a p"
    if "p \<in> set privateCIDRs" for p
  proof (cases p)
    case (Pair b n)
    with that privateCIDRs_ok have "cidr_ok (b, n)" by (simp add: list_all_iff)
    then show ?thesis using net_contains_block [OF _ assms] Pair by simp
  qed
  have "isPrivateIP a \<longleftrightarrow> (\<exists>p \<in> set privateCIDRs. net_contains (case p of (b, n) \<Rightarrow> cidr b n) a)"
    by (simp add: isPrivateIP_def aa privateNets_def list_ex_iff)
  also have "\<dots> \<longleftrightarrow> (\<exists>p \<in> set privateCIDRs. in_block a p)"
    using step by (rule bex_cong [OF refl])
  finally show ?thesis .
qed

lemma ip_equal_mapped:
  "length a = 4 \<Longrightarrow> length b = 4 \<Longrightarrow> ip_equal (v4_mapped a) b \<longleftrightarrow> ip_equal a b"
  by (auto simp: ip_equal_def v4_mapped_def)

lemma mapped_not_zero: "v4_mapped a \<noteq> replicate 16 0"
proof
  assume "v4_mapped a = replicate 16 0"
  then have "v4_mapped a ! 10 = replicate 16 (0 :: byte) ! 10" by simp
  then show False by (simp add: v4_mapped_def nth_append)
qed

lemma is_global_unicast_mapped:
  assumes a: "length a = 4"
  shows "is_global_unicast (v4_mapped a) = is_global_unicast a"
proof -
  have t: "to4 (v4_mapped a) = Some a" "to4 a = Some a"
    by (rule to4_mapped [OF a]) (simp add: a to4_def)
  have "is_loopback (v4_mapped a) = is_loopback a" and "is_multicast (v4_mapped a) = is_multicast a"
    and "is_link_local_unicast (v4_mapped a) = is_link_local_unicast a"
    by (simp_all add: is_loopback_def is_multicast_def is_link_local_unicast_def t)
  moreover have "is_unspecified (v4_mapped a) = is_unspecified a"
  proof -
    have "\<not> ip_equal (v4_mapped a) (replicate 16 0)"
      using a mapped_not_zero [of a] by (simp add: ip_equal_def)
    moreover have "ip_equal a (replicate 16 0) \<longleftrightarrow> False"
      using a mapped_not_zero [of a] by (auto simp: ip_equal_def)
    ultimately show ?thesis using a ip_equal_mapped [of a "[0, 0, 0, 0]"]
      by (simp add: is_unspecified_def)
  qed
  moreover have "ip_equal (v4_mapped a) [255, 255, 255, 255] = ip_equal a [255, 255, 255, 255]"
    using a by (intro ip_equal_mapped) simp_all
  ultimately show ?thesis using a by (simp add: is_global_unicast_def)
qed

section \<open>Properties\<close>

text \<open>
  The special-purpose addresses as intervals of numbers, first and last address, written down
  without prefix lengths and masks and in ascending order: 15 intervals of IPv4 and 13 of IPv6.
\<close>

definition dotted :: "nat \<Rightarrow> nat \<Rightarrow> nat \<Rightarrow> nat \<Rightarrow> nat" where
  "dotted a b c d = ((a * 256 + b) * 256 + c) * 256 + d"

definition special_v4 :: "(nat \<times> nat) list" where
  "special_v4 =
    [(dotted 0 0 0 0, dotted 0 255 255 255),
     (dotted 10 0 0 0, dotted 10 255 255 255),
     (dotted 100 64 0 0, dotted 100 127 255 255),
     (dotted 127 0 0 0, dotted 127 255 255 255),
     (dotted 169 254 0 0, dotted 169 254 255 255),
     (dotted 172 16 0 0, dotted 172 31 255 255),
     (dotted 192 0 0 0, dotted 192 0 0 255),
     (dotted 192 0 2 0, dotted 192 0 2 255),
     (dotted 192 88 99 0, dotted 192 88 99 255),
     (dotted 192 168 0 0, dotted 192 168 255 255),
     (dotted 198 18 0 0, dotted 198 19 255 255),
     (dotted 198 51 100 0, dotted 198 51 100 255),
     (dotted 203 0 113 0, dotted 203 0 113 255),
     (dotted 224 0 0 0, dotted 239 255 255 255),
     (dotted 240 0 0 0, dotted 255 255 255 255)]"

definition special_v6 :: "(nat \<times> nat) list" where
  "special_v6 =
    [(0, 0),
     (1, 1),
     (0x0064ff9b000100000000000000000000, 0x0064ff9b0001ffffffffffffffffffff),
     (0x01000000000000000000000000000000, 0x0100000000000000ffffffffffffffff),
     (0x01000000000000010000000000000000, 0x0100000000000001ffffffffffffffff),
     (0x20010000000000000000000000000000, 0x200101ffffffffffffffffffffffffff),
     (0x20010db8000000000000000000000000, 0x20010db8ffffffffffffffffffffffff),
     (0x20020000000000000000000000000000, 0x2002ffffffffffffffffffffffffffff),
     (0x3fff0000000000000000000000000000, 0x3fff0fffffffffffffffffffffffffff),
     (0x5f000000000000000000000000000000, 0x5f00ffffffffffffffffffffffffffff),
     (0xfc000000000000000000000000000000, 0xfdffffffffffffffffffffffffffffff),
     (0xfe800000000000000000000000000000, 0xfebfffffffffffffffffffffffffffff),
     (0xff000000000000000000000000000000, 0xffffffffffffffffffffffffffffffff)]"

definition in_ranges :: "nat \<Rightarrow> (nat \<times> nat) list \<Rightarrow> bool" where
  "in_ranges x rs = list_ex (\<lambda>(lo, hi). lo \<le> x \<and> x \<le> hi) rs"

definition block_range :: "ip \<times> nat \<Rightarrow> nat \<times> nat" where
  "block_range p = (case p of (b, n) \<Rightarrow> (ip_num b, ip_num b + (2 ^ (8 * length b - n) - 1)))"

definition blocks_of_length :: "nat \<Rightarrow> (ip \<times> nat) list" where
  "blocks_of_length w = filter (\<lambda>p. length (fst p) = w) privateCIDRs"

lemma blocks_v4: "set (map block_range (blocks_of_length 4)) = set special_v4"
  by (simp add: blocks_of_length_def privateCIDRs_def block_range_def special_v4_def dotted_def v6_def)
    (simp add: insert_commute)

lemma blocks_v6: "set (map block_range (blocks_of_length 16)) = set special_v6"
  by (simp add: blocks_of_length_def privateCIDRs_def block_range_def special_v6_def v6_def replicate_num)

lemma in_block_range:
  "in_block a p \<longleftrightarrow> length a = length (fst p)
     \<and> (case block_range p of (lo, hi) \<Rightarrow> lo \<le> ip_num a \<and> ip_num a \<le> hi)"
proof (cases p)
  case (Pair b n)
  have "x < y + m \<longleftrightarrow> x \<le> y + (m - 1)" if "0 < m" for x y m :: nat using that by arith
  then show ?thesis by (simp add: in_block_def block_range_def Pair)
qed

lemma in_blocks_ranges:
  assumes "length a = w" and "set (map block_range (blocks_of_length w)) = set rs"
  shows "(\<exists>p \<in> set privateCIDRs. in_block a p) \<longleftrightarrow> in_ranges (ip_num a) rs"
proof -
  have "(\<exists>p \<in> set privateCIDRs. in_block a p)
      \<longleftrightarrow> (\<exists>p \<in> set (blocks_of_length w). case block_range p of (lo, hi) \<Rightarrow> lo \<le> ip_num a \<and> ip_num a \<le> hi)"
    unfolding in_block_range blocks_of_length_def by (simp add: Bex_def assms(1) [symmetric] eq_commute conj_ac)
  also have "\<dots> \<longleftrightarrow> (\<exists>r \<in> set rs. case r of (lo, hi) \<Rightarrow> lo \<le> ip_num a \<and> ip_num a \<le> hi)"
    unfolding assms(2) [symmetric] by simp
  finally show ?thesis by (simp add: in_ranges_def list_ex_iff case_prod_unfold)
qed

lemma isPrivateIP_odd_length:
  assumes "to4 a = None" "length a \<noteq> 16"
  shows "\<not> isPrivateIP a"
proof -
  have len: "length (case to4 (net_ip (cidr b n)) of Some v \<Rightarrow> v | None \<Rightarrow> net_ip (cidr b n)) \<noteq> length a"
    if "(b, n) \<in> set privateCIDRs" for b n
  proof -
    have "length b = 4 \<or> length b = 16"
      using that privateCIDRs_ok by (auto simp: list_all_iff cidr_ok_def)
    moreover have "length a \<noteq> 4" using assms by (auto simp: to4_def)
    ultimately show ?thesis using assms(2) by (auto simp: cidr_def to4_def)
  qed
  then have "\<not> net_contains (cidr b n) a" if "(b, n) \<in> set privateCIDRs" for b n
    unfolding net_contains_def Let_def assms(1) option.case using len [OF that] by metis
  then show ?thesis
    using assms(1) by (auto simp: isPrivateIP_def privateNets_def list_ex_iff)
qed

text \<open>
  C36: \<open>isPrivateIP\<close> accepts exactly the special-purpose addresses: an IPv4 address, also one
  written in 16 bytes, when its number lies in one of the 15 intervals listed above, any other
  16-byte address when it lies in one of the 13 intervals of IPv6, and no slice of another length.
\<close>

theorem private_ip_is_block_membership:
  "isPrivateIP a \<longleftrightarrow>
     (case to4 a of
        Some v \<Rightarrow> in_ranges (ip_num v) special_v4
      | None \<Rightarrow> length a = 16 \<and> in_ranges (ip_num a) special_v6)"
proof (cases "to4 a")
  case (Some v)
  then have "length v = 4" by (rule to4_length)
  then have "isPrivateIP v \<longleftrightarrow> in_ranges (ip_num v) special_v4"
    using isPrivateIP_blocks [of v] in_blocks_ranges [OF _ blocks_v4] by (simp add: canonical_ip_def)
  with Some show ?thesis using isPrivateIP_to4 [OF Some] by simp
next
  case None
  show ?thesis
  proof (cases "length a = 16")
    case True
    then show ?thesis
      using None isPrivateIP_blocks [of a] in_blocks_ranges [OF _ blocks_v6] by (simp add: canonical_ip_def)
  qed (use None isPrivateIP_odd_length in simp)
qed

text \<open>
  Writing an IPv4 address in its IPv6-mapped form \<open>::ffff:a.b.c.d\<close> changes neither verdict,
  so the private-address filter cannot be bypassed by the choice of notation.
\<close>

theorem mapped_form_same_verdict:
  "length a = 4 \<Longrightarrow>
   isPrivateIP (v4_mapped a) = isPrivateIP a \<and> isPublicUnicastIP (v4_mapped a) = isPublicUnicastIP a"
  using isPrivateIP_to4 [OF to4_mapped, of a] is_global_unicast_mapped [of a]
  by (auto simp: isPublicUnicastIP_def v4_mapped_def)

theorem mapped_form_same_verdict_witness:
  "length [10, 0, 0, 1 :: byte] = 4 \<and> isPrivateIP (v4_mapped [10, 0, 0, 1]) = isPrivateIP [10, 0, 0, 1]"
  using mapped_form_same_verdict [of "[10, 0, 0, 1]"] by simp

text \<open>
  C37: the endpoint loop of \<open>adnl.connectByADNL\<close> returns, in record order, the first \<open>max\<close>
  candidates that are public unicast addresses with a port from 1 to 65535, and nothing else.
\<close>

theorem publicADNLEndpoints_eq:
  "publicADNLEndpoints cs mx = take (nat mx) (map endpoint_of (filter endpoint_ok cs))"
proof (cases "mx \<le> 0")
  case True
  then show ?thesis by (simp add: publicADNLEndpoints_def)
next
  case False
  then have "endpoint_loop cs (int (nat mx)) [] = take (nat mx) (map endpoint_of (filter endpoint_ok cs))"
    using endpoint_loop_take [of "[]" "nat mx" cs] by simp
  with False show ?thesis by (simp add: publicADNLEndpoints_def)
qed

text \<open>
  The table has no entry for the NAT64 well-known prefix \<open>64:ff9b::/96\<close>: the address that a NAT64
  gateway translates to 127.0.0.1 passes the filter.
\<close>

definition nat64_loopback :: ip where
  "nat64_loopback = v6 [0x64, 0xff9b, 0, 0, 0, 0, 0x7f00, 1]"

lemma nat64_loopback_bytes: "nat64_loopback = [0, 0x64, 0xff, 0x9b, 0, 0, 0, 0, 0, 0, 0, 0, 0x7f, 0, 0, 1]"
  by (simp add: nat64_loopback_def v6_def)

lemma nat64_loopback_passes: "isPublicUnicastIP nat64_loopback"
proof -
  have t: "to4 nat64_loopback = None" by (simp add: nat64_loopback_bytes to4_def replicate_num)
  then have "canonical_ip nat64_loopback" by (simp add: canonical_ip_def nat64_loopback_bytes)
  then have "isPrivateIP nat64_loopback \<longleftrightarrow> (\<exists>p \<in> set privateCIDRs. in_block nat64_loopback p)"
    by (rule isPrivateIP_blocks)
  then have "\<not> isPrivateIP nat64_loopback"
    by (simp add: nat64_loopback_bytes privateCIDRs_def in_block_def v6_def replicate_num)
  moreover have "is_global_unicast nat64_loopback"
    by (simp add: is_global_unicast_def is_unspecified_def is_loopback_def is_multicast_def
        is_link_local_unicast_def t) (simp add: nat64_loopback_bytes ip_equal_def v4_mapped_def replicate_num)
  ultimately show ?thesis by (simp add: isPublicUnicastIP_def nat64_loopback_bytes)
qed

end
