(* ===== verification/TonObjects.thy ===== *)
theory TonObjects
  imports Encoding
begin

text \<open>
  The blockchain objects of tonutils-go as the bridge sees them. Cells, slices and addresses
  belong to the library: they are references, and what the library computes from them is the
  parameter \<open>ton_lib\<close>.
\<close>

section \<open>Objects of the library\<close>

datatype tvm_cell = Cell nat
datatype tvm_slice = Slice nat
datatype ton_address = Address nat

text \<open>\<open>ton.BlockIDExt\<close>; \<open>Shard\<close> is an \<open>int64\<close>, printed from its unsigned bits.\<close>

record block_id =
  Workchain :: int
  Shard :: int
  SeqNo :: nat
  RootHash :: bytes
  FileHash :: bytes

definition shard_hex :: "int \<Rightarrow> string" where
  "shard_hex s = hex16 (to_uint64 s)"

text \<open>
  A message of a transaction: its kind, the cell it serializes to, and what \<open>SenderAddr\<close>,
  \<open>DestAddr\<close>, \<open>Payload\<close> and \<open>Amount\<close> give. The state of an initialised destination is the pair
  of the hashes of its code and data cells.
\<close>

datatype msg_kind = InternalMsg | ExternalIn | ExternalOut

record message =
  MsgType :: msg_kind
  msg_ToCell :: "tvm_cell result"
  SenderAddr :: "ton_address option"
  DestAddr :: "ton_address option"
  Amount :: nat
  Payload :: "tvm_cell option"
  StateInit :: "(bytes option \<times> bytes option) option"

text \<open>What the library computes.\<close>

record ton_lib =
  ParseAddr :: "string \<Rightarrow> ton_address result"
  addr_String :: "ton_address \<Rightarrow> string"
  IsAddrNone :: "ton_address \<Rightarrow> bool"
  cell_Hash :: "tvm_cell \<Rightarrow> bytes"
  ToBOC :: "tvm_cell \<Rightarrow> bytes"
  FromBOC :: "bytes \<Rightarrow> tvm_cell result"
  BeginParse :: "tvm_cell \<Rightarrow> tvm_slice result"
  slice_ToCell :: "tvm_slice \<Rightarrow> tvm_cell result"
  LoadUInt :: "nat \<Rightarrow> tvm_slice \<Rightarrow> (nat \<times> tvm_slice) result"
  LoadRefCell :: "tvm_slice \<Rightarrow> (tvm_cell \<times> tvm_slice) result"
  cell_is_empty :: "tvm_cell \<Rightarrow> bool"
  LoadMessage :: "tvm_slice \<Rightarrow> message result"
  LoadExternalMessage :: "tvm_slice \<Rightarrow> message result"

text \<open>The phases of an ordinary transaction; other descriptions carry none.\<close>

datatype compute_phase =
    ComputeVM (cp_Success: bool) (cp_GasFees: nat) (cp_ExitCode: int) (cp_GasUsed: "nat option")
  | ComputeSkipped string
  | ComputeOther

record action_phase =
  ap_Success :: bool
  ap_ResultCode :: int
  ap_TotalFwdFees :: "nat option"
  ap_TotalActionFees :: "nat option"

record ordinary_desc =
  Aborted :: bool
  StoragePhase :: "nat option"
  ComputePhase :: compute_phase
  ActionPhase :: "action_phase option"

text \<open>\<open>tx_Out\<close> is \<open>None\<close> for a nil list and otherwise the result of \<open>ToSlice\<close>.\<close>

record transaction =
  tx_Hash :: bytes
  tx_LT :: nat
  tx_Now :: nat
  TotalFees :: nat
  PrevTxLT :: nat
  PrevTxHash :: bytes
  tx_In :: "message option"
  tx_Out :: "(message list) result option"
  Description :: "ordinary_desc option"

text \<open>\<open>AccState\<close> is \<open>None\<close> for a nil state; only a valid one carries a balance and a status.\<close>

record account_state =
  IsValid :: bool
  Balance :: nat
  Status :: string
  state_ToCell :: "tvm_cell result"

record account =
  AccState :: "account_state option"
  LastTxLT :: nat
  LastTxHash :: "bytes option"
  acc_Code :: "tvm_cell option"
  acc_Data :: "tvm_cell option"

end
