(* ===== verification/BridgeState.thy ===== *)
theory BridgeState
  imports RuntimeConfig JsonRpc NetGuard TonObjects
begin

text \<open>
  The shared state of wsbridge/bridge.go: WebSocket clients, the bridge's maps of peers,
  overlays and pending queries, the libraries it calls, and the effects a handler has. Handlers
  are functions from the state to the next state and the list of their effects, in order.
\<close>

section \<open>Objects of the libraries\<close>

text \<open>
  A peer is a reference; two peers are the same object when they are equal. \<open>GetID\<close> is the
  ADNL identity it reports. Overlay wrappers and managers are references as well, and \<open>None\<close>
  is the nil wrapper.
\<close>

datatype peer = Peer (peer_ref: nat) (GetID: bytes)

type_synonym client_ref = nat
type_synonym manager_ref = nat
type_synonym overlay_ref = "nat option"

text \<open>A TL object: the raw message of the bridge by value or pointer, or any other type.\<close>

datatype tl_obj = RawMessage bytes | RawMessagePtr "bytes option" | TLObj nat

record tl_lib =
  tl_Parse :: "bytes \<Rightarrow> (tl_obj \<times> bytes) result"
  tl_Serialize :: "tl_obj \<Rightarrow> bytes result"
  tl_HashKey :: "bytes \<Rightarrow> bytes result"

text \<open>A node of \<open>GetRandomPeers\<close>: its Ed25519 key when it has one, its hash and its overlay.\<close>

record overlay_node =
  node_key :: "bytes option"
  node_hash :: "bytes result"
  node_overlay :: bytes

text \<open>
  The answers of the network to the calls of one handler run. \<open>RegisterClient\<close> may invoke the
  connection handler of the gateway with a peer and then decides, from the handler's error, what
  it returns; the number counts the attempts of the run. \<open>incoming\<close> are the connections that
  the gateway accepts while the handler waits in its call of that number.
\<close>

record net =
  RegisterClient :: "nat \<Rightarrow> string \<Rightarrow> bytes \<Rightarrow> peer option \<times> (goerr option \<Rightarrow> peer result)"
  incoming :: "nat \<Rightarrow> peer list"
  Ping :: "nat \<Rightarrow> peer \<Rightarrow> int result"
  GetCloserErr :: "peer \<Rightarrow> goerr option"
  RemoteAddr :: "peer \<Rightarrow> string"
  FindAddresses :: "bytes \<Rightarrow> (adnl_addr list \<times> bytes) result"
  SendCustomMessage :: "peer \<Rightarrow> tl_obj \<Rightarrow> goerr option"
  Query :: "peer \<Rightarrow> tl_obj \<Rightarrow> int \<Rightarrow> (tl_obj option) result"
  Answer :: "peer \<Rightarrow> bytes \<Rightarrow> tl_obj \<Rightarrow> goerr option"
  CreateExtendedADNL :: "peer \<Rightarrow> manager_ref"
  NewBroadcastReceiver :: "bytes \<Rightarrow> nat result"
  AttachOverlay :: "manager_ref \<Rightarrow> nat \<Rightarrow> overlay_ref result"
  GetRandomPeers :: "overlay_ref \<Rightarrow> (overlay_node list) result"
  ow_SendCustomMessage :: "overlay_ref \<Rightarrow> tl_obj \<Rightarrow> goerr option"
  ow_Query :: "overlay_ref \<Rightarrow> tl_obj \<Rightarrow> int \<Rightarrow> (tl_obj option) result"
  NewBroadcastFECSender :: "tl_obj \<Rightarrow> bytes result"
  NewBroadcastFECBroadcaster :: "bytes \<Rightarrow> overlay_ref \<Rightarrow> unit result"

section \<open>Effects\<close>

text \<open>An overlay node as it is published in the DHT.\<close>

record signed_node =
  sn_ID :: bytes
  sn_Overlay :: bytes
  sn_Version :: int
  sn_Signature :: bytes

text \<open>What leaves the bridge: frames to clients and calls into the network libraries.\<close>

datatype effect =
    Reply client_ref string reply
  | Event client_ref string json
  | ClosePeer peer
  | CloseOverlay nat
  | CloseReceiver nat
  | InstallHandlers manager_ref peer
  | PingPeer peer
  | SendTo peer tl_obj
  | QueryTo peer tl_obj int
  | AnswerTo peer bytes tl_obj
  | SendOverlay overlay_ref tl_obj
  | QueryOverlay overlay_ref tl_obj int
  | BroadcastOverlay overlay_ref bytes
  | DialTo string
  | SubmitBOC bytes
  | SubmitMessage message
  | StoreAddress "adnl_addr list" int
  | StoreOverlayNodes bytes "signed_node list" int

text \<open>The clients that receive a frame.\<close>

fun addressee :: "effect \<Rightarrow> client_ref option" where
  "addressee (Reply c _ _) = Some c"
| "addressee (Event c _ _) = Some c"
| "addressee _ = None"

fun contacted :: "effect \<Rightarrow> peer option" where
  "contacted (PingPeer p) = Some p"
| "contacted (SendTo p _) = Some p"
| "contacted (QueryTo p _ _) = Some p"
| "contacted (AnswerTo p _ _) = Some p"
| "contacted (ClosePeer p) = Some p"
| "contacted _ = None"

section \<open>Clients and the bridge\<close>

text \<open>
  \<open>inflight\<close> and \<open>broadcasts\<close> count the tokens in the two semaphore channels, whose capacities
  are the in-flight limit and \<open>maxConcurrentOverlayBroadcasts\<close>. A cancel function is the
  number of the context it cancels.
\<close>

record wsClient =
  peers :: "string list"
  overlays :: "string list"
  activeSubs :: int
  subscriptions :: "(string, nat) gomap"
  subCounter :: nat
  inflight :: nat
  broadcasts :: nat
  ctx_done :: bool

text \<open>A closure that \<open>adnl.setQueryHandler\<close> installs: what it captures.\<close>

record query_handler =
  qh_peerHex :: string
  qh_peer :: peer
  qh_client :: client_ref

record pendingQuery =
  pq_peer :: peer
  pq_owner :: "client_ref option"
  pq_deadline :: int

record WSBridge =
  cfg :: BridgeConfig
  clients :: "(client_ref, bool) gomap"
  heap :: "client_ref \<Rightarrow> wsClient"
  activePeers :: "(string, peer) gomap"
  peerWrappers :: "(string, manager_ref) gomap"
  peerOwners :: "(string, client_ref option) gomap"
  peerQueries :: "(string, query_handler) gomap"
  activeOverlays :: "(string, overlay_ref) gomap"
  pendingQueries :: "(string, pendingQuery) gomap"
  overlayToPeer :: "(string, string) gomap"

type_synonym outcome = "WSBridge \<times> effect list"

definition maxPendingQueryTTL :: int where
  "maxPendingQueryTTL = 30 * second"

definition pendingQuerySweepInterval :: int where
  "pendingQuerySweepInterval = 10 * second"

definition maxOverlayBroadcastSize :: nat where
  "maxOverlayBroadcastSize = 2 ^ 20"

definition maxOverlayQuerySize :: nat where
  "maxOverlayQuerySize = 8 * 1024 - 128"

definition maxConcurrentOverlayBroadcasts :: nat where
  "maxConcurrentOverlayBroadcasts = 4"

definition new_client :: wsClient where
  "new_client = \<lparr>peers = [], overlays = [], activeSubs = 0, subscriptions = gm_empty,
     subCounter = 0, inflight = 0, broadcasts = 0, ctx_done = False\<rparr>"

definition NewWSBridge :: "BridgeConfig option \<Rightarrow> WSBridge" where
  "NewWSBridge c =
     \<lparr>cfg = (case c of None \<Rightarrow> DefaultBridgeConfig | Some x \<Rightarrow> x),
      clients = gm_empty, heap = (\<lambda>_. new_client),
      activePeers = gm_empty, peerWrappers = gm_empty, peerOwners = gm_empty,
      peerQueries = gm_empty, activeOverlays = gm_empty, pendingQueries = gm_empty,
      overlayToPeer = gm_empty\<rparr>"

text \<open>Assigning a field of a client object.\<close>

definition upd_client :: "client_ref \<Rightarrow> (wsClient \<Rightarrow> wsClient) \<Rightarrow> WSBridge \<Rightarrow> WSBridge" where
  "upd_client c f b = b\<lparr>heap := (heap b)(c := f (heap b c))\<rparr>"

lemma upd_client_simps [simp]:
  "cfg (upd_client c f b) = cfg b" "clients (upd_client c f b) = clients b"
  "activePeers (upd_client c f b) = activePeers b" "peerWrappers (upd_client c f b) = peerWrappers b"
  "peerOwners (upd_client c f b) = peerOwners b" "peerQueries (upd_client c f b) = peerQueries b"
  "activeOverlays (upd_client c f b) = activeOverlays b"
  "pendingQueries (upd_client c f b) = pendingQueries b"
  "overlayToPeer (upd_client c f b) = overlayToPeer b"
  "heap (upd_client c f b) = (heap b)(c := f (heap b c))"
  by (simp_all add: upd_client_def)

text \<open>The owner of a peer, \<open>None\<close> for an unknown peer as for an incoming one.\<close>

definition owner_of :: "WSBridge \<Rightarrow> string \<Rightarrow> client_ref option" where
  "owner_of b k = (case gm_get (peerOwners b) k of None \<Rightarrow> None | Some c \<Rightarrow> c)"

section \<open>Frames\<close>

definition sendEvent :: "client_ref \<Rightarrow> string \<Rightarrow> json \<Rightarrow> effect list" where
  "sendEvent c event data = [Event c event data]"

definition broadcastToClients :: "WSBridge \<Rightarrow> string \<Rightarrow> json \<Rightarrow> effect list" where
  "broadcastToClients b event data =
     map (\<lambda>(c, _). Event c event data) (gm_entries (clients b))"

lemma broadcast_iff:
  "e \<in> set (broadcastToClients b n j) \<longleftrightarrow> (\<exists>c. e = Event c n j \<and> gm_get (clients b) c \<noteq> None)"
proof
  assume "e \<in> set (broadcastToClients b n j)"
  then obtain c v where "(c, v) \<in> set (gm_entries (clients b))" "e = Event c n j"
    by (auto simp: broadcastToClients_def)
  then show "\<exists>c. e = Event c n j \<and> gm_get (clients b) c \<noteq> None"
    by (auto simp: gm_entries_get)
next
  assume "\<exists>c. e = Event c n j \<and> gm_get (clients b) c \<noteq> None"
  then obtain c v where "gm_get (clients b) c = Some v" and e: "e = Event c n j" by auto
  then have "(c, v) \<in> set (gm_entries (clients b))" by (simp add: gm_entries_get)
  then show "e \<in> set (broadcastToClients b n j)" by (force simp: broadcastToClients_def e)
qed

definition notify_owner :: "WSBridge \<Rightarrow> client_ref option \<Rightarrow> string \<Rightarrow> json \<Rightarrow> effect list" where
  "notify_owner b ow event data =
     (case ow of Some c \<Rightarrow> sendEvent c event data | None \<Rightarrow> broadcastToClients b event data)"

section \<open>Early returns\<close>

text \<open>
  The checks at the head of a handler either end in a reply or give the values the rest of the
  handler works with. \<open>attempt\<close> is Go's \<open>x, err := f(); if err != nil { sendError; return }\<close>,
  \<open>require\<close> is \<open>if !p { sendError; return }\<close>.
\<close>

type_synonym 'a checked = "reply + 'a"

definition attempt :: "'a result \<Rightarrow> (goerr \<Rightarrow> reply) \<Rightarrow> ('a \<Rightarrow> 'b checked) \<Rightarrow> 'b checked" where
  "attempt r f k = (case r of Inl e \<Rightarrow> Inl (f e) | Inr x \<Rightarrow> k x)"

definition require :: "bool \<Rightarrow> reply \<Rightarrow> 'b checked \<Rightarrow> 'b checked" where
  "require p e k = (if p then k else Inl e)"

definition present :: "'a option \<Rightarrow> reply \<Rightarrow> ('a \<Rightarrow> 'b checked) \<Rightarrow> 'b checked" where
  "present x e k = (case x of None \<Rightarrow> Inl e | Some y \<Rightarrow> k y)"

text \<open>A handler: its checks, then its action; a failed check replies and changes nothing.\<close>

definition handler ::
  "client_ref \<Rightarrow> WSRequest \<Rightarrow> WSBridge \<Rightarrow> 'a checked \<Rightarrow> ('a \<Rightarrow> outcome) \<Rightarrow> outcome" where
  "handler c req b checks act =
     (case checks of
        Inl r \<Rightarrow> (b, [Reply c (req_id req) r])
      | Inr x \<Rightarrow> act x)"

lemma attempt_simps [simp]: "attempt (Inl e) f k = Inl (f e)" "attempt (Inr x) f k = k x"
  by (simp_all add: attempt_def)

lemma require_simps [simp]: "require True e k = k" "require False e k = Inl e"
  by (simp_all add: require_def)

lemma present_simps [simp]: "present None e k = Inl e" "present (Some x) e k = k x"
  by (simp_all add: present_def)

lemma attempt_passes: "attempt r f k = Inr x \<longleftrightarrow> (\<exists>y. r = Inr y \<and> k y = Inr x)"
  by (cases r) auto

lemma require_passes: "require p e k = Inr x \<longleftrightarrow> p \<and> k = Inr x"
  by (simp add: require_def)

lemma present_passes: "present y e k = Inr x \<longleftrightarrow> (\<exists>z. y = Some z \<and> k z = Inr x)"
  by (cases y) auto

lemmas passes = attempt_passes require_passes present_passes

lemma handler_simps [simp]:
  "handler c req b (Inl r) act = (b, [Reply c (req_id req) r])"
  "handler c req b (Inr x) act = act x"
  by (simp_all add: handler_def)

lemma handler_cases:
  obtains (failed) r where "checks = Inl r" "handler c req b checks act = (b, [Reply c (req_id req) r])"
  | (passed) x where "checks = Inr x" "handler c req b checks act = act x"
  by (cases checks) auto

section \<open>Payloads (helpers.go)\<close>

definition parseBoxedTL :: "tl_lib \<Rightarrow> bytes \<Rightarrow> tl_obj result" where
  "parseBoxedTL tlib data =
     (if data = [] then Inl ErrTLEmpty
      else (case tl_Parse tlib data of
              Inl e \<Rightarrow> Inl e
            | Inr (obj, rest) \<Rightarrow> if rest \<noteq> [] then Inl ErrTLTrailing else Inr obj))"

definition parseRPCPayload :: "tl_lib \<Rightarrow> bytes \<Rightarrow> bool \<Rightarrow> tl_obj result" where
  "parseRPCPayload tlib data raw = (if raw then Inr (RawMessage data) else parseBoxedTL tlib data)"

definition serializeRPCPayload :: "tl_lib \<Rightarrow> tl_obj \<Rightarrow> bool \<Rightarrow> bytes result" where
  "serializeRPCPayload tlib res raw =
     (if raw then
        (case res of
           RawMessage d \<Rightarrow> Inr d
         | RawMessagePtr None \<Rightarrow> Inr []
         | RawMessagePtr (Some d) \<Rightarrow> Inr d
         | TLObj _ \<Rightarrow> tl_Serialize tlib res)
      else tl_Serialize tlib res)"

text \<open>The type switch with which a received message becomes bytes.\<close>

definition message_bytes :: "tl_lib \<Rightarrow> tl_obj \<Rightarrow> bytes result" where
  "message_bytes tlib v = (case v of RawMessage d \<Rightarrow> Inr d | _ \<Rightarrow> tl_Serialize tlib v)"

text \<open>A raw payload survives the trip through the bridge whatever the TL library does.\<close>

lemma raw_payload_roundtrip:
  "parseRPCPayload tlib data True = Inr obj \<Longrightarrow> serializeRPCPayload tlib obj True = Inr data"
  by (auto simp: parseRPCPayload_def serializeRPCPayload_def)

end
