(* ===== verification/PeerLifecycle.thy ===== *)
theory PeerLifecycle
  imports BridgeState
begin

text \<open>
  The lifecycle of peers in wsbridge/adnl.go and of overlay wrappers in wsbridge/overlay.go:
  installing and detaching a peer, the gateway's connection handler, and the handlers that the
  network library calls for a peer (custom messages, queries, disconnection).
\<close>

section \<open>Ownership\<close>

definition clientOwnsPeer :: "WSBridge \<Rightarrow> client_ref \<Rightarrow> string \<Rightarrow> bool" where
  "clientOwnsPeer b c k \<longleftrightarrow> k \<in> set (peers (heap b c))"

definition clientOwnsOverlay :: "WSBridge \<Rightarrow> client_ref \<Rightarrow> string \<Rightarrow> bool" where
  "clientOwnsOverlay b c k \<longleftrightarrow> k \<in> set (overlays (heap b c))"

definition addClientPeer :: "client_ref \<Rightarrow> string \<Rightarrow> WSBridge \<Rightarrow> WSBridge" where
  "addClientPeer c k b =
     (if k \<in> set (peers (heap b c)) then b
      else upd_client c (\<lambda>w. w\<lparr>peers := peers w @ [k]\<rparr>) b)"

definition closeOverlay :: "overlay_ref \<Rightarrow> effect list" where
  "closeOverlay ow = (case ow of None \<Rightarrow> [] | Some w \<Rightarrow> [CloseOverlay w, CloseReceiver w])"

section \<open>Installing\<close>

text \<open>The result is the new state, the effects and the returned error.\<close>

definition installPeer ::
  "net \<Rightarrow> peer \<Rightarrow> client_ref option \<Rightarrow> WSBridge \<Rightarrow> outcome \<times> goerr option" where
  "installPeer net p owner b =
     (let k = hex_encode (GetID p) in
      case gm_get (activePeers b) k of
        Some current \<Rightarrow>
          if current \<noteq> p then ((b, []), Some ErrPeerReplacement)
          else
            (let currentOwner = owner_of b k in
             if owner \<noteq> None \<and> currentOwner \<noteq> None \<and> currentOwner \<noteq> owner
             then ((b, []), Some ErrPeerOwned)
             else if owner \<noteq> None
             then ((b\<lparr>peerOwners := gm_put k owner (peerOwners b)\<rparr>, []), None)
             else ((b, []), None))
      | None \<Rightarrow>
          (let m = CreateExtendedADNL net p in
           case GetCloserErr net p of
             Some e \<Rightarrow> ((b, [InstallHandlers m p]), Some (ErrPeerClosed e))
           | None \<Rightarrow>
               ((b\<lparr>activePeers := gm_put k p (activePeers b),
                   peerWrappers := gm_put k m (peerWrappers b),
                   peerOwners := gm_put k owner (peerOwners b)\<rparr>,
                 [InstallHandlers m p]), None)))"

text \<open>The JSON fields of a peer in events and replies.\<close>

definition jpeer_id :: "peer \<Rightarrow> json" where
  "jpeer_id p = jbytes (GetID p)"

text \<open>The connection handler that \<open>NewWSBridge\<close> registers on the gateway.\<close>

definition connectionHandler :: "net \<Rightarrow> peer \<Rightarrow> WSBridge \<Rightarrow> outcome \<times> goerr option" where
  "connectionHandler net p b =
     (case installPeer net p None b of
        (o1, Some e) \<Rightarrow> (o1, Some e)
      | ((b', es), None) \<Rightarrow>
          ((b', es @ broadcastToClients b' ''adnl.incomingConnection''
              (JObj [(''peer_id'', jpeer_id p), (''remote_addr'', JStr (RemoteAddr net p))])), None))"

text \<open>Connections the gateway accepts while a handler holds the lifecycle lock.\<close>

fun acceptAll :: "net \<Rightarrow> peer list \<Rightarrow> outcome \<Rightarrow> outcome" where
  "acceptAll net [] st = st"
| "acceptAll net (p # ps) (b, es) =
     (case connectionHandler net p b of ((b', es'), _) \<Rightarrow> acceptAll net ps (b', es @ es'))"

section \<open>Detaching\<close>

text \<open>
  \<open>None\<close> as the last component is the result \<open>(nil, false)\<close>; \<open>Some owner\<close> is a removal. The
  code reads the map again before the final deletions and so does the model.
\<close>

definition drop_owned :: "string \<Rightarrow> string list \<Rightarrow> client_ref option \<Rightarrow> WSBridge \<Rightarrow> WSBridge" where
  "drop_owned k overlayIDs owner b =
     (case owner of
        None \<Rightarrow> b
      | Some c \<Rightarrow>
          upd_client c (\<lambda>w. w\<lparr>peers := filter (\<lambda>x. x \<noteq> k) (peers w),
                              overlays := filter (\<lambda>x. x \<notin> set overlayIDs) (overlays w)\<rparr>) b)"

definition detachPeerLocked ::
  "string \<Rightarrow> peer \<Rightarrow> WSBridge \<Rightarrow> outcome \<times> client_ref option option" where
  "detachPeerLocked k expected b =
     (if gm_get (activePeers b) k \<noteq> Some expected then ((b, []), None)
      else
       (let owner = owner_of b k;
            overlayIDs = gm_keys_where (\<lambda>_ pk. pk = k) (overlayToPeer b);
            b1 = b\<lparr>overlayToPeer := gm_del_all overlayIDs (overlayToPeer b)\<rparr>;
            ows = List.map_filter (gm_get (activeOverlays b1)) overlayIDs;
            b2 = b1\<lparr>activeOverlays := gm_del_all overlayIDs (activeOverlays b1)\<rparr>;
            b3 = b2\<lparr>pendingQueries := gm_filter (\<lambda>_ q. pq_peer q \<noteq> expected) (pendingQueries b2)\<rparr>;
            b4 = drop_owned k overlayIDs owner b3;
            es = concat (map closeOverlay ows)
        in if gm_get (activePeers b4) k \<noteq> Some expected then ((b4, es), None)
           else ((b4\<lparr>activePeers := gm_del k (activePeers b4),
                     peerWrappers := gm_del k (peerWrappers b4),
                     peerOwners := gm_del k (peerOwners b4),
                     peerQueries := gm_del k (peerQueries b4)\<rparr>, es), Some owner)))"

section \<open>The handlers of a peer\<close>

definition peerCustomHandler :: "tl_lib \<Rightarrow> peer \<Rightarrow> tl_obj \<Rightarrow> WSBridge \<Rightarrow> outcome" where
  "peerCustomHandler tlib p msg b =
     (let k = hex_encode (GetID p) in
      if gm_get (activePeers b) k \<noteq> Some p then (b, [])
      else
       (case message_bytes tlib msg of
          Inl _ \<Rightarrow> (b, [])
        | Inr d \<Rightarrow>
            (b, notify_owner b (owner_of b k) ''adnl.message''
                  (JObj [(''from'', jpeer_id p), (''message'', jbytes d)]))))"

text \<open>The closure installed by \<open>adnl.setQueryHandler\<close>, run for a query with this ID.\<close>

definition run_query_handler ::
  "tl_lib \<Rightarrow> int \<Rightarrow> query_handler \<Rightarrow> bytes \<Rightarrow> tl_obj \<Rightarrow> WSBridge \<Rightarrow> outcome" where
  "run_query_handler tlib now h qid msg b =
     (let queryID = hex_encode qid; raw = (case msg of RawMessage _ \<Rightarrow> True | _ \<Rightarrow> False) in
      case message_bytes tlib msg of
        Inl _ \<Rightarrow> (b, [])
      | Inr d \<Rightarrow>
          if gm_get (activePeers b) (qh_peerHex h) \<noteq> Some (qh_peer h) then (b, [])
          else
            (b\<lparr>pendingQueries := gm_put queryID
                 \<lparr>pq_peer = qh_peer h, pq_owner = Some (qh_client h),
                  pq_deadline = now + maxPendingQueryTTL\<rparr> (pendingQueries b)\<rparr>,
             sendEvent (qh_client h) ''adnl.queryReceived''
               (JObj [(''peer_id'', jpeer_id (qh_peer h)), (''query_id'', JStr queryID),
                      (''data'', jbytes d), (''raw'', JBool raw)])))"

definition peerQueryHandler ::
  "tl_lib \<Rightarrow> int \<Rightarrow> peer \<Rightarrow> bytes \<Rightarrow> tl_obj \<Rightarrow> WSBridge \<Rightarrow> outcome" where
  "peerQueryHandler tlib now p qid msg b =
     (let k = hex_encode (GetID p) in
      if gm_get (activePeers b) k \<noteq> Some p then (b, [])
      else (case gm_get (peerQueries b) k of
              None \<Rightarrow> (b, [])
            | Some h \<Rightarrow> run_query_handler tlib now h qid msg b))"

definition peerDisconnectHandler :: "peer \<Rightarrow> WSBridge \<Rightarrow> outcome" where
  "peerDisconnectHandler p b =
     (case detachPeerLocked (hex_encode (GetID p)) p b of
        ((b', es), None) \<Rightarrow> (b', es)
      | ((b', es), Some owner) \<Rightarrow>
          (b', es @ notify_owner b' owner ''adnl.disconnected'' (JObj [(''peer'', jpeer_id p)])))"

section \<open>Client teardown\<close>

text \<open>
  The deferred cleanups of \<open>handleWS\<close>, in the order they run: the peers of the client, then its
  overlays, then its entry in the client map.
\<close>

fun closePeers :: "string list \<Rightarrow> outcome \<Rightarrow> outcome" where
  "closePeers [] st = st"
| "closePeers (k # ks) (b, es) =
     (case gm_get (activePeers b) k of
        None \<Rightarrow> closePeers ks (b, es)
      | Some p \<Rightarrow>
          (case detachPeerLocked k p b of
             ((b', es'), None) \<Rightarrow> closePeers ks (b', es @ es')
           | ((b', es'), Some _) \<Rightarrow> closePeers ks (b', es @ es' @ [ClosePeer p])))"

definition cleanupPeers :: "client_ref \<Rightarrow> WSBridge \<Rightarrow> outcome" where
  "cleanupPeers c b =
     closePeers (peers (heap b c)) (upd_client c (\<lambda>w. w\<lparr>peers := []\<rparr>) b, [])"

fun closeOverlays :: "string list \<Rightarrow> outcome \<Rightarrow> outcome" where
  "closeOverlays [] st = st"
| "closeOverlays (o1 # os) (b, es) =
     (let ow = gm_get (activeOverlays b) o1;
          b' = b\<lparr>activeOverlays := gm_del o1 (activeOverlays b),
                 overlayToPeer := gm_del o1 (overlayToPeer b)\<rparr>
      in closeOverlays os (b', es @ (case ow of None \<Rightarrow> [] | Some w \<Rightarrow> closeOverlay w)))"

definition cleanupOverlays :: "client_ref \<Rightarrow> WSBridge \<Rightarrow> outcome" where
  "cleanupOverlays c b =
     closeOverlays (overlays (heap b c)) (upd_client c (\<lambda>w. w\<lparr>overlays := []\<rparr>) b, [])"

definition disconnectClient :: "client_ref \<Rightarrow> WSBridge \<Rightarrow> outcome" where
  "disconnectClient c b =
     (let b0 = upd_client c (\<lambda>w. w\<lparr>ctx_done := True\<rparr>) b;
          (b1, e1) = cleanupPeers c b0;
          (b2, e2) = cleanupOverlays c b1
      in (b2\<lparr>clients := gm_del c (clients b2)\<rparr>, e1 @ e2))"

end
