(* ===== verification/BridgeInv.thy ===== *)
theory BridgeInv
  imports PeerLifecycle
begin

text \<open>
  The invariant that ties the maps of the bridge together, and its preservation by the
  lifecycle operations. \<open>orphans c\<close> are the peers that client \<open>c\<close> still owns in the peer map
  while its teardown has already cleared its own list; it is empty between handler steps.
\<close>

section \<open>The invariant\<close>

definition maps_inv :: "WSBridge \<Rightarrow> bool" where
  "maps_inv b \<longleftrightarrow>
     (\<forall>k p. gm_get (activePeers b) k = Some p \<longrightarrow> k = hex_encode (GetID p)) \<and>
     (\<forall>k. gm_get (peerWrappers b) k = None \<longleftrightarrow> gm_get (activePeers b) k = None) \<and>
     (\<forall>k. gm_get (peerOwners b) k = None \<longleftrightarrow> gm_get (activePeers b) k = None) \<and>
     (\<forall>k h. gm_get (peerQueries b) k = Some h \<longrightarrow>
        qh_peerHex h = k \<and> gm_get (activePeers b) k = Some (qh_peer h) \<and>
        owner_of b k = Some (qh_client h))"

definition owners_inv :: "(client_ref \<Rightarrow> string set) \<Rightarrow> WSBridge \<Rightarrow> bool" where
  "owners_inv orphans b \<longleftrightarrow>
     (\<forall>k c. owner_of b k = Some c \<longleftrightarrow> k \<in> set (peers (heap b c)) \<union> orphans c) \<and>
     (\<forall>c. distinct (peers (heap b c)) \<and> distinct (overlays (heap b c))) \<and>
     (\<forall>c. gm_get (clients b) c = None \<longrightarrow> peers (heap b c) = [])"

definition overlays_inv :: "WSBridge \<Rightarrow> bool" where
  "overlays_inv b \<longleftrightarrow>
     (\<forall>ov. gm_get (activeOverlays b) ov = None \<longleftrightarrow> gm_get (overlayToPeer b) ov = None) \<and>
     (\<forall>ov k. gm_get (overlayToPeer b) ov = Some k \<longrightarrow> owner_of b k \<noteq> None) \<and>
     (\<forall>ov c. ov \<in> set (overlays (heap b c)) \<longleftrightarrow>
        (\<exists>k. gm_get (overlayToPeer b) ov = Some k \<and> owner_of b k = Some c))"

definition pending_inv :: "WSBridge \<Rightarrow> bool" where
  "pending_inv b \<longleftrightarrow>
     (\<forall>q pq. gm_get (pendingQueries b) q = Some pq \<longrightarrow>
        gm_get (activePeers b) (hex_encode (GetID (pq_peer pq))) = Some (pq_peer pq))"

definition limits_inv :: "WSBridge \<Rightarrow> bool" where
  "limits_inv b \<longleftrightarrow>
     (\<forall>c. int (length (peers (heap b c))) \<le> max 0 (MaxPeers (ADNL (Namespaces (cfg b)))) \<and>
          int (length (overlays (heap b c))) \<le> max 0 (MaxOverlays (Overlay (Namespaces (cfg b)))))"

definition bridge_inv_orph :: "(client_ref \<Rightarrow> string set) \<Rightarrow> WSBridge \<Rightarrow> bool" where
  "bridge_inv_orph orphans b \<longleftrightarrow>
     maps_inv b \<and> owners_inv orphans b \<and> overlays_inv b \<and> pending_inv b \<and> limits_inv b"

definition bridge_inv :: "WSBridge \<Rightarrow> bool" where
  "bridge_inv b \<longleftrightarrow> bridge_inv_orph (\<lambda>_. {}) b"

lemmas inv_parts = maps_inv_def owners_inv_def overlays_inv_def pending_inv_def limits_inv_def

lemma bridge_inv_unfold:
  "bridge_inv b \<longleftrightarrow>
     maps_inv b \<and> owners_inv (\<lambda>_. {}) b \<and> overlays_inv b \<and> pending_inv b \<and> limits_inv b"
  by (simp add: bridge_inv_def bridge_inv_orph_def)

lemma bridge_inv_init: "bridge_inv (NewWSBridge c)"
  by (simp add: bridge_inv_unfold inv_parts NewWSBridge_def new_client_def owner_of_def)

section \<open>What the invariant gives\<close>

lemma inv_key: "bridge_inv_orph O' b \<Longrightarrow> gm_get (activePeers b) k = Some p \<Longrightarrow> k = hex_encode (GetID p)"
  by (simp add: bridge_inv_orph_def maps_inv_def)

lemma inv_owner:
  "bridge_inv b \<Longrightarrow> owner_of b k = Some c \<longleftrightarrow> k \<in> set (peers (heap b c))"
  by (simp add: bridge_inv_unfold owners_inv_def)

lemma inv_owns: "bridge_inv b \<Longrightarrow> clientOwnsPeer b c k \<longleftrightarrow> owner_of b k = Some c"
  by (simp add: clientOwnsPeer_def inv_owner)

lemma inv_orph_owner_active:
  assumes "bridge_inv_orph orph b" and "owner_of b k = Some c"
  shows "gm_get (activePeers b) k \<noteq> None"
proof -
  have "gm_get (peerOwners b) k \<noteq> None"
    using assms(2) by (auto simp: owner_of_def split: option.splits)
  moreover have "gm_get (peerOwners b) k = None \<longleftrightarrow> gm_get (activePeers b) k = None"
    using assms(1) by (simp add: bridge_inv_orph_def maps_inv_def)
  ultimately show ?thesis by (simp only: not_False_eq_True)
qed

lemma inv_owner_active:
  "bridge_inv b \<Longrightarrow> owner_of b k = Some c \<Longrightarrow> gm_get (activePeers b) k \<noteq> None"
  unfolding bridge_inv_def by (rule inv_orph_owner_active)

lemma inv_owns_overlay:
  "bridge_inv b \<Longrightarrow> clientOwnsOverlay b c ov \<longleftrightarrow>
     (\<exists>k. gm_get (overlayToPeer b) ov = Some k \<and> owner_of b k = Some c)"
  by (simp add: clientOwnsOverlay_def bridge_inv_unfold overlays_inv_def)

lemma inv_attached:
  assumes "bridge_inv b" and "gm_get (overlayToPeer b) ov = Some k"
  obtains c where "owner_of b k = Some c"
proof -
  from assms have "owner_of b k \<noteq> None" unfolding bridge_inv_unfold overlays_inv_def by blast
  then show thesis using that by blast
qed

text \<open>No two clients own the same peer, and none own the same overlay.\<close>

lemma peer_owner_unique:
  "bridge_inv b \<Longrightarrow> clientOwnsPeer b c k \<Longrightarrow> clientOwnsPeer b c' k \<Longrightarrow> c = c'"
  by (simp add: inv_owns)

lemma overlay_owner_unique:
  "bridge_inv b \<Longrightarrow> clientOwnsOverlay b c ov \<Longrightarrow> clientOwnsOverlay b c' ov \<Longrightarrow> c = c'"
  by (auto simp: inv_owns_overlay)

section \<open>Detaching\<close>

text \<open>The state after a removal, read through each map.\<close>

definition detached :: "string \<Rightarrow> peer \<Rightarrow> WSBridge \<Rightarrow> WSBridge" where
  "detached k p b = fst (fst (detachPeerLocked k p b))"

lemma detach_stale:
  "gm_get (activePeers b) k \<noteq> Some p \<Longrightarrow> detachPeerLocked k p b = ((b, []), None)"
  by (simp add: detachPeerLocked_def)

lemma drop_owned_simps [simp]:
  "activePeers (drop_owned k ovs ow b) = activePeers b"
  "peerWrappers (drop_owned k ovs ow b) = peerWrappers b"
  "peerOwners (drop_owned k ovs ow b) = peerOwners b"
  "peerQueries (drop_owned k ovs ow b) = peerQueries b"
  "activeOverlays (drop_owned k ovs ow b) = activeOverlays b"
  "overlayToPeer (drop_owned k ovs ow b) = overlayToPeer b"
  "pendingQueries (drop_owned k ovs ow b) = pendingQueries b"
  "clients (drop_owned k ovs ow b) = clients b"
  "cfg (drop_owned k ovs ow b) = cfg b"
  by (simp_all add: drop_owned_def split: option.split)

lemma detach_removes:
  "gm_get (activePeers b) k = Some p \<Longrightarrow> snd (detachPeerLocked k p b) = Some (owner_of b k)"
  by (simp add: detachPeerLocked_def Let_def)

lemma detached_maps:
  assumes "gm_get (activePeers b) k = Some p"
  shows "gm_get (activePeers (detached k p b)) x = (if x = k then None else gm_get (activePeers b) x)"
    and "gm_get (peerWrappers (detached k p b)) x = (if x = k then None else gm_get (peerWrappers b) x)"
    and "gm_get (peerOwners (detached k p b)) x = (if x = k then None else gm_get (peerOwners b) x)"
    and "gm_get (peerQueries (detached k p b)) x = (if x = k then None else gm_get (peerQueries b) x)"
    and "gm_get (overlayToPeer (detached k p b)) ov =
      (if gm_get (overlayToPeer b) ov = Some k then None else gm_get (overlayToPeer b) ov)"
    and "gm_get (activeOverlays (detached k p b)) ov =
      (if gm_get (overlayToPeer b) ov = Some k then None else gm_get (activeOverlays b) ov)"
    and "gm_get (pendingQueries (detached k p b)) q =
      (case gm_get (pendingQueries b) q of None \<Rightarrow> None
       | Some pq \<Rightarrow> if pq_peer pq \<noteq> p then Some pq else None)"
    and "clients (detached k p b) = clients b" and "cfg (detached k p b) = cfg b"
  using assms by (simp_all add: detached_def detachPeerLocked_def Let_def gomap_simps)

lemma detached_owner:
  "gm_get (activePeers b) k = Some p \<Longrightarrow>
   owner_of (detached k p b) x = (if x = k then None else owner_of b x)"
  by (simp add: owner_of_def detached_maps)

lemma detached_heap:
  "gm_get (activePeers b) k = Some p \<Longrightarrow>
   heap (detached k p b) c =
     (if owner_of b k = Some c
      then (heap b c)\<lparr>peers := filter (\<lambda>x. x \<noteq> k) (peers (heap b c)),
                      overlays := filter (\<lambda>ov. gm_get (overlayToPeer b) ov \<noteq> Some k) (overlays (heap b c))\<rparr>
      else heap b c)"
  by (auto simp: detached_def detachPeerLocked_def drop_owned_def Let_def gomap_simps
      split: option.splits)

lemma detached_inv_orph:
  assumes inv: "bridge_inv_orph orph b" and act: "gm_get (activePeers b) k = Some p"
  shows "bridge_inv_orph (\<lambda>c. orph c - {k}) (detached k p b)"
proof -
  note d = detached_maps [OF act] detached_owner [OF act] detached_heap [OF act]
  have m: "maps_inv b" and o: "owners_inv orph b" and v: "overlays_inv b" and q: "pending_inv b"
    and l: "limits_inv b"
    using inv by (simp_all add: bridge_inv_orph_def)
  have "maps_inv (detached k p b)"
    using m unfolding maps_inv_def d by simp
  moreover have "owners_inv (\<lambda>c. orph c - {k}) (detached k p b)"
    using o unfolding owners_inv_def d by auto
  moreover have "overlays_inv (detached k p b)"
    using v unfolding overlays_inv_def d by auto
  moreover have "pending_inv (detached k p b)"
    unfolding pending_inv_def d
  proof (intro allI impI)
    fix q pq
    assume "(case gm_get (pendingQueries b) q of None \<Rightarrow> None
      | Some pq \<Rightarrow> if pq_peer pq \<noteq> p then Some pq else None) = Some pq"
    then have "gm_get (pendingQueries b) q = Some pq" and ne: "pq_peer pq \<noteq> p"
      by (auto split: option.splits if_splits)
    with q have "gm_get (activePeers b) (hex_encode (GetID (pq_peer pq))) = Some (pq_peer pq)"
      by (simp add: pending_inv_def)
    with act ne show "(if hex_encode (GetID (pq_peer pq)) = k then None
      else gm_get (activePeers b) (hex_encode (GetID (pq_peer pq)))) = Some (pq_peer pq)"
      by auto
  qed
  moreover have "limits_inv (detached k p b)"
  proof -
    have "int (length (filter P xs)) \<le> m" if "int (length xs) \<le> m" for P m and xs :: "string list"
      using that length_filter_le [of P xs] by linarith
    with l show ?thesis unfolding limits_inv_def d by simp
  qed
  ultimately show ?thesis by (simp add: bridge_inv_orph_def)
qed

lemma detach_inv [inv_preserve]:
  assumes "bridge_inv b"
  shows "bridge_inv (fst (fst (detachPeerLocked k p b)))"
proof (cases "gm_get (activePeers b) k = Some p")
  case True
  with detached_inv_orph [of "\<lambda>_. {}"] assms show ?thesis
    by (simp add: bridge_inv_def detached_def)
next
  case False
  with assms show ?thesis by (simp add: detach_stale)
qed

section \<open>Installing\<close>

lemma install_failed:
  "installPeer net p ow b = ((b', es), Some e) \<Longrightarrow> b' = b"
  by (auto simp: installPeer_def Let_def split: option.splits if_splits)

text \<open>A successful installation, with the owner lookup spelled out.\<close>

lemma install_ok_cases:
  assumes "installPeer net p ow b = ((b', es), None)"
  obtains
    (known) "gm_get (activePeers b) (hex_encode (GetID p)) = Some p" "es = []"
      "owner_of b (hex_encode (GetID p)) = None \<or> ow = None \<or> owner_of b (hex_encode (GetID p)) = ow"
      "b' = (if ow = None then b else b\<lparr>peerOwners := gm_put (hex_encode (GetID p)) ow (peerOwners b)\<rparr>)"
  | (fresh) "gm_get (activePeers b) (hex_encode (GetID p)) = None"
      "es = [InstallHandlers (CreateExtendedADNL net p) p]" "GetCloserErr net p = None"
      "b' = b\<lparr>activePeers := gm_put (hex_encode (GetID p)) p (activePeers b),
        peerWrappers := gm_put (hex_encode (GetID p)) (CreateExtendedADNL net p) (peerWrappers b),
        peerOwners := gm_put (hex_encode (GetID p)) ow (peerOwners b)\<rparr>"
proof (cases "gm_get (activePeers b) (hex_encode (GetID p))")
  case None
  with assms have c: "GetCloserErr net p = None"
    by (cases "GetCloserErr net p") (simp_all add: installPeer_def Let_def)
  show ?thesis
    by (rule fresh) (use assms None c in \<open>simp_all add: installPeer_def Let_def\<close>)
next
  case (Some q)
  with assms have "q = p" by (simp add: installPeer_def Let_def split: if_splits)
  show ?thesis
    by (rule known) (use assms Some \<open>q = p\<close> in \<open>auto simp: installPeer_def Let_def split: if_splits\<close>)
qed

lemma owner_put:
  "owner_of (b\<lparr>peerOwners := gm_put k ow (peerOwners b)\<rparr>) x = (if x = k then ow else owner_of b x)"
  "owner_of (b\<lparr>activePeers := A, peerWrappers := W, peerOwners := gm_put k ow (peerOwners b)\<rparr>) x
     = (if x = k then ow else owner_of b x)"
  by (simp_all add: owner_of_def)

lemma owner_upd_client [simp]: "owner_of (upd_client c f b) k = owner_of b k"
  by (simp add: owner_of_def)

lemma inv_fresh:
  assumes "bridge_inv b" and "gm_get (activePeers b) k = None"
  shows "owner_of b k = None" and "gm_get (peerQueries b) k = None"
    and "gm_get (overlayToPeer b) ov \<noteq> Some k"
proof -
  show o: "owner_of b k = None"
    using assms by (cases "owner_of b k") (auto dest: inv_owner_active)
  show "gm_get (peerQueries b) k = None"
    using assms by (cases "gm_get (peerQueries b) k") (auto simp: bridge_inv_unfold maps_inv_def)
  show "gm_get (overlayToPeer b) ov \<noteq> Some k"
    using assms(1) o by (auto elim: inv_attached)
qed

lemma inv_unowned:
  assumes "bridge_inv b" and "owner_of b k = None"
  shows "gm_get (peerQueries b) k = None" and "gm_get (overlayToPeer b) ov \<noteq> Some k"
proof -
  show "gm_get (peerQueries b) k = None"
    using assms by (cases "gm_get (peerQueries b) k") (auto simp: bridge_inv_unfold maps_inv_def)
  show "gm_get (overlayToPeer b) ov \<noteq> Some k"
    using assms by (auto elim: inv_attached)
qed

text \<open>
  A peer enters the maps, or an incoming one gets its owner. \<open>b'\<close> is the state after
  \<open>installPeer\<close> and, for an owner, \<open>addClientPeer\<close>.
\<close>

lemma adopt_inv:
  assumes inv: "bridge_inv b"
    and k: "k = hex_encode (GetID p)"
    and old: "gm_get (activePeers b) k = None \<or> gm_get (activePeers b) k = Some p"
    and own: "owner_of b k = None \<or> owner_of b k = ow"
    and A: "\<And>x. gm_get (activePeers b') x = (if x = k then Some p else gm_get (activePeers b) x)"
    and W: "\<And>x. gm_get (peerWrappers b') x = None \<longleftrightarrow> gm_get (activePeers b') x = None"
    and P: "\<And>x. gm_get (peerOwners b') x = (if x = k then Some ow else gm_get (peerOwners b) x)"
    and same: "peerQueries b' = peerQueries b" "activeOverlays b' = activeOverlays b"
      "overlayToPeer b' = overlayToPeer b" "pendingQueries b' = pendingQueries b"
      "clients b' = clients b" "cfg b' = cfg b"
    and H: "\<And>c. peers (heap b' c) = (if ow = Some c \<and> k \<notin> set (peers (heap b c))
        then peers (heap b c) @ [k] else peers (heap b c))"
      "\<And>c. overlays (heap b' c) = overlays (heap b c)"
    and lim: "\<And>c. ow = Some c \<Longrightarrow> k \<in> set (peers (heap b c)) \<or>
        int (length (peers (heap b c))) < MaxPeers (ADNL (Namespaces (cfg b)))"
    and con: "\<And>c. ow = Some c \<Longrightarrow> gm_get (clients b) c \<noteq> None"
  shows "bridge_inv b'"
proof -
  have m: "maps_inv b" and o: "owners_inv (\<lambda>_. {}) b" and v: "overlays_inv b"
    and q: "pending_inv b" and l: "limits_inv b"
    using inv by (simp_all add: bridge_inv_unfold)
  have ow': "owner_of b' x = (if x = k then ow else owner_of b x)" for x
    using P by (simp add: owner_of_def)
  have unowned: "gm_get (peerQueries b) k = None" "\<And>ov. gm_get (overlayToPeer b) ov \<noteq> Some k"
    if "owner_of b k \<noteq> ow"
    using that own inv_unowned [OF inv] by auto
  have stable: "gm_get (activePeers b') x = Some r" if "gm_get (activePeers b) x = Some r" for x r
    using that old A by auto
  have keep: "owner_of b' x = Some c" if "owner_of b x = Some c" for x c
    using that own ow' by auto
  have "maps_inv b'"
    unfolding maps_inv_def
  proof (intro conjI allI impI)
    fix x r assume "gm_get (activePeers b') x = Some r"
    then show "x = hex_encode (GetID r)"
      using m A k by (auto simp: maps_inv_def split: if_splits)
  next
    fix x show "gm_get (peerWrappers b') x = None \<longleftrightarrow> gm_get (activePeers b') x = None" by (rule W)
  next
    fix x show "gm_get (peerOwners b') x = None \<longleftrightarrow> gm_get (activePeers b') x = None"
      using m by (simp add: A P maps_inv_def)
  next
    fix x h assume "gm_get (peerQueries b') x = Some h"
    then have "qh_peerHex h = x" "gm_get (activePeers b) x = Some (qh_peer h)"
      "owner_of b x = Some (qh_client h)"
      using m by (simp_all add: same maps_inv_def)
    then show "qh_peerHex h = x" "gm_get (activePeers b') x = Some (qh_peer h)"
      "owner_of b' x = Some (qh_client h)"
      using stable keep by auto
  qed
  moreover have "owners_inv (\<lambda>_. {}) b'"
  proof -
    have "ow = Some c" if "k \<in> set (peers (heap b c))" for c
      using that own inv_owner [OF inv] by force
    with o con show ?thesis unfolding owners_inv_def ow' H same by auto
  qed
  moreover have "overlays_inv b'"
    unfolding overlays_inv_def
  proof (intro conjI allI impI)
    fix ov show "gm_get (activeOverlays b') ov = None \<longleftrightarrow> gm_get (overlayToPeer b') ov = None"
      using v by (simp add: same overlays_inv_def)
  next
    fix ov x assume "gm_get (overlayToPeer b') ov = Some x"
    then obtain c where "owner_of b x = Some c" using inv same by (auto elim: inv_attached)
    then show "owner_of b' x \<noteq> None" using keep by simp
  next
    fix ov c
    have "owner_of b' x = Some c \<longleftrightarrow> owner_of b x = Some c" if "gm_get (overlayToPeer b) ov = Some x" for x
      using that unowned(2) ow' by (cases "owner_of b k = ow") auto
    then show "ov \<in> set (overlays (heap b' c)) \<longleftrightarrow>
        (\<exists>k. gm_get (overlayToPeer b') ov = Some k \<and> owner_of b' k = Some c)"
      using v by (auto simp: same H overlays_inv_def)
  qed
  moreover have "pending_inv b'"
    using q stable by (simp add: pending_inv_def same)
  moreover have "limits_inv b'"
    using l lim unfolding limits_inv_def H same by fastforce
  ultimately show ?thesis by (simp add: bridge_inv_unfold)
qed

lemma install_unowned_inv [inv_preserve]:
  assumes inv: "bridge_inv b"
  shows "bridge_inv (fst (fst (installPeer net p None b)))"
proof (cases "installPeer net p None b")
  case (Pair st err)
  obtain b' es where st: "st = (b', es)" by (cases st)
  show ?thesis
  proof (cases err)
    case (Some e)
    with Pair st inv show ?thesis by (auto dest: install_failed)
  next
    case None
    with Pair st have "installPeer net p None b = ((b', es), None)" by simp
    then show ?thesis
    proof (cases rule: install_ok_cases)
      case known
      with Pair st inv show ?thesis by simp
    next
      case fresh
      have "gm_get (peerWrappers b) x = None \<longleftrightarrow> gm_get (activePeers b) x = None" for x
        using inv by (simp add: bridge_inv_unfold maps_inv_def)
      then have "bridge_inv b'"
        using fresh inv_fresh(1) [OF inv fresh(1)]
        by (intro adopt_inv [OF inv refl, of p None]) simp_all
      with Pair st show ?thesis by simp
    qed
  qed
qed

text \<open>Installing for a client and recording the peer with it, as the connect handlers do.\<close>

lemma install_owned_inv:
  assumes inv: "bridge_inv b" and ok: "installPeer net p (Some c) b = ((b', es), None)"
    and room: "hex_encode (GetID p) \<in> set (peers (heap b c)) \<or>
      int (length (peers (heap b c))) < MaxPeers (ADNL (Namespaces (cfg b)))"
    and con: "gm_get (clients b) c \<noteq> None"
  shows "bridge_inv (addClientPeer c (hex_encode (GetID p)) b')"
proof -
  let ?k = "hex_encode (GetID p)"
  have w: "gm_get (peerWrappers b) x = None \<longleftrightarrow> gm_get (activePeers b) x = None" for x
    using inv by (simp add: bridge_inv_unfold maps_inv_def)
  from ok show ?thesis
  proof (cases rule: install_ok_cases)
    case known
    with w room con show ?thesis
      by (intro adopt_inv [OF inv refl, of p "Some c"]) (auto simp: addClientPeer_def)
  next
    case fresh
    with w room con inv_fresh(1) [OF inv fresh(1)] show ?thesis
      by (intro adopt_inv [OF inv refl, of p "Some c"]) (auto simp: addClientPeer_def)
  qed
qed

section \<open>The gateway and the handlers of a peer\<close>

lemma connectionHandler_state:
  "fst (fst (connectionHandler net p b)) = fst (fst (installPeer net p None b))"
  by (simp add: connectionHandler_def split: prod.split option.split)

lemma connectionHandler_inv [inv_preserve]:
  "bridge_inv b \<Longrightarrow> bridge_inv (fst (fst (connectionHandler net p b)))"
  by (simp add: connectionHandler_state install_unowned_inv)

text \<open>What incoming connections never change: existing peers, every owner and the clients.\<close>

definition grows :: "WSBridge \<Rightarrow> WSBridge \<Rightarrow> bool" where
  "grows b b' \<longleftrightarrow>
     (\<forall>k p. gm_get (activePeers b) k = Some p \<longrightarrow> gm_get (activePeers b') k = Some p) \<and>
     (\<forall>k. owner_of b' k = owner_of b k) \<and>
     heap b' = heap b \<and> clients b' = clients b \<and> cfg b' = cfg b \<and>
     overlayToPeer b' = overlayToPeer b \<and> activeOverlays b' = activeOverlays b \<and>
     pendingQueries b' = pendingQueries b"

lemma grows_refl: "grows b b"
  by (simp add: grows_def)

lemma grows_trans: "grows a b \<Longrightarrow> grows b c \<Longrightarrow> grows a c"
  by (simp add: grows_def)

lemma install_unowned_grows:
  assumes inv: "bridge_inv b"
  shows "grows b (fst (fst (installPeer net p None b)))"
proof (cases "installPeer net p None b")
  case (Pair st err)
  obtain b' es where st: "st = (b', es)" by (cases st)
  show ?thesis
  proof (cases err)
    case (Some e)
    with Pair st show ?thesis by (auto dest: install_failed simp: grows_refl)
  next
    case None
    with Pair st have "installPeer net p None b = ((b', es), None)" by simp
    then show ?thesis
    proof (cases rule: install_ok_cases)
      case known
      with Pair st show ?thesis by (simp add: grows_refl)
    next
      case fresh
      with Pair st inv_fresh(1) [OF inv fresh(1)] show ?thesis
        by (auto simp: grows_def owner_of_def)
    qed
  qed
qed

lemma acceptAll_inv: "bridge_inv (fst st) \<Longrightarrow> bridge_inv (fst (acceptAll net ps st))"
proof (induction ps arbitrary: st)
  case (Cons p ps)
  obtain b es where st: "st = (b, es)" by (cases st)
  with Cons connectionHandler_inv [of b net p] show ?case
    by (auto split: prod.split)
qed simp

lemma acceptAll_grows: "bridge_inv (fst st) \<Longrightarrow> grows (fst st) (fst (acceptAll net ps st))"
proof (induction ps arbitrary: st)
  case Nil
  then show ?case by (simp add: grows_refl)
next
  case (Cons p ps)
  obtain b es where st: "st = (b, es)" by (cases st)
  obtain b' es' err where c: "connectionHandler net p b = ((b', es'), err)" by (metis surj_pair)
  have "bridge_inv b'" "grows b b'"
    using Cons.prems st c connectionHandler_inv [of b net p] install_unowned_grows [of b net p]
      connectionHandler_state [of net p b] by simp_all
  with Cons.IH [of "(b', es @ es')"] c st show ?case
    by (auto intro: grows_trans)
qed

lemma custom_handler_state: "fst (peerCustomHandler tlib p msg b) = b"
  by (simp add: peerCustomHandler_def Let_def split: sum.split)

lemma pending_upd_inv:
  assumes "bridge_inv b"
    and "\<And>q pq. gm_get P q = Some pq \<Longrightarrow>
      gm_get (activePeers b) (hex_encode (GetID (pq_peer pq))) = Some (pq_peer pq)"
  shows "bridge_inv (b\<lparr>pendingQueries := P\<rparr>)"
proof -
  let ?b = "b\<lparr>pendingQueries := P\<rparr>"
  have ow: "owner_of ?b = owner_of b" by (simp add: owner_of_def fun_eq_iff)
  have "maps_inv ?b = maps_inv b" "owners_inv (\<lambda>_. {}) ?b = owners_inv (\<lambda>_. {}) b"
    "overlays_inv ?b = overlays_inv b" "limits_inv ?b = limits_inv b"
    by (simp_all add: maps_inv_def owners_inv_def overlays_inv_def limits_inv_def ow)
  moreover have "pending_inv ?b" using assms(2) by (simp add: pending_inv_def)
  ultimately show ?thesis using assms(1) by (simp add: bridge_inv_unfold)
qed

lemma run_query_handler_inv:
  assumes "bridge_inv b"
  shows "bridge_inv (fst (run_query_handler tlib now h qid msg b))"
proof (cases "gm_get (activePeers b) (qh_peerHex h) = Some (qh_peer h)")
  case True
  then have "qh_peerHex h = hex_encode (GetID (qh_peer h))"
    using assms inv_key by (simp add: bridge_inv_def)
  moreover have "\<And>q pq. gm_get (pendingQueries b) q = Some pq \<Longrightarrow>
      gm_get (activePeers b) (hex_encode (GetID (pq_peer pq))) = Some (pq_peer pq)"
    using assms by (simp add: bridge_inv_unfold pending_inv_def)
  ultimately show ?thesis
    using assms True
    by (auto simp: run_query_handler_def Let_def split: sum.split if_splits intro!: pending_upd_inv)
next
  case False
  with assms show ?thesis by (auto simp: run_query_handler_def Let_def split: sum.split)
qed

lemma query_handler_inv [inv_preserve]:
  "bridge_inv b \<Longrightarrow> bridge_inv (fst (peerQueryHandler tlib now p qid msg b))"
  by (simp add: peerQueryHandler_def Let_def run_query_handler_inv split: option.split)

lemma disconnect_handler_state:
  "fst (peerDisconnectHandler p b) = fst (fst (detachPeerLocked (hex_encode (GetID p)) p b))"
  by (simp add: peerDisconnectHandler_def split: prod.split option.split)

lemma disconnect_handler_inv [inv_preserve]:
  "bridge_inv b \<Longrightarrow> bridge_inv (fst (peerDisconnectHandler p b))"
  by (simp add: disconnect_handler_state detach_inv)

section \<open>Client teardown\<close>

lemma closePeers_state:
  "fst (closePeers ks (b, es)) =
     fold (\<lambda>k b. case gm_get (activePeers b) k of None \<Rightarrow> b | Some p \<Rightarrow> detached k p b) ks b"
proof (induction ks arbitrary: b es)
  case (Cons k ks)
  show ?case
  proof (cases "gm_get (activePeers b) k")
    case (Some p)
    obtain b' es' r where d: "detachPeerLocked k p b = ((b', es'), r)" by (metis surj_pair)
    have "r \<noteq> None" using detach_removes [OF Some] d by auto
    with Cons.IH d Some show ?thesis by (auto simp: detached_def)
  qed (use Cons in simp)
qed simp

lemma detach_fold_inv:
  "bridge_inv_orph (\<lambda>x. if x = c then set ks else {}) b \<Longrightarrow> distinct ks \<Longrightarrow>
   bridge_inv (fold (\<lambda>k b. case gm_get (activePeers b) k of None \<Rightarrow> b | Some p \<Rightarrow> detached k p b) ks b)"
proof (induction ks arbitrary: b)
  case Nil
  then show ?case by (simp add: bridge_inv_def if_distrib cong: if_cong)
next
  case (Cons k ks)
  have "owner_of b k = Some c"
    using Cons.prems by (auto simp: bridge_inv_orph_def owners_inv_def)
  then obtain p where act: "gm_get (activePeers b) k = Some p"
    using inv_orph_owner_active [OF Cons.prems(1)] by blast
  have "bridge_inv_orph (\<lambda>x. (if x = c then set (k # ks) else {}) - {k}) (detached k p b)"
    by (rule detached_inv_orph [OF Cons.prems(1) act])
  moreover have "(\<lambda>x. (if x = c then set (k # ks) else {}) - {k}) = (\<lambda>x. if x = c then set ks else {})"
    using Cons.prems(2) by (auto simp: fun_eq_iff)
  ultimately show ?case
    using Cons.IH [of "detached k p b"] Cons.prems(2) act by simp
qed

lemma orphan_peers:
  assumes "bridge_inv b"
  shows "bridge_inv_orph (\<lambda>x. if x = c then set (peers (heap b c)) else {})
    (upd_client c (\<lambda>w. w\<lparr>peers := []\<rparr>) b)"
proof -
  let ?b = "upd_client c (\<lambda>w. w\<lparr>peers := []\<rparr>) b"
  have ov: "overlays (heap ?b x) = overlays (heap b x)" for x by simp
  have "maps_inv ?b = maps_inv b" "pending_inv ?b = pending_inv b"
    by (simp_all add: maps_inv_def pending_inv_def)
  moreover have "overlays_inv ?b = overlays_inv b"
    unfolding overlays_inv_def ov by simp
  moreover have "owners_inv (\<lambda>x. if x = c then set (peers (heap b c)) else {}) ?b"
    using assms by (simp add: bridge_inv_unfold owners_inv_def)
  moreover have "limits_inv ?b"
    using assms by (simp add: bridge_inv_unfold limits_inv_def)
  ultimately show ?thesis using assms by (simp add: bridge_inv_unfold bridge_inv_orph_def)
qed

lemma cleanupPeers_inv [inv_preserve]:
  assumes "bridge_inv b"
  shows "bridge_inv (fst (cleanupPeers c b))"
proof -
  have "distinct (peers (heap b c))" using assms by (simp add: bridge_inv_unfold owners_inv_def)
  then show ?thesis
    unfolding cleanupPeers_def closePeers_state
    by (rule detach_fold_inv [OF orphan_peers [OF assms]])
qed

text \<open>Closing overlays takes their entries out of both maps and out of no other client's list.\<close>

lemma closeOverlays_maps:
  "gm_get (activeOverlays (fst (closeOverlays os (b, es)))) ov =
     (if ov \<in> set os then None else gm_get (activeOverlays b) ov)"
  "gm_get (overlayToPeer (fst (closeOverlays os (b, es)))) ov =
     (if ov \<in> set os then None else gm_get (overlayToPeer b) ov)"
  "activePeers (fst (closeOverlays os (b, es))) = activePeers b"
  "peerWrappers (fst (closeOverlays os (b, es))) = peerWrappers b"
  "peerOwners (fst (closeOverlays os (b, es))) = peerOwners b"
  "peerQueries (fst (closeOverlays os (b, es))) = peerQueries b"
  "pendingQueries (fst (closeOverlays os (b, es))) = pendingQueries b"
  "clients (fst (closeOverlays os (b, es))) = clients b"
  "heap (fst (closeOverlays os (b, es))) = heap b"
  "cfg (fst (closeOverlays os (b, es))) = cfg b"
  by (induction os arbitrary: b es) (simp_all add: Let_def)

lemma cleanupOverlays_inv [inv_preserve]:
  assumes inv: "bridge_inv b"
  shows "bridge_inv (fst (cleanupOverlays c b))"
proof -
  let ?b = "fst (cleanupOverlays c b)"
  have ow: "owner_of ?b k = owner_of b k" for k
    by (simp add: owner_of_def cleanupOverlays_def closeOverlays_maps)
  have ovs: "overlays (heap ?b x) = (if x = c then [] else overlays (heap b x))"
    and prs: "peers (heap ?b x) = peers (heap b x)" for x
    by (simp_all add: cleanupOverlays_def closeOverlays_maps)
  note maps = cleanupOverlays_def closeOverlays_maps upd_client_simps
  have m: "maps_inv b" and o: "owners_inv (\<lambda>_. {}) b" and v: "overlays_inv b"
    and q: "pending_inv b" and l: "limits_inv b"
    using inv by (simp_all add: bridge_inv_unfold)
  have "maps_inv ?b" using m unfolding maps_inv_def ow by (simp add: maps)
  moreover have "owners_inv (\<lambda>_. {}) ?b"
    using o unfolding owners_inv_def ow ovs prs by (simp add: maps)
  moreover have "overlays_inv ?b"
  proof -
    have mem: "ov \<in> set (overlays (heap b c)) \<longleftrightarrow>
        (\<exists>k. gm_get (overlayToPeer b) ov = Some k \<and> owner_of b k = Some c)" for ov c
      using v by (simp add: overlays_inv_def)
    have "gm_get (overlayToPeer ?b) ov = (if ov \<in> set (overlays (heap b c)) then None
        else gm_get (overlayToPeer b) ov)" for ov
      by (simp add: maps)
    with v mem show ?thesis unfolding overlays_inv_def ow ovs
      by (auto simp: maps)
  qed
  moreover have "pending_inv ?b" using q unfolding pending_inv_def by (simp add: maps)
  moreover have "limits_inv ?b" using l unfolding limits_inv_def ovs prs by (simp add: maps)
  ultimately show ?thesis by (simp add: bridge_inv_unfold)
qed

lemma upd_client_inv:
  assumes inv: "bridge_inv b" and f: "\<And>w. peers (f w) = peers w" "\<And>w. overlays (f w) = overlays w"
  shows "bridge_inv (upd_client c f b)"
proof -
  let ?b = "upd_client c f b"
  have h: "peers (heap ?b x) = peers (heap b x)" "overlays (heap ?b x) = overlays (heap b x)" for x
    by (simp_all add: f)
  show ?thesis
    using inv unfolding bridge_inv_unfold inv_parts h owner_upd_client upd_client_simps(1-9) .
qed

text \<open>The maps after the peers \<open>ks\<close> are detached one after the other.\<close>

definition detach_all :: "string list \<Rightarrow> WSBridge \<Rightarrow> WSBridge" where
  "detach_all ks b =
     fold (\<lambda>k b. case gm_get (activePeers b) k of None \<Rightarrow> b | Some p \<Rightarrow> detached k p b) ks b"

lemma detach_all_simps [simp]:
  "detach_all [] b = b"
  "detach_all (k # ks) b =
     detach_all ks (case gm_get (activePeers b) k of None \<Rightarrow> b | Some p \<Rightarrow> detached k p b)"
  by (simp_all add: detach_all_def)

lemma detach_all_maps:
  "gm_get (activePeers (detach_all ks b)) x = (if x \<in> set ks then None else gm_get (activePeers b) x)"
  "clients (detach_all ks b) = clients b" "cfg (detach_all ks b) = cfg b"
  by (induction ks arbitrary: b) (auto simp: detached_maps split: option.split)

lemma detach_all_peers_mono: "set (peers (heap (detach_all ks b) c)) \<subseteq> set (peers (heap b c))"
proof (induction ks arbitrary: b)
  case (Cons k ks)
  show ?case
  proof (cases "gm_get (activePeers b) k")
    case (Some p)
    then have "set (peers (heap (detached k p b) c)) \<subseteq> set (peers (heap b c))"
      by (auto simp: detached_heap)
    with Cons.IH [of "detached k p b"] Some show ?thesis by auto
  qed (use Cons in simp)
qed simp

lemma detach_all_other_peers:
  "owner_of b k \<noteq> None \<Longrightarrow> k \<notin> set ks \<Longrightarrow> owner_of (detach_all ks b) k = owner_of b k"
proof (induction ks arbitrary: b)
  case (Cons k' ks)
  show ?case
  proof (cases "gm_get (activePeers b) k'")
    case (Some p)
    have "owner_of (detached k' p b) k = owner_of b k"
      using Cons.prems by (simp add: detached_owner [OF Some])
    with Cons Some show ?thesis by simp
  qed (use Cons in simp)
qed simp

lemma detach_all_overlays:
  "gm_get (overlayToPeer b) ov = Some k \<Longrightarrow> k \<notin> set ks \<Longrightarrow>
   gm_get (activeOverlays (detach_all ks b)) ov = gm_get (activeOverlays b) ov
   \<and> gm_get (overlayToPeer (detach_all ks b)) ov = Some k"
proof (induction ks arbitrary: b)
  case (Cons k' ks)
  show ?case
  proof (cases "gm_get (activePeers b) k'")
    case (Some p)
    have "gm_get (overlayToPeer (detached k' p b)) ov = Some k"
      "gm_get (activeOverlays (detached k' p b)) ov = gm_get (activeOverlays b) ov"
      using Cons.prems by (simp_all add: detached_maps [OF Some])
    with Cons Some show ?thesis by simp
  qed (use Cons in simp)
qed simp

lemma cleanupPeers_state:
  "fst (cleanupPeers c b) = detach_all (peers (heap b c)) (upd_client c (\<lambda>w. w\<lparr>peers := []\<rparr>) b)"
  by (simp add: cleanupPeers_def closePeers_state detach_all_def)

lemma closePeers_closes:
  "distinct ks \<Longrightarrow> k \<in> set ks \<Longrightarrow> gm_get (activePeers b) k = Some p \<Longrightarrow>
   ClosePeer p \<in> set (snd (closePeers ks (b, es)))"
  and closePeers_keeps: "e \<in> set es \<Longrightarrow> e \<in> set (snd (closePeers ks (b, es)))"
proof -
  have keeps: "set es \<subseteq> set (snd (closePeers ks (b, es)))" for ks b es
  proof (induction ks arbitrary: b es)
    case (Cons k ks)
    then show ?case
      by (force split: option.split prod.split)
  qed simp
  then show "e \<in> set es \<Longrightarrow> e \<in> set (snd (closePeers ks (b, es)))" by blast
  show "distinct ks \<Longrightarrow> k \<in> set ks \<Longrightarrow> gm_get (activePeers b) k = Some p \<Longrightarrow>
    ClosePeer p \<in> set (snd (closePeers ks (b, es)))"
  proof (induction ks arbitrary: b es)
    case (Cons k' ks)
    show ?case
    proof (cases "gm_get (activePeers b) k'")
      case None
      with Cons show ?thesis by auto
    next
      case (Some q)
      obtain b' es' r where d: "detachPeerLocked k' q b = ((b', es'), r)" by (metis surj_pair)
      have r: "r \<noteq> None" using detach_removes [OF Some] d by auto
      have b': "b' = detached k' q b" using d by (simp add: detached_def)
      show ?thesis
      proof (cases "k = k'")
        case True
        with Cons.prems Some d r keeps show ?thesis by fastforce
      next
        case False
        with Cons.prems have "gm_get (activePeers b') k = Some p"
          by (simp add: b' detached_maps [OF Some])
        with Cons False Some d r show ?thesis by auto
      qed
    qed
  qed simp
qed

lemma drop_client_inv:
  assumes inv: "bridge_inv b" and "peers (heap b c) = []"
  shows "bridge_inv (b\<lparr>clients := gm_del c (clients b)\<rparr>)"
proof -
  let ?b = "b\<lparr>clients := gm_del c (clients b)\<rparr>"
  have ow: "owner_of ?b = owner_of b" by (simp add: owner_of_def fun_eq_iff)
  have "maps_inv ?b = maps_inv b" "overlays_inv ?b = overlays_inv b"
    "pending_inv ?b = pending_inv b" "limits_inv ?b = limits_inv b"
    by (simp_all add: maps_inv_def pending_inv_def overlays_inv_def limits_inv_def ow)
  moreover have "owners_inv (\<lambda>_. {}) ?b"
    using assms unfolding bridge_inv_unfold owners_inv_def ow by simp
  ultimately show ?thesis using inv by (simp add: bridge_inv_unfold)
qed

text \<open>The state after a disconnect, as the composition of the three cleanups.\<close>

lemma disconnectClient_state:
  "fst (disconnectClient c b) =
     (let b1 = fst (cleanupPeers c (upd_client c (\<lambda>w. w\<lparr>ctx_done := True\<rparr>) b));
          b2 = fst (cleanupOverlays c b1)
      in b2\<lparr>clients := gm_del c (clients b2)\<rparr>)"
  by (simp add: disconnectClient_def Let_def split: prod.split)

lemma cleanup_no_peers: "peers (heap (fst (cleanupPeers c b)) c) = []"
proof -
  have "set (peers (heap (fst (cleanupPeers c b)) c)) \<subseteq> {}"
    using detach_all_peers_mono [of "peers (heap b c)" "upd_client c (\<lambda>w. w\<lparr>peers := []\<rparr>) b" c]
    by (simp add: cleanupPeers_state)
  then show ?thesis by simp
qed

lemma disconnectClient_inv [inv_preserve]:
  assumes "bridge_inv b"
  shows "bridge_inv (fst (disconnectClient c b))"
proof -
  have "bridge_inv (upd_client c (\<lambda>w. w\<lparr>ctx_done := True\<rparr>) b)"
    using assms by (rule upd_client_inv) simp_all
  then have "bridge_inv (fst (cleanupPeers c (upd_client c (\<lambda>w. w\<lparr>ctx_done := True\<rparr>) b)))"
    by (rule cleanupPeers_inv)
  then have "bridge_inv (fst (cleanupOverlays c (fst (cleanupPeers c (upd_client c (\<lambda>w. w\<lparr>ctx_done := True\<rparr>) b)))))"
    by (rule cleanupOverlays_inv)
  then show ?thesis
    unfolding disconnectClient_state Let_def
    by (rule drop_client_inv) (simp add: cleanupOverlays_def closeOverlays_maps cleanup_no_peers)
qed

end
