(* ===== verification/Params.thy ===== *)
theory Params
  imports BridgeState "HOL-Library.Signed_Division"
begin

text \<open>
  The parameters of the adnl and overlay methods. The handlers declare anonymous structs that
  share their field names and types; one record has all of the fields, and every handler decodes
  the ones it declares.
\<close>

record rpc_params =
  p_address :: string
  p_key :: string
  p_adnl_id :: string
  p_peer_id :: string
  p_overlay_id :: string
  p_query_id :: string
  p_data :: string
  p_timeout :: int
  p_raw :: bool

definition zero_params :: rpc_params where
  "zero_params = \<lparr>p_address = [], p_key = [], p_adnl_id = [], p_peer_id = [], p_overlay_id = [],
     p_query_id = [], p_data = [], p_timeout = 0, p_raw = False\<rparr>"

definition f_address :: "string \<times> rpc_params setter" where
  "f_address = (''address'', string_field (\<lambda>s p. p\<lparr>p_address := s\<rparr>))"
definition f_key :: "string \<times> rpc_params setter" where
  "f_key = (''key'', string_field (\<lambda>s p. p\<lparr>p_key := s\<rparr>))"
definition f_adnl_id :: "string \<times> rpc_params setter" where
  "f_adnl_id = (''adnl_id'', string_field (\<lambda>s p. p\<lparr>p_adnl_id := s\<rparr>))"
definition f_peer_id :: "string \<times> rpc_params setter" where
  "f_peer_id = (''peer_id'', string_field (\<lambda>s p. p\<lparr>p_peer_id := s\<rparr>))"
definition f_overlay_id :: "string \<times> rpc_params setter" where
  "f_overlay_id = (''overlay_id'', string_field (\<lambda>s p. p\<lparr>p_overlay_id := s\<rparr>))"
definition f_query_id :: "string \<times> rpc_params setter" where
  "f_query_id = (''query_id'', string_field (\<lambda>s p. p\<lparr>p_query_id := s\<rparr>))"
definition f_data :: "string \<times> rpc_params setter" where
  "f_data = (''data'', string_field (\<lambda>s p. p\<lparr>p_data := s\<rparr>))"
definition f_timeout :: "string \<times> rpc_params setter" where
  "f_timeout = (''timeout'', int_field 64 (\<lambda>n p. p\<lparr>p_timeout := n\<rparr>))"
definition f_raw :: "string \<times> rpc_params setter" where
  "f_raw = (''raw'', bool_field (\<lambda>x p. p\<lparr>p_raw := x\<rparr>))"

lemmas field_defs = f_address_def f_key_def f_adnl_id_def f_peer_id_def f_overlay_id_def
  f_query_id_def f_data_def f_timeout_def f_raw_def

definition with_params ::
  "(string \<times> rpc_params setter) list \<Rightarrow> WSRequest \<Rightarrow> (rpc_params \<Rightarrow> 'b checked) \<Rightarrow> 'b checked" where
  "with_params fs req k =
     attempt (unmarshal fs (req_params req) zero_params) (\<lambda>e. bad (Wrap ''invalid params: '' e)) k"

text \<open>The error text names the field, as in \<open>invalid base64 peer_id\<close>.\<close>

definition with_base64 :: "string \<Rightarrow> string \<Rightarrow> (bytes \<Rightarrow> 'b checked) \<Rightarrow> 'b checked" where
  "with_base64 field s k =
     attempt (decodeBase64 s) (\<lambda>e. bad (Wrap (''invalid base64 '' @ field @ '': '') e)) k"

definition with_payload_size :: "string \<Rightarrow> bytes \<Rightarrow> 'b checked \<Rightarrow> 'b checked" where
  "with_payload_size what d k =
     require (d \<noteq> [] \<and> length d \<le> maxOverlayQuerySize)
       (bad (Lit (what @ '' data must be between 1 and '' @ show_nat maxOverlayQuerySize @ '' bytes''))) k"

text \<open>
  \<open>int(d.Seconds())\<close>: whole seconds towards zero. (\<open>Seconds\<close> is a \<open>float64\<close>; it can round up to
  the next second only for durations of weeks that end within a nanosecond of it.)
\<close>

definition whole_seconds :: "int \<Rightarrow> int" where
  "whole_seconds d = d sdiv second"

definition clamp_timeout :: "int \<Rightarrow> int \<Rightarrow> int \<Rightarrow> int" where
  "clamp_timeout dflt mx t =
     (let t1 = (if t \<le> 0 then whole_seconds dflt else t)
      in if whole_seconds mx < t1 then whole_seconds mx else t1)"

definition query_deadline :: "int \<Rightarrow> int \<Rightarrow> int \<Rightarrow> int" where
  "query_deadline dflt mx t = to_int64 (clamp_timeout dflt mx t * second)"

lemma whole_seconds_nonneg: "0 \<le> d \<Longrightarrow> whole_seconds d = d div second"
  by (cases "d = 0") (simp_all add: whole_seconds_def second_def signed_divide_int_def sgn_if)

lemma clamp_bounds:
  assumes "second \<le> dflt" and "second \<le> mx"
  shows "1 \<le> clamp_timeout dflt mx t" and "clamp_timeout dflt mx t * second \<le> mx"
proof -
  have "1 \<le> dflt div second" "1 \<le> mx div second" "mx div second * second \<le> mx"
    using assms by (simp_all add: second_def)
  moreover have "0 \<le> dflt" "0 \<le> mx" using assms by (simp_all add: second_def)
  ultimately have d: "1 \<le> whole_seconds dflt" and m: "1 \<le> whole_seconds mx"
    and c: "whole_seconds mx * second \<le> mx"
    by (simp_all add: whole_seconds_nonneg)
  show "1 \<le> clamp_timeout dflt mx t" using d m by (auto simp: clamp_timeout_def Let_def)
  have "clamp_timeout dflt mx t \<le> whole_seconds mx" by (auto simp: clamp_timeout_def Let_def)
  then have "clamp_timeout dflt mx t * second \<le> whole_seconds mx * second"
    by (simp add: second_def)
  with c show "clamp_timeout dflt mx t * second \<le> mx" by linarith
qed

text \<open>
  Whatever timeout a client asks for, a query runs for at least a second and never longer
  than the configured maximum, and the conversion to nanoseconds does not overflow.
\<close>
theorem query_deadline_bounds:
  assumes "second \<le> dflt" and "second \<le> mx" and "mx < 2 ^ 63"
  shows "second \<le> query_deadline dflt mx t \<and> query_deadline dflt mx t \<le> mx"
proof -
  note c = clamp_bounds [OF assms(1,2), of t]
  have "query_deadline dflt mx t = clamp_timeout dflt mx t * second"
    unfolding query_deadline_def using c assms by (intro to_int64_id) (simp_all add: second_def)
  with c show ?thesis by (simp add: second_def)
qed

theorem query_deadline_bounds_witness:
  "second \<le> query_deadline (10 * second) (60 * second) 9999
   \<and> query_deadline (10 * second) (60 * second) 9999 \<le> 60 * second"
  by (rule query_deadline_bounds) (simp_all add: second_def)

text \<open>
  A default timeout below one second is cut to zero, so a query without an explicit timeout
  starts with a context that has already expired.
\<close>
theorem subsecond_default_expires:
  "query_deadline (second div 2) (60 * second) 0 = 0"
  by (simp add: query_deadline_def clamp_timeout_def whole_seconds_def second_def to_int64_def
      signed_divide_int_def)

end
