(* ===== verification/AdnlHandlers.thy ===== *)
theory AdnlHandlers
  imports BridgeInv Params
begin

text \<open>
  The adnl namespace (wsbridge/adnl.go): connecting by address or by ADNL identity, messages,
  pings, queries and answers over owned peers, and disconnecting. Every handler takes the answers
  of the network libraries as a parameter.
\<close>

definition max_peers :: "WSBridge \<Rightarrow> int" where
  "max_peers b = MaxPeers (ADNL (Namespaces (cfg b)))"

definition peer_limit_error :: "WSBridge \<Rightarrow> reply" where
  "peer_limit_error b = bad (Lit (''max peers limit reached ('' @ show_int (max_peers b) @ '')''))"

definition reply_to :: "client_ref \<Rightarrow> WSRequest \<Rightarrow> reply \<Rightarrow> effect list" where
  "reply_to c req r = [Reply c (req_id req) r]"

definition connected_result :: "net \<Rightarrow> peer \<Rightarrow> reply" where
  "connected_result net p = Result (JObj
     [(''connected'', JBool True), (''peer_id'', jpeer_id p), (''remote_addr'', JStr (RemoteAddr net p))])"

section \<open>Connecting\<close>

definition connect_checks ::
  "BridgeConfig \<Rightarrow> tl_lib \<Rightarrow> WSRequest \<Rightarrow> (string \<times> bytes \<times> string) checked" where
  "connect_checks cf tlib req =
     with_params [f_address, f_key] req (\<lambda>prm.
     with_base64 ''key'' (p_key prm) (\<lambda>key.
     require (length key = 32) (bad (Lit (''invalid key length: expected 32, got '' @ show_nat (length key)))) (
     attempt (split_host_port (p_address prm)) (\<lambda>e. bad (Wrap ''invalid address format: '' e)) (\<lambda>(host, _).
     present (parse_ip host) (bad (Lit ''invalid IP address'')) (\<lambda>ip.
     require (\<not> (SSRFProtection (ADNL (Namespaces cf)) \<and> isPrivateIP ip))
       (bad (Lit ''private/loopback addresses not allowed'')) (
     attempt (tl_HashKey tlib key) (\<lambda>_. bad (Lit ''invalid ADNL public key'')) (\<lambda>peerID.
     Inr (p_address prm, key, hex_encode peerID))))))))"

text \<open>The branch for a peer that is already connected, the same in both connect handlers.\<close>

definition reuse_checks :: "WSBridge \<Rightarrow> client_ref \<Rightarrow> string \<Rightarrow> unit checked" where
  "reuse_checks b c k =
     (let own = owner_of b k in
      require (own = None \<or> own = Some c)
        (bad (Lit ''ADNL peer is already connected by another client'')) (
      require (own \<noteq> None \<or> int (length (peers (heap b c))) < max_peers b)
        (peer_limit_error b) (Inr ())))"

definition reusePeer ::
  "net \<Rightarrow> client_ref \<Rightarrow> WSRequest \<Rightarrow> string \<Rightarrow> peer \<Rightarrow> WSBridge \<Rightarrow> outcome" where
  "reusePeer net c req k existing b =
     handler c req b (reuse_checks b c k) (\<lambda>_.
       let (b1, es) = acceptAll net (incoming net 0) (b, [PingPeer existing]) in
       case Ping net 0 existing of
         Inl _ \<Rightarrow>
           (b1, es @ reply_to c req
              (failed (Lit ''existing ADNL peer is not live; disconnect it before retrying'')))
       | Inr _ \<Rightarrow>
           if owner_of b k = None then
             (case installPeer net existing (Some c) b1 of
                ((b2, es'), Some e) \<Rightarrow>
                  (b2, es @ es' @ reply_to c req (failed (Wrap ''adnl connect ownership failed: '' e)))
              | ((b2, es'), None) \<Rightarrow>
                  (addClientPeer c k b2, es @ es' @ reply_to c req (connected_result net existing)))
           else (b1, es @ reply_to c req (connected_result net existing)))"

text \<open>
  A call of \<open>RegisterClient\<close>: it may run the connection handler, and the connections that arrive
  before the handler goes on are accepted as well.
\<close>

definition dial :: "net \<Rightarrow> nat \<Rightarrow> string \<Rightarrow> bytes \<Rightarrow> WSBridge \<Rightarrow> outcome \<times> peer result" where
  "dial net i addr key b =
     (case RegisterClient net i addr key of
        (cb, res) \<Rightarrow>
          (case cb of
             None \<Rightarrow> (acceptAll net (incoming net i) (b, [DialTo addr]), res None)
           | Some p \<Rightarrow>
               (case connectionHandler net p b of
                  ((b', es), err) \<Rightarrow>
                    (acceptAll net (incoming net i) (b', DialTo addr # es), res err))))"

definition dropPeer :: "peer \<Rightarrow> outcome \<Rightarrow> outcome" where
  "dropPeer p st =
     (case st of (b, es) \<Rightarrow>
        (case detachPeerLocked (hex_encode (GetID p)) p b of
           ((b', es'), _) \<Rightarrow> (b', es @ es' @ [ClosePeer p])))"

text \<open>The end of both handlers: take ownership or give the peer up.\<close>

definition claimPeer :: "net \<Rightarrow> client_ref \<Rightarrow> WSRequest \<Rightarrow> peer \<Rightarrow> outcome \<Rightarrow> outcome" where
  "claimPeer net c req p st =
     (case st of (b, es) \<Rightarrow>
        (case installPeer net p (Some c) b of
           ((b', es'), Some e) \<Rightarrow>
             (case dropPeer p (b', es @ es') of (b2, es2) \<Rightarrow>
                (b2, es2 @ reply_to c req (failed (Wrap ''adnl connect ownership failed: '' e))))
         | ((b', es'), None) \<Rightarrow>
             (addClientPeer c (hex_encode (GetID p)) b',
              es @ es' @ reply_to c req (connected_result net p))))"

definition room_for_peer :: "WSBridge \<Rightarrow> client_ref \<Rightarrow> unit checked" where
  "room_for_peer b c =
     require (int (length (peers (heap b c))) < max_peers b) (peer_limit_error b) (Inr ())"

definition connectNew ::
  "net \<Rightarrow> client_ref \<Rightarrow> WSRequest \<Rightarrow> string \<Rightarrow> bytes \<Rightarrow> WSBridge \<Rightarrow> outcome" where
  "connectNew net c req addr key b =
     handler c req b (room_for_peer b c) (\<lambda>_.
       case dial net 0 addr key b of
         ((b1, es), Inl e) \<Rightarrow> (b1, es @ reply_to c req (failed (Wrap ''adnl connect failed: '' e)))
       | ((b1, es), Inr p) \<Rightarrow>
           (case Ping net 0 p of
              Inl e \<Rightarrow>
                (case dropPeer p (b1, es @ [PingPeer p]) of (b2, es2) \<Rightarrow>
                   (b2, es2 @ reply_to c req (failed (Wrap ''ADNL peer did not answer liveness ping: '' e))))
            | Inr _ \<Rightarrow> claimPeer net c req p (b1, es @ [PingPeer p])))"

definition handleADNLConnect ::
  "net \<Rightarrow> tl_lib \<Rightarrow> client_ref \<Rightarrow> WSRequest \<Rightarrow> WSBridge \<Rightarrow> outcome" where
  "handleADNLConnect net tlib c req b =
     handler c req b (connect_checks (cfg b) tlib req) (\<lambda>(addr, key, k).
       case gm_get (activePeers b) k of
         Some existing \<Rightarrow> reusePeer net c req k existing b
       | None \<Rightarrow> connectNew net c req addr key b)"

subsection \<open>By ADNL identity\<close>

definition connect_by_adnl_checks :: "WSRequest \<Rightarrow> bytes checked" where
  "connect_by_adnl_checks req =
     with_params [f_adnl_id] req (\<lambda>prm.
     with_base64 ''adnl_id'' (p_adnl_id prm) (\<lambda>adnlID.
     require (length adnlID = 32) (bad (Lit ''adnl_id must be 32 bytes'')) (Inr adnlID)))"

text \<open>The candidates in order; the first that answers a ping is taken.\<close>

fun tryEndpoints ::
  "net \<Rightarrow> bytes \<Rightarrow> nat \<Rightarrow> string list \<Rightarrow> outcome \<Rightarrow> outcome \<times> peer option" where
  "tryEndpoints net key i [] st = (st, None)"
| "tryEndpoints net key i (addr # addrs) (b, es) =
     (case dial net i addr key b of
        ((b1, es1), Inl _) \<Rightarrow> tryEndpoints net key (Suc i) addrs (b1, es @ es1)
      | ((b1, es1), Inr p) \<Rightarrow>
          (case Ping net i p of
             Inl _ \<Rightarrow> tryEndpoints net key (Suc i) addrs (dropPeer p (b1, es @ es1 @ [PingPeer p]))
           | Inr _ \<Rightarrow> ((b1, es @ es1 @ [PingPeer p]), Some p)))"

definition connectByADNLNew ::
  "net \<Rightarrow> client_ref \<Rightarrow> WSRequest \<Rightarrow> bytes \<Rightarrow> WSBridge \<Rightarrow> outcome" where
  "connectByADNLNew net c req adnlID b =
     handler c req b (room_for_peer b c) (\<lambda>_.
       case FindAddresses net adnlID of
         Inl e \<Rightarrow> (b, reply_to c req (failed (Wrap ''dht resolve failed: '' e)))
       | Inr (addrs, pubKey) \<Rightarrow>
           if addrs = [] then (b, reply_to c req (bad (Lit ''no addresses found for ADNL ID'')))
           else
            (case tryEndpoints net pubKey 0 (publicADNLEndpoints addrs 8) (b, []) of
               ((b1, es), None) \<Rightarrow>
                 (b1, es @ reply_to c req (failed (Lit ''no live public ADNL address found'')))
             | (st, Some p) \<Rightarrow> claimPeer net c req p st))"

definition handleADNLConnectByADNL :: "net \<Rightarrow> client_ref \<Rightarrow> WSRequest \<Rightarrow> WSBridge \<Rightarrow> outcome" where
  "handleADNLConnectByADNL net c req b =
     handler c req b (connect_by_adnl_checks req) (\<lambda>adnlID.
       let k = hex_encode adnlID in
       case gm_get (activePeers b) k of
         Some existing \<Rightarrow> reusePeer net c req k existing b
       | None \<Rightarrow> connectByADNLNew net c req adnlID b)"

section \<open>Using a peer\<close>

definition owned_peer :: "WSBridge \<Rightarrow> client_ref \<Rightarrow> string \<Rightarrow> (peer \<Rightarrow> 'a checked) \<Rightarrow> 'a checked" where
  "owned_peer b c k f =
     present (gm_get (activePeers b) k) (bad (Lit ''peer not found'')) (\<lambda>p.
     require (clientOwnsPeer b c k) (bad (Lit ''peer not owned by this client'')) (f p))"

definition handleADNLSendMessage :: "net \<Rightarrow> client_ref \<Rightarrow> WSRequest \<Rightarrow> WSBridge \<Rightarrow> outcome" where
  "handleADNLSendMessage net c req b =
     handler c req b
       (with_params [f_peer_id, f_data] req (\<lambda>prm.
        with_base64 ''peer_id'' (p_peer_id prm) (\<lambda>peerID.
        with_base64 ''data'' (p_data prm) (\<lambda>data.
        owned_peer b c (hex_encode peerID) (\<lambda>p. Inr (p, data))))))
       (\<lambda>(p, data).
         case SendCustomMessage net p (RawMessage data) of
           Some e \<Rightarrow> (b, SendTo p (RawMessage data) # reply_to c req (failed (Wrap ''send failed: '' e)))
         | None \<Rightarrow> (b, SendTo p (RawMessage data) # reply_to c req (Result (JObj [(''sent'', JBool True)]))))"

text \<open>\<open>Duration.Milliseconds\<close> of the round trip that \<open>Ping\<close> measured in nanoseconds.\<close>

definition milliseconds :: "int \<Rightarrow> int" where
  "milliseconds d = d sdiv 1000000"

definition handleADNLPing :: "net \<Rightarrow> client_ref \<Rightarrow> WSRequest \<Rightarrow> WSBridge \<Rightarrow> outcome" where
  "handleADNLPing net c req b =
     handler c req b
       (with_params [f_peer_id] req (\<lambda>prm.
        with_base64 ''peer_id'' (p_peer_id prm) (\<lambda>peerID.
        owned_peer b c (hex_encode peerID) (\<lambda>p. Inr p))))
       (\<lambda>p.
         case Ping net 0 p of
           Inl e \<Rightarrow> (b, PingPeer p # reply_to c req (failed (Wrap ''ping failed: '' e)))
         | Inr latency \<Rightarrow>
             (b, PingPeer p # reply_to c req (Result (JObj [(''latency_ms'', jint (milliseconds latency))]))))"

definition disconnect_checks :: "WSBridge \<Rightarrow> client_ref \<Rightarrow> WSRequest \<Rightarrow> (string \<times> peer) checked" where
  "disconnect_checks b c req =
     with_params [f_peer_id] req (\<lambda>prm.
     with_base64 ''peer_id'' (p_peer_id prm) (\<lambda>peerID.
     let k = hex_encode peerID in
     require (clientOwnsPeer b c k) (bad (Lit ''peer not owned by this client'')) (
     present (gm_get (activePeers b) k) (bad (Lit ''peer not found'')) (\<lambda>p. Inr (k, p)))))"

definition handleADNLDisconnect :: "client_ref \<Rightarrow> WSRequest \<Rightarrow> WSBridge \<Rightarrow> outcome" where
  "handleADNLDisconnect c req b =
     handler c req b (disconnect_checks b c req) (\<lambda>(k, p).
       case detachPeerLocked k p b of
         ((b', es), None) \<Rightarrow> (b', es @ reply_to c req (bad (Lit ''peer changed during disconnect'')))
       | ((b', es), Some _) \<Rightarrow>
           (b', es @ ClosePeer p # reply_to c req (Result (JObj [(''disconnected'', JBool True)]))))"

definition handleADNLPeers :: "net \<Rightarrow> client_ref \<Rightarrow> WSRequest \<Rightarrow> WSBridge \<Rightarrow> outcome" where
  "handleADNLPeers net c req b =
     (let infos = map (\<lambda>p. JObj [(''id'', jpeer_id p), (''addr'', JStr (RemoteAddr net p))])
            (List.map_filter (gm_get (activePeers b)) (peers (heap b c)))
      in (b, reply_to c req (Result (JObj [(''peers'', JArr infos)]))))"

section \<open>Queries\<close>

definition query_checks ::
  "tl_lib \<Rightarrow> WSBridge \<Rightarrow> client_ref \<Rightarrow> WSRequest \<Rightarrow> (peer \<times> tl_obj \<times> rpc_params) checked" where
  "query_checks tlib b c req =
     with_params [f_peer_id, f_data, f_timeout, f_raw] req (\<lambda>prm.
     with_base64 ''peer_id'' (p_peer_id prm) (\<lambda>peerID.
     with_base64 ''data'' (p_data prm) (\<lambda>data.
     with_payload_size ''query'' data (
     attempt (parseRPCPayload tlib data (p_raw prm)) (\<lambda>e. bad (Wrap ''invalid query payload: '' e)) (\<lambda>query.
     owned_peer b c (hex_encode peerID) (\<lambda>p. Inr (p, query, prm)))))))"

text \<open>The reply to a query: nothing, a serialized object, or an error.\<close>

definition query_reply :: "tl_lib \<Rightarrow> bool \<Rightarrow> (tl_obj option) result \<Rightarrow> reply" where
  "query_reply tlib raw res =
     (case res of
        Inl e \<Rightarrow> failed (Wrap ''query failed: '' e)
      | Inr None \<Rightarrow> Result (JObj [(''data'', JStr [])])
      | Inr (Some r) \<Rightarrow>
          (case serializeRPCPayload tlib r raw of
             Inl e \<Rightarrow> failed (Wrap ''query returned a non-serializable TL response: '' e)
           | Inr d \<Rightarrow> Result (JObj [(''data'', jbytes d)])))"

definition handleADNLQuery ::
  "net \<Rightarrow> tl_lib \<Rightarrow> client_ref \<Rightarrow> WSRequest \<Rightarrow> WSBridge \<Rightarrow> outcome" where
  "handleADNLQuery net tlib c req b =
     handler c req b (query_checks tlib b c req) (\<lambda>(p, query, prm).
       let ns = ADNL (Namespaces (cfg b));
           t = query_deadline (Timeout ns) (QueryMaxTimeout ns) (p_timeout prm)
       in (b, QueryTo p query t # reply_to c req (query_reply tlib (p_raw prm) (Query net p query t))))"

definition handleADNLSetQueryHandler :: "client_ref \<Rightarrow> WSRequest \<Rightarrow> WSBridge \<Rightarrow> outcome" where
  "handleADNLSetQueryHandler c req b =
     handler c req b
       (with_params [f_peer_id] req (\<lambda>prm.
        with_base64 ''peer_id'' (p_peer_id prm) (\<lambda>peerID.
        owned_peer b c (hex_encode peerID) (\<lambda>p. Inr (hex_encode peerID, p)))))
       (\<lambda>(k, p).
         (b\<lparr>peerQueries := gm_put k \<lparr>qh_peerHex = k, qh_peer = p, qh_client = c\<rparr> (peerQueries b)\<rparr>,
          reply_to c req (Result (JObj [(''enabled'', JBool True)]))))"

section \<open>Answers\<close>

definition answer_checks :: "tl_lib \<Rightarrow> WSRequest \<Rightarrow> (string \<times> bytes \<times> tl_obj) checked" where
  "answer_checks tlib req =
     with_params [f_query_id, f_data, f_raw] req (\<lambda>prm.
     with_base64 ''data'' (p_data prm) (\<lambda>data.
     with_payload_size ''answer'' data (
     attempt (hex_decode (p_query_id prm)) (\<lambda>e. bad (Wrap ''invalid query_id hex: '' e)) (\<lambda>qid.
     require (length qid = 32) (bad (Lit ''query_id must be 32 bytes'')) (
     attempt (parseRPCPayload tlib data (p_raw prm)) (\<lambda>e. bad (Wrap ''invalid answer payload: '' e)) (\<lambda>ans.
     Inr (p_query_id prm, qid, ans)))))))"

text \<open>First critical section: find the entry, evict it when it is stale, check its owner.\<close>

definition answer_lookup ::
  "int \<Rightarrow> client_ref \<Rightarrow> string \<Rightarrow> WSBridge \<Rightarrow> WSBridge \<times> pendingQuery checked" where
  "answer_lookup now c q b =
     (case gm_get (pendingQueries b) q of
        None \<Rightarrow> (b, Inl (bad (Lit ''query not found or expired'')))
      | Some pq \<Rightarrow>
          if pq_deadline pq < now
          then (b\<lparr>pendingQueries := gm_del q (pendingQueries b)\<rparr>,
                Inl (bad (Lit ''query not found or expired'')))
          else if pq_owner pq \<noteq> None \<and> pq_owner pq \<noteq> Some c
          then (b, Inl (bad (Lit ''query not owned by this client'')))
          else (b, Inr pq))"

text \<open>Last critical section: the entry goes only if it is still the one that was answered.\<close>

definition answer_finish :: "string \<Rightarrow> pendingQuery \<Rightarrow> WSBridge \<Rightarrow> WSBridge" where
  "answer_finish q pq b =
     (if gm_get (pendingQueries b) q = Some pq
      then b\<lparr>pendingQueries := gm_del q (pendingQueries b)\<rparr> else b)"

text \<open>
  \<open>other i\<close> is what the other goroutines do to the bridge in the \<open>i\<close>-th gap between the
  critical sections of one answer: after the lookup and during the call of \<open>Answer\<close>.
\<close>

definition answerQuery ::
  "net \<Rightarrow> tl_lib \<Rightarrow> int \<Rightarrow> (nat \<Rightarrow> WSBridge \<Rightarrow> WSBridge) \<Rightarrow> client_ref \<Rightarrow> WSRequest \<Rightarrow> WSBridge \<Rightarrow> outcome" where
  "answerQuery net tlib now other c req b =
     handler c req b (answer_checks tlib req) (\<lambda>(q, qid, ans).
       case answer_lookup now c q b of
         (b1, Inl r) \<Rightarrow> (b1, reply_to c req r)
       | (b1, Inr pq) \<Rightarrow>
           (let b2 = other 0 b1; p = pq_peer pq in
            if gm_get (activePeers b2) (hex_encode (GetID p)) \<noteq> Some p
            then (b2, reply_to c req (bad (Lit ''peer disconnected before answer could be sent'')))
            else
              (let b3 = other 1 b2 in
               case Answer net p qid ans of
                 Some e \<Rightarrow> (b3, AnswerTo p qid ans # reply_to c req (failed (Wrap ''answer failed: '' e)))
               | None \<Rightarrow>
                   (answer_finish q pq b3,
                    AnswerTo p qid ans # reply_to c req (Result (JObj [(''answered'', JBool True)]))))))"

definition handleADNLAnswer ::
  "net \<Rightarrow> tl_lib \<Rightarrow> int \<Rightarrow> (nat \<Rightarrow> WSBridge \<Rightarrow> WSBridge) \<Rightarrow> client_ref \<Rightarrow> WSRequest \<Rightarrow> WSBridge \<Rightarrow> outcome" where
  "handleADNLAnswer = answerQuery"

section \<open>The sweep of pending queries\<close>

definition sweepPendingQueries :: "int \<Rightarrow> WSBridge \<Rightarrow> WSBridge" where
  "sweepPendingQueries now b =
     b\<lparr>pendingQueries := gm_filter (\<lambda>_ pq. \<not> pq_deadline pq < now) (pendingQueries b)\<rparr>"

end
