(* ===== verification/Slots.thy ===== *)
theory Slots
  imports Main
begin

text \<open>
  The contract that the bridge's three per-client limits share: a counter with a capacity, a
  non-blocking attempt to take a slot and a way to give it back. The in-flight semaphore, the
  broadcast semaphore and the subscription counter are instances.
\<close>

text \<open>A run of attempts (\<open>True\<close>) and returns (\<open>False\<close>, ignored when nothing is held).\<close>

primrec slot_run :: "('s \<Rightarrow> int) \<Rightarrow> ('s \<Rightarrow> 's option) \<Rightarrow> ('s \<Rightarrow> 's) \<Rightarrow> bool list \<Rightarrow> 's \<Rightarrow> 's" where
  "slot_run held take_slot give_slot [] s = s"
| "slot_run held take_slot give_slot (x # xs) s =
     slot_run held take_slot give_slot xs
       (if x then (case take_slot s of None \<Rightarrow> s | Some s' \<Rightarrow> s')
        else if 0 < held s then give_slot s else s)"

primrec take_many :: "('s \<Rightarrow> 's option) \<Rightarrow> nat \<Rightarrow> 's \<Rightarrow> 's option" where
  "take_many take_slot 0 s = Some s"
| "take_many take_slot (Suc n) s =
     (case take_slot s of None \<Rightarrow> None | Some s' \<Rightarrow> take_many take_slot n s')"

text \<open>
  The laws hold on the states of a predicate \<open>valid\<close> that every operation keeps: the subscription
  counter is an \<open>int32\<close> and counts correctly only below its largest value.
\<close>

locale guarded_slots =
  fixes valid :: "'s \<Rightarrow> bool" and held :: "'s \<Rightarrow> int" and cap :: "'s \<Rightarrow> int"
    and take_slot :: "'s \<Rightarrow> 's option" and give_slot :: "'s \<Rightarrow> 's"
  assumes full_iff: "valid s \<Longrightarrow> take_slot s = None \<longleftrightarrow> cap s \<le> held s"
    and taken: "valid s \<Longrightarrow> take_slot s = Some s' \<Longrightarrow> held s' = held s + 1 \<and> cap s' = cap s \<and> valid s'"
    and given: "valid s \<Longrightarrow> 0 < held s \<Longrightarrow>
      held (give_slot s) = held s - 1 \<and> cap (give_slot s) = cap s \<and> valid (give_slot s)"
begin

lemma taken_below: "valid s \<Longrightarrow> take_slot s = Some s' \<Longrightarrow> held s < cap s"
  using full_iff [of s] by fastforce

lemma take_give:
  "valid s \<Longrightarrow> take_slot s = Some s' \<Longrightarrow> 0 \<le> held s \<Longrightarrow> held (give_slot s') = held s"
  using taken [of s s'] given [of s'] by simp

lemma run_bounded:
  "valid s \<Longrightarrow> held s \<le> cap s \<Longrightarrow> 0 \<le> held s \<Longrightarrow>
   0 \<le> held (slot_run held take_slot give_slot xs s)
   \<and> held (slot_run held take_slot give_slot xs s) \<le> cap s
   \<and> cap (slot_run held take_slot give_slot xs s) = cap s"
proof (induction xs arbitrary: s)
  case (Cons x xs)
  define s1 where "s1 = (if x then (case take_slot s of None \<Rightarrow> s | Some s' \<Rightarrow> s')
        else if 0 < held s then give_slot s else s)"
  have "valid s1 \<and> held s1 \<le> cap s \<and> 0 \<le> held s1 \<and> cap s1 = cap s"
    using Cons.prems taken [of s] taken_below [of s] given [of s]
    by (auto simp: s1_def split: option.split)
  with Cons.IH [of s1] show ?case by (simp add: s1_def)
qed simp

lemma take_many_iff:
  "valid s \<Longrightarrow> (\<exists>s'. take_many take_slot n s = Some s') \<longleftrightarrow> n = 0 \<or> held s + int n \<le> cap s"
proof (induction n arbitrary: s)
  case (Suc n)
  show ?case
  proof (cases "take_slot s")
    case None
    with Suc.prems full_iff [of s] show ?thesis by simp
  next
    case (Some s')
    with Suc.IH [of s'] taken [OF Suc.prems Some] taken_below [OF Suc.prems Some] show ?thesis by auto
  qed
qed simp

lemma take_many_held:
  "valid s \<Longrightarrow> take_many take_slot n s = Some s' \<Longrightarrow> held s' = held s + int n \<and> cap s' = cap s"
proof (induction n arbitrary: s)
  case (Suc n)
  then obtain s1 where s1: "take_slot s = Some s1" "take_many take_slot n s1 = Some s'"
    by (auto split: option.splits)
  from taken [OF Suc.prems(1) s1(1)] Suc.IH [OF _ s1(2)] show ?case by simp
qed simp

end

text \<open>A semaphore channel counts correctly in every state.\<close>

locale slots =
  fixes held :: "'s \<Rightarrow> int" and cap :: "'s \<Rightarrow> int"
    and take_slot :: "'s \<Rightarrow> 's option" and give_slot :: "'s \<Rightarrow> 's"
  assumes always_full_iff: "take_slot s = None \<longleftrightarrow> cap s \<le> held s"
    and always_taken: "take_slot s = Some s' \<Longrightarrow> held s' = held s + 1 \<and> cap s' = cap s"
    and always_given: "0 < held s \<Longrightarrow> held (give_slot s) = held s - 1 \<and> cap (give_slot s) = cap s"

sublocale slots \<subseteq> always: guarded_slots "\<lambda>_. True" held cap take_slot give_slot
  by unfold_locales (auto simp: always_full_iff always_taken always_given)

context slots
begin

lemmas full_iff = always.full_iff [OF TrueI]
lemmas taken = always_taken
lemmas given = always_given
lemmas taken_below = always.taken_below [OF TrueI]
lemmas take_give = always.take_give [OF TrueI]
lemmas run_bounded = always.run_bounded [OF TrueI]
lemmas take_many_iff = always.take_many_iff [OF TrueI]
lemmas take_many_held = always.take_many_held [OF TrueI]

end

end
