(* ===== verification/OverlayHandlers.thy ===== *)
theory OverlayHandlers
  imports AdnlHandlers Slots
begin

text \<open>
  The overlay namespace (wsbridge/overlay.go): joining and leaving overlays on an owned peer,
  messages, raw TL objects, broadcasts with their four slots per client, queries and answers,
  and the closures that push overlay traffic to the client that joined.
\<close>

text \<open>The UTF-8 bytes of the dash in two error texts.\<close>

definition em_dash :: string where
  "em_dash = [CHR 0xE2, CHR 0x80, CHR 0x94]"

definition max_overlays :: "WSBridge \<Rightarrow> int" where
  "max_overlays b = MaxOverlays (Overlay (Namespaces (cfg b)))"

definition joined_result :: "string \<Rightarrow> reply" where
  "joined_result overlayID =
     Result (JObj [(''joined'', JBool True), (''overlay_id'', JStr overlayID)])"

section \<open>Joining and leaving\<close>

definition join_params :: "WSRequest \<Rightarrow> (string \<times> bytes \<times> string) checked" where
  "join_params req =
     with_params [f_overlay_id, f_peer_id] req (\<lambda>prm.
     with_base64 ''overlay_id'' (p_overlay_id prm) (\<lambda>overlayID.
     with_base64 ''peer_id'' (p_peer_id prm) (\<lambda>peerID.
     Inr (p_overlay_id prm, overlayID, hex_encode peerID))))"

definition join_checks :: "WSBridge \<Rightarrow> client_ref \<Rightarrow> string \<Rightarrow> manager_ref checked" where
  "join_checks b c k =
     require (int (length (overlays (heap b c))) < max_overlays b)
       (bad (Lit (''max overlays limit reached ('' @ show_int (max_overlays b) @ '')''))) (
     require (gm_get (activePeers b) k \<noteq> None)
       (bad (Lit (''peer not found '' @ em_dash @ '' connect first via adnl.connect''))) (
     present (gm_get (peerWrappers b) k)
       (bad (Lit (''peer not found '' @ em_dash @ '' connect first via adnl.connect''))) (\<lambda>m.
     require (clientOwnsPeer b c k) (bad (Lit ''peer not owned by this client'')) (Inr m))))"

text \<open>The answer for an overlay that is joined already.\<close>

definition rejoin :: "WSBridge \<Rightarrow> client_ref \<Rightarrow> string \<Rightarrow> string \<Rightarrow> string \<Rightarrow> reply" where
  "rejoin b c ov k overlayID =
     (if \<not> clientOwnsOverlay b c ov then bad (Lit ''overlay is already joined by another client'')
      else if (case gm_get (overlayToPeer b) ov of None \<Rightarrow> [] | Some x \<Rightarrow> x) \<noteq> k
      then bad (Lit ''overlay is already attached to another peer'')
      else joined_result overlayID)"

definition handleOverlayJoin :: "net \<Rightarrow> client_ref \<Rightarrow> WSRequest \<Rightarrow> WSBridge \<Rightarrow> outcome" where
  "handleOverlayJoin net c req b =
     handler c req b (join_params req) (\<lambda>(prm_id, overlayID, k).
     handler c req b (join_checks b c k) (\<lambda>m.
       let ov = hex_encode overlayID in
       if gm_get (activeOverlays b) ov \<noteq> None then (b, reply_to c req (rejoin b c ov k prm_id))
       else
        (case NewBroadcastReceiver net overlayID of
           Inl e \<Rightarrow> (b, reply_to c req (bad (Wrap ''failed to create overlay receiver: '' e)))
         | Inr rcv \<Rightarrow>
            (case AttachOverlay net m rcv of
               Inl e \<Rightarrow> (b, CloseReceiver rcv # reply_to c req (failed (Wrap ''failed to attach overlay: '' e)))
             | Inr ow \<Rightarrow>
                (upd_client c (\<lambda>w. w\<lparr>overlays := overlays w @ [ov]\<rparr>)
                   (b\<lparr>activeOverlays := gm_put ov ow (activeOverlays b),
                      overlayToPeer := gm_put ov k (overlayToPeer b)\<rparr>),
                 reply_to c req (joined_result prm_id))))))"

definition handleOverlayLeave :: "client_ref \<Rightarrow> WSRequest \<Rightarrow> WSBridge \<Rightarrow> outcome" where
  "handleOverlayLeave c req b =
     handler c req b
       (with_params [f_overlay_id] req (\<lambda>prm.
        with_base64 ''overlay_id'' (p_overlay_id prm) (\<lambda>overlayID.
        let ov = hex_encode overlayID in
        require (clientOwnsOverlay b c ov) (bad (Lit ''overlay not owned by this client'')) (
        present (gm_get (activeOverlays b) ov) (bad (Lit ''overlay not found'')) (\<lambda>ow.
        Inr (ov, ow))))))
       (\<lambda>(ov, ow).
         (upd_client c (\<lambda>w. w\<lparr>overlays := remove1 ov (overlays w)\<rparr>)
            (b\<lparr>activeOverlays := gm_del ov (activeOverlays b),
               overlayToPeer := gm_del ov (overlayToPeer b)\<rparr>),
          closeOverlay ow @ reply_to c req (Result (JObj [(''left'', JBool True)]))))"

section \<open>Using an overlay\<close>

definition owned_overlay ::
  "WSBridge \<Rightarrow> client_ref \<Rightarrow> string \<Rightarrow> (overlay_ref \<Rightarrow> 'a checked) \<Rightarrow> 'a checked" where
  "owned_overlay b c ov f =
     present (gm_get (activeOverlays b) ov) (bad (Lit (''overlay not found '' @ em_dash @ '' join first via overlay.join''))) (\<lambda>ow.
     require (clientOwnsOverlay b c ov) (bad (Lit ''overlay not owned by this client'')) (f ow))"

text \<open>Nodes without an Ed25519 key, or whose identity does not hash, are left out.\<close>

definition node_json :: "overlay_node \<Rightarrow> json option" where
  "node_json n =
     (case node_key n of
        None \<Rightarrow> None
      | Some key \<Rightarrow>
          (case node_hash n of
             Inl _ \<Rightarrow> None
           | Inr adnlID \<Rightarrow> Some (JObj
               [(''id'', jbytes key), (''adnl_id'', jbytes adnlID), (''overlay'', jbytes (node_overlay n))])))"

definition handleOverlayGetPeers :: "net \<Rightarrow> client_ref \<Rightarrow> WSRequest \<Rightarrow> WSBridge \<Rightarrow> outcome" where
  "handleOverlayGetPeers net c req b =
     handler c req b
       (with_params [f_overlay_id] req (\<lambda>prm.
        with_base64 ''overlay_id'' (p_overlay_id prm) (\<lambda>overlayID.
        owned_overlay b c (hex_encode overlayID) (\<lambda>ow. Inr ow))))
       (\<lambda>ow.
         case GetRandomPeers net ow of
           Inl e \<Rightarrow> (b, reply_to c req (failed (Wrap ''get peers failed: '' e)))
         | Inr nodes \<Rightarrow> (b, reply_to c req (Result (JObj
             [(''peers'', JArr (List.map_filter node_json nodes))]))))"

definition send_reply :: "goerr option \<Rightarrow> reply" where
  "send_reply r =
     (case r of Some e \<Rightarrow> failed (Wrap ''send failed: '' e) | None \<Rightarrow> Result (JObj [(''sent'', JBool True)]))"

definition handleOverlaySendMessage :: "net \<Rightarrow> client_ref \<Rightarrow> WSRequest \<Rightarrow> WSBridge \<Rightarrow> outcome" where
  "handleOverlaySendMessage net c req b =
     handler c req b
       (with_params [f_overlay_id, f_data] req (\<lambda>prm.
        with_base64 ''overlay_id'' (p_overlay_id prm) (\<lambda>overlayID.
        with_base64 ''data'' (p_data prm) (\<lambda>data.
        owned_overlay b c (hex_encode overlayID) (\<lambda>ow. Inr (ow, RawMessage data))))))
       (\<lambda>(ow, msg).
         (b, SendOverlay ow msg # reply_to c req (send_reply (ow_SendCustomMessage net ow msg))))"

definition handleOverlaySendRaw :: "net \<Rightarrow> tl_lib \<Rightarrow> client_ref \<Rightarrow> WSRequest \<Rightarrow> WSBridge \<Rightarrow> outcome" where
  "handleOverlaySendRaw net tlib c req b =
     handler c req b
       (with_params [f_overlay_id, f_data] req (\<lambda>prm.
        with_base64 ''overlay_id'' (p_overlay_id prm) (\<lambda>overlayID.
        with_base64 ''data'' (p_data prm) (\<lambda>data.
        owned_overlay b c (hex_encode overlayID) (\<lambda>ow.
        attempt (parseBoxedTL tlib data) (\<lambda>e. bad (Wrap ''invalid boxed TL payload: '' e)) (\<lambda>obj.
        Inr (ow, obj)))))))
       (\<lambda>(ow, msg).
         (b, SendOverlay ow msg # reply_to c req (send_reply (ow_SendCustomMessage net ow msg))))"

section \<open>Broadcasting\<close>

definition broadcast_checks :: "WSBridge \<Rightarrow> client_ref \<Rightarrow> WSRequest \<Rightarrow> (overlay_ref \<times> bytes) checked" where
  "broadcast_checks b c req =
     with_params [f_overlay_id, f_data] req (\<lambda>prm.
     with_base64 ''overlay_id'' (p_overlay_id prm) (\<lambda>overlayID.
     with_base64 ''data'' (p_data prm) (\<lambda>data.
     require (data \<noteq> []) (bad (Lit ''data is empty'')) (
     require (length data \<le> maxOverlayBroadcastSize)
       (bad (Lit (''data too large ('' @ show_nat (length data) @ '' bytes, max '' @
          show_nat maxOverlayBroadcastSize @ '')''))) (
     owned_overlay b c (hex_encode overlayID) (\<lambda>ow. Inr (ow, data)))))))"

text \<open>The non-blocking send to \<open>broadcastSem\<close> and the receive that frees the slot.\<close>

definition takeBroadcast :: "client_ref \<Rightarrow> WSBridge \<Rightarrow> WSBridge option" where
  "takeBroadcast c b =
     (if broadcasts (heap b c) < maxConcurrentOverlayBroadcasts
      then Some (upd_client c (\<lambda>w. w\<lparr>broadcasts := broadcasts w + 1\<rparr>) b) else None)"

definition broadcastDone :: "client_ref \<Rightarrow> WSBridge \<Rightarrow> WSBridge" where
  "broadcastDone c b = upd_client c (\<lambda>w. w\<lparr>broadcasts := broadcasts w - 1\<rparr>) b"

interpretation broadcast_slots:
  slots "\<lambda>b. int (broadcasts (heap b c))" "\<lambda>_. int maxConcurrentOverlayBroadcasts"
    "takeBroadcast c" "broadcastDone c" for c
  by unfold_locales (auto simp: takeBroadcast_def broadcastDone_def split: if_splits)

text \<open>
  The slot is taken before the sender is built and given back when building fails; otherwise the
  background run keeps it until it ends with \<open>broadcastDone\<close>.
\<close>

definition start_broadcast ::
  "net \<Rightarrow> client_ref \<Rightarrow> WSRequest \<Rightarrow> overlay_ref \<Rightarrow> bytes \<Rightarrow> WSBridge \<Rightarrow> outcome" where
  "start_broadcast net c req ow data b1 =
     (case NewBroadcastFECSender net (RawMessage data) of
        Inl e \<Rightarrow> (broadcastDone c b1, reply_to c req (failed (Wrap ''broadcast init failed: '' e)))
      | Inr hash \<Rightarrow>
         (case NewBroadcastFECBroadcaster net hash ow of
            Inl e \<Rightarrow> (broadcastDone c b1, reply_to c req (failed (Wrap ''broadcaster init failed: '' e)))
          | Inr _ \<Rightarrow>
             (b1, BroadcastOverlay ow data # reply_to c req (Result (JObj
                [(''broadcast_id'', JStr (hex_encode hash))])))))"

definition too_many_broadcasts :: reply where
  "too_many_broadcasts = failed (Lit (''too many active overlay broadcasts (max '' @
     show_nat maxConcurrentOverlayBroadcasts @ '')''))"

definition handleOverlayBroadcast :: "net \<Rightarrow> client_ref \<Rightarrow> WSRequest \<Rightarrow> WSBridge \<Rightarrow> outcome" where
  "handleOverlayBroadcast net c req b =
     handler c req b (broadcast_checks b c req) (\<lambda>(ow, data).
       case takeBroadcast c b of
         None \<Rightarrow> (b, reply_to c req too_many_broadcasts)
       | Some b1 \<Rightarrow> start_broadcast net c req ow data b1)"

section \<open>Queries and answers\<close>

definition overlay_query_checks ::
  "tl_lib \<Rightarrow> WSBridge \<Rightarrow> client_ref \<Rightarrow> WSRequest \<Rightarrow> (overlay_ref \<times> tl_obj \<times> rpc_params) checked" where
  "overlay_query_checks tlib b c req =
     with_params [f_overlay_id, f_data, f_timeout, f_raw] req (\<lambda>prm.
     with_base64 ''overlay_id'' (p_overlay_id prm) (\<lambda>overlayID.
     with_base64 ''data'' (p_data prm) (\<lambda>data.
     with_payload_size ''query'' data (
     attempt (parseRPCPayload tlib data (p_raw prm)) (\<lambda>e. bad (Wrap ''invalid query payload: '' e)) (\<lambda>query.
     owned_overlay b c (hex_encode overlayID) (\<lambda>ow. Inr (ow, query, prm)))))))"

definition handleOverlayQuery ::
  "net \<Rightarrow> tl_lib \<Rightarrow> client_ref \<Rightarrow> WSRequest \<Rightarrow> WSBridge \<Rightarrow> outcome" where
  "handleOverlayQuery net tlib c req b =
     handler c req b (overlay_query_checks tlib b c req) (\<lambda>(ow, query, prm).
       let ns = Overlay (Namespaces (cfg b));
           t = query_deadline (Timeout ns) (ov_QueryMaxTimeout ns) (p_timeout prm)
       in (b, QueryOverlay ow query t # reply_to c req (query_reply tlib (p_raw prm) (ow_Query net ow query t))))"

text \<open>What the closure of \<open>overlay.setQueryHandler\<close> captures.\<close>

record overlay_handler = query_handler +
  oh_overlayID :: string

definition set_handler_checks ::
  "WSBridge \<Rightarrow> client_ref \<Rightarrow> WSRequest \<Rightarrow> (overlay_ref \<times> overlay_handler) checked" where
  "set_handler_checks b c req =
     with_params [f_overlay_id, f_peer_id] req (\<lambda>prm.
     with_base64 ''overlay_id'' (p_overlay_id prm) (\<lambda>overlayID.
     with_base64 ''peer_id'' (p_peer_id prm) (\<lambda>peerID.
     let ov = hex_encode overlayID; k = hex_encode peerID in
     owned_overlay b c ov (\<lambda>ow.
     present (gm_get (activePeers b) k) (bad (Lit (''peer not found '' @ em_dash @ '' connect first via adnl.connect''))) (\<lambda>p.
     require (clientOwnsPeer b c k) (bad (Lit ''peer not owned by this client'')) (
     require ((case gm_get (overlayToPeer b) ov of None \<Rightarrow> [] | Some x \<Rightarrow> x) = k)
       (bad (Lit ''overlay is not attached to the requested peer'')) (
     Inr (ow, \<lparr>qh_peerHex = k, qh_peer = p, qh_client = c, oh_overlayID = p_overlay_id prm\<rparr>))))))))"

text \<open>The handler is handed to the wrapper; the bridge keeps no copy of it.\<close>

definition handleOverlaySetQueryHandler ::
  "client_ref \<Rightarrow> WSRequest \<Rightarrow> WSBridge \<Rightarrow> outcome \<times> (overlay_ref \<times> overlay_handler) option" where
  "handleOverlaySetQueryHandler c req b =
     (case set_handler_checks b c req of
        Inl r \<Rightarrow> ((b, reply_to c req r), None)
      | Inr h \<Rightarrow> ((b, reply_to c req (Result (JObj [(''enabled'', JBool True)]))), Some h))"

definition run_overlay_query_handler ::
  "tl_lib \<Rightarrow> int \<Rightarrow> overlay_handler \<Rightarrow> bytes \<Rightarrow> tl_obj \<Rightarrow> WSBridge \<Rightarrow> outcome" where
  "run_overlay_query_handler tlib now h qid msg b =
     (let queryID = hex_encode qid; raw = (case msg of RawMessage _ \<Rightarrow> True | _ \<Rightarrow> False) in
      case message_bytes tlib msg of
        Inl _ \<Rightarrow> (b, [])
      | Inr d \<Rightarrow>
          if gm_get (activePeers b) (qh_peerHex h) \<noteq> Some (qh_peer h) then (b, [])
          else
            (b\<lparr>pendingQueries := gm_put queryID
                 \<lparr>pq_peer = qh_peer h, pq_owner = Some (qh_client h),
                  pq_deadline = now + maxPendingQueryTTL\<rparr> (pendingQueries b)\<rparr>,
             sendEvent (qh_client h) ''overlay.queryReceived''
               (JObj [(''overlay_id'', JStr (oh_overlayID h)), (''query_id'', JStr queryID),
                      (''data'', jbytes d), (''raw'', JBool raw)])))"

definition handleOverlayAnswer ::
  "net \<Rightarrow> tl_lib \<Rightarrow> int \<Rightarrow> (nat \<Rightarrow> WSBridge \<Rightarrow> WSBridge) \<Rightarrow> client_ref \<Rightarrow> WSRequest \<Rightarrow> WSBridge \<Rightarrow> outcome" where
  "handleOverlayAnswer = answerQuery"

section \<open>Traffic of an overlay\<close>

datatype disposition = AcceptAndRelay | Ignore

definition bridgeBroadcastDisposition :: "bool \<Rightarrow> disposition" where
  "bridgeBroadcastDisposition trusted = (if trusted then AcceptAndRelay else Ignore)"

text \<open>\<open>delivered\<close> is the result of \<open>sendEvent\<close>: whether the frame was written.\<close>

definition overlay_broadcast_handler ::
  "tl_lib \<Rightarrow> client_ref \<Rightarrow> string \<Rightarrow> bool \<Rightarrow> tl_obj \<Rightarrow> bool \<Rightarrow> effect list \<times> disposition" where
  "overlay_broadcast_handler tlib c overlayID delivered msg trusted =
     (case tl_Serialize tlib msg of
        Inl _ \<Rightarrow> ([], Ignore)
      | Inr d \<Rightarrow>
          (sendEvent c ''overlay.broadcast''
             (JObj [(''overlay_id'', JStr overlayID), (''message'', jbytes d), (''trusted'', JBool trusted)]),
           if delivered then bridgeBroadcastDisposition trusted else Ignore))"

definition overlay_custom_handler ::
  "tl_lib \<Rightarrow> client_ref \<Rightarrow> string \<Rightarrow> tl_obj \<Rightarrow> effect list" where
  "overlay_custom_handler tlib c overlayID msg =
     (case message_bytes tlib msg of
        Inl _ \<Rightarrow> []
      | Inr d \<Rightarrow>
          sendEvent c ''overlay.message''
            (JObj [(''overlay_id'', JStr overlayID), (''message'', jbytes d)]))"

end
