(* ===== verification/HandlerInv.thy ===== *)
theory HandlerInv
  imports OverlayHandlers
begin

text \<open>
  Every handler of the adnl and overlay namespaces keeps the bridge invariant, and the handlers
  that hold the lifecycle lock through network calls keep it whatever arrives in between.
\<close>

lemma fst_case_prod: "fst (case x of (a, e) \<Rightarrow> (a, f a e)) = fst x"
  by (cases x) simp

lemma handler_state:
  "P b \<Longrightarrow> (\<And>x. checks = Inr x \<Longrightarrow> P (fst (act x))) \<Longrightarrow> P (fst (handler c req b checks act))"
  by (cases checks) simp_all

section \<open>Connecting\<close>

lemma acceptAll_from:
  assumes "bridge_inv b" and "acceptAll net ps (b, es) = (b', es')"
  shows "bridge_inv b'" and "grows b b'"
  using acceptAll_inv [of "(b, es)" net ps] acceptAll_grows [of "(b, es)" net ps] assms by simp_all

lemma dial_from:
  assumes "bridge_inv b" and "dial net i addr key b = ((b', es), r)"
  shows "bridge_inv b'" and "grows b b'"
proof -
  obtain cb res where c: "RegisterClient net i addr key = (cb, res)" by (metis surj_pair)
  have "bridge_inv b' \<and> grows b b'"
  proof (cases cb)
    case None
    with assms c acceptAll_from show ?thesis by (auto simp: dial_def)
  next
    case (Some p)
    obtain b1 es1 err where h: "connectionHandler net p b = ((b1, es1), err)" by (metis surj_pair)
    have "bridge_inv b1" "grows b b1"
      using assms(1) h connectionHandler_inv [of b net p] install_unowned_grows [of b net p]
        connectionHandler_state [of net p b] by simp_all
    moreover from assms(2) c Some h have "acceptAll net (incoming net i) (b1, DialTo addr # es1) = (b', es)"
      by (simp add: dial_def)
    ultimately show ?thesis using acceptAll_from [of b1] grows_trans by blast
  qed
  then show "bridge_inv b'" and "grows b b'" by simp_all
qed

text \<open>What the connect handlers rely on when they go on after a network call.\<close>

lemma grows_room:
  "grows b b' \<Longrightarrow> int (length (peers (heap b c))) < max_peers b \<Longrightarrow> int (length (peers (heap b' c))) < max_peers b'"
  by (simp add: grows_def max_peers_def)

lemma grows_clients: "grows b b' \<Longrightarrow> clients b' = clients b"
  by (simp add: grows_def)

lemma dropPeer_inv: "bridge_inv (fst st) \<Longrightarrow> bridge_inv (fst (dropPeer p st))"
  using detach_inv [of "fst st" "hex_encode (GetID p)" p] by (auto simp: dropPeer_def split: prod.split)

lemma dropPeer_clients:
  "clients (fst (dropPeer p st)) = clients (fst st)" "cfg (fst (dropPeer p st)) = cfg (fst st)"
  "length (peers (heap (fst (dropPeer p st)) c)) \<le> length (peers (heap (fst st) c))"
proof -
  obtain b es where st: "st = (b, es)" by (cases st)
  let ?k = "hex_encode (GetID p)"
  have d: "fst (dropPeer p st) = detached ?k p b"
    by (simp add: dropPeer_def st detached_def split: prod.split)
  have "clients (detached ?k p b) = clients b \<and> cfg (detached ?k p b) = cfg b
      \<and> length (peers (heap (detached ?k p b) c)) \<le> length (peers (heap b c))"
  proof (cases "gm_get (activePeers b) ?k = Some p")
    case True
    then show ?thesis by (simp add: detached_maps detached_heap)
  next
    case False
    then show ?thesis by (simp add: detached_def detach_stale)
  qed
  with d st show "clients (fst (dropPeer p st)) = clients (fst st)"
    "cfg (fst (dropPeer p st)) = cfg (fst st)"
    "length (peers (heap (fst (dropPeer p st)) c)) \<le> length (peers (heap (fst st) c))"
    by simp_all
qed

lemma claimPeer_inv:
  assumes inv: "bridge_inv (fst st)" and room: "int (length (peers (heap (fst st) c))) < max_peers (fst st)"
    and con: "gm_get (clients (fst st)) c \<noteq> None"
  shows "bridge_inv (fst (claimPeer net c req p st))"
proof -
  obtain b es where st: "st = (b, es)" by (cases st)
  obtain b' es' r where i: "installPeer net p (Some c) b = ((b', es'), r)" by (metis surj_pair)
  show ?thesis
  proof (cases r)
    case None
    with install_owned_inv [of b net p c b' es'] assms i st show ?thesis
      by (simp add: claimPeer_def max_peers_def)
  next
    case (Some e)
    with i have "b' = b" by (auto dest: install_failed)
    with dropPeer_inv [of "(b, es @ es')"] assms i st Some show ?thesis
      by (simp add: claimPeer_def split: prod.split) (metis fst_conv)
  qed
qed

lemma reusePeer_inv:
  assumes inv: "bridge_inv b" and act: "gm_get (activePeers b) k = Some p"
    and con: "gm_get (clients b) c \<noteq> None"
  shows "bridge_inv (fst (reusePeer net c req k p b))"
  unfolding reusePeer_def
proof (rule handler_state)
  show "bridge_inv b" by (rule inv)
  fix u
  assume "reuse_checks b c k = Inr u"
  then have room: "owner_of b k \<noteq> None \<or> int (length (peers (heap b c))) < max_peers b"
    by (simp add: reuse_checks_def passes Let_def)
  have k: "k = hex_encode (GetID p)" using inv act inv_key by (simp add: bridge_inv_def)
  obtain b1 es where a: "acceptAll net (incoming net 0) (b, [PingPeer p]) = (b1, es)" by (metis surj_pair)
  note g = acceptAll_from [OF inv a]
  have "bridge_inv (addClientPeer c k b2)"
    if i: "installPeer net p (Some c) b1 = ((b2, es'), None)" and own: "owner_of b k = None" for b2 es'
  proof -
    have "int (length (peers (heap b1 c))) < MaxPeers (ADNL (Namespaces (cfg b1)))"
      using grows_room [OF g(2)] room own by (simp add: max_peers_def)
    moreover have "gm_get (clients b1) c \<noteq> None" using con grows_clients [OF g(2)] by simp
    ultimately show ?thesis using install_owned_inv [OF g(1) i] k by simp
  qed
  moreover have "bridge_inv b2" if "installPeer net p (Some c) b1 = ((b2, es'), Some e)" for b2 es' e
    using install_failed [OF that] g(1) by simp
  ultimately show "bridge_inv (fst (let (b1, es) = acceptAll net (incoming net 0) (b, [PingPeer p]) in
       case Ping net 0 p of
         Inl _ \<Rightarrow>
           (b1, es @ reply_to c req
              (failed (Lit ''existing ADNL peer is not live; disconnect it before retrying'')))
       | Inr _ \<Rightarrow>
           if owner_of b k = None then
             (case installPeer net p (Some c) b1 of
                ((b2, es'), Some e) \<Rightarrow>
                  (b2, es @ es' @ reply_to c req (failed (Wrap ''adnl connect ownership failed: '' e)))
              | ((b2, es'), None) \<Rightarrow>
                  (addClientPeer c k b2, es @ es' @ reply_to c req (connected_result net p)))
           else (b1, es @ reply_to c req (connected_result net p))))"
    using g(1) by (auto simp: a split: sum.split prod.split option.split)
qed

lemma connectNew_inv:
  assumes inv: "bridge_inv b" and con: "gm_get (clients b) c \<noteq> None"
  shows "bridge_inv (fst (connectNew net c req addr key b))"
proof (cases "int (length (peers (heap b c))) < max_peers b")
  case False
  with inv show ?thesis by (simp add: connectNew_def room_for_peer_def)
next
  case True
  obtain b1 es r where d: "dial net 0 addr key b = ((b1, es), r)" by (metis surj_pair)
  note g = dial_from [OF inv d]
  have "bridge_inv (fst (claimPeer net c req p (b1, es')))" for p es'
    using claimPeer_inv [of "(b1, es')"] g grows_room [OF g(2) True] grows_clients [OF g(2)] con by simp
  moreover have "bridge_inv (fst (dropPeer p (b1, es')))" for p es'
    using dropPeer_inv [of "(b1, es')"] g(1) by simp
  moreover have "connectNew net c req addr key b =
      (case r of
         Inl e \<Rightarrow> (b1, es @ reply_to c req (failed (Wrap ''adnl connect failed: '' e)))
       | Inr p \<Rightarrow>
           (case Ping net 0 p of
              Inl e \<Rightarrow>
                (case dropPeer p (b1, es @ [PingPeer p]) of (b2, es2) \<Rightarrow>
                   (b2, es2 @ reply_to c req (failed (Wrap ''ADNL peer did not answer liveness ping: '' e))))
            | Inr _ \<Rightarrow> claimPeer net c req p (b1, es @ [PingPeer p])))"
    unfolding connectNew_def room_for_peer_def using True d by (cases r) simp_all
  ultimately show ?thesis
    using g(1) by (simp only: fst_case_prod split: sum.split) simp
qed

lemma handleADNLConnect_inv [inv_preserve]:
  assumes "bridge_inv b" and "gm_get (clients b) c \<noteq> None"
  shows "bridge_inv (fst (handleADNLConnect net tlib c req b))"
  unfolding handleADNLConnect_def
proof (rule handler_state)
  show "bridge_inv b" by (rule assms)
  fix x :: "string \<times> bytes \<times> string"
  obtain addr key k where x: "x = (addr, key, k)" by (cases x)
  show "bridge_inv (fst (case x of (addr, key, k) \<Rightarrow>
      (case gm_get (activePeers b) k of
         None \<Rightarrow> connectNew net c req addr key b
       | Some existing \<Rightarrow> reusePeer net c req k existing b)))"
    using reusePeer_inv [OF assms(1) _ assms(2)] connectNew_inv [OF assms]
    by (cases "gm_get (activePeers b) k") (simp_all add: x)
qed

lemma tryEndpoints_from:
  assumes "bridge_inv (fst st)" and "tryEndpoints net key i addrs st = (st', r)"
  shows "bridge_inv (fst st') \<and> (\<forall>c. clients (fst st') = clients (fst st)) \<and> cfg (fst st') = cfg (fst st)
    \<and> (\<forall>c. length (peers (heap (fst st') c)) \<le> length (peers (heap (fst st) c)))"
  using assms
proof (induction addrs arbitrary: i st)
  case (Cons addr addrs)
  obtain b es where st: "st = (b, es)" by (cases st)
  obtain b1 es1 res where d: "dial net i addr key b = ((b1, es1), res)" by (metis surj_pair)
  have inv: "bridge_inv b" using Cons.prems st by simp
  note g = dial_from [OF inv d]
  have same: "clients b1 = clients b" "cfg b1 = cfg b" "heap b1 = heap b" using g(2) by (simp_all add: grows_def)
  show ?case
  proof (cases res)
    case (Inl e)
    with Cons.prems st d have "tryEndpoints net key (Suc i) addrs (b1, es @ es1) = (st', r)" by simp
    from Cons.IH [OF _ this] g(1) same st show ?thesis by simp
  next
    case (Inr p)
    show ?thesis
    proof (cases "Ping net i p")
      case (Inr ms)
      with \<open>res = Inr p\<close> Cons.prems st d g(1) same show ?thesis by auto
    next
      case (Inl e)
      let ?st1 = "(b1, es @ es1 @ [PingPeer p])"
      have rec: "tryEndpoints net key (Suc i) addrs (dropPeer p ?st1) = (st', r)"
        using Inl \<open>res = Inr p\<close> Cons.prems st d by simp
      have inv1: "bridge_inv (fst (dropPeer p ?st1))" using dropPeer_inv [of ?st1] g(1) by simp
      have drop: "clients (fst (dropPeer p ?st1)) = clients b1" "cfg (fst (dropPeer p ?st1)) = cfg b1"
        "length (peers (heap (fst (dropPeer p ?st1)) c)) \<le> length (peers (heap b1 c))" for c
        using dropPeer_clients [of p ?st1] by simp_all
      from Cons.IH [OF inv1 rec] drop same st show ?thesis
        by (auto intro: le_trans)
    qed
  qed
qed auto

lemma connectByADNLNew_inv:
  assumes inv: "bridge_inv b" and con: "gm_get (clients b) c \<noteq> None"
  shows "bridge_inv (fst (connectByADNLNew net c req adnlID b))"
proof (cases "int (length (peers (heap b c))) < max_peers b")
  case False
  with inv show ?thesis by (simp add: connectByADNLNew_def room_for_peer_def)
next
  case True
  show ?thesis
  proof (cases "FindAddresses net adnlID")
    case (Inl e)
    with inv True show ?thesis by (simp add: connectByADNLNew_def room_for_peer_def)
  next
    case (Inr found)
    obtain addrs key where f: "found = (addrs, key)" by (cases found)
    obtain st r where t: "tryEndpoints net key 0 (publicADNLEndpoints addrs 8) (b, []) = (st, r)"
      by (metis surj_pair)
    obtain b1 es where st: "st = (b1, es)" by (cases st)
    have g: "bridge_inv b1" "clients b1 = clients b" "cfg b1 = cfg b"
      "length (peers (heap b1 c)) \<le> length (peers (heap b c))"
      using tryEndpoints_from [OF _ t] inv st by auto
    have "int (length (peers (heap b1 c))) < max_peers b1"
      using True g by (simp add: max_peers_def)
    then have "bridge_inv (fst (claimPeer net c req p st))" for p
      using claimPeer_inv [of st] g con st by simp
    with g(1) inv True Inr f t st show ?thesis
      by (simp add: connectByADNLNew_def room_for_peer_def split: option.split)
  qed
qed

lemma handleADNLConnectByADNL_inv [inv_preserve]:
  assumes "bridge_inv b" and "gm_get (clients b) c \<noteq> None"
  shows "bridge_inv (fst (handleADNLConnectByADNL net c req b))"
  unfolding handleADNLConnectByADNL_def Let_def
proof (rule handler_state)
  show "bridge_inv b" by (rule assms)
  fix adnlID
  show "bridge_inv (fst (case gm_get (activePeers b) (hex_encode adnlID) of
      None \<Rightarrow> connectByADNLNew net c req adnlID b
    | Some existing \<Rightarrow> reusePeer net c req (hex_encode adnlID) existing b))"
    using reusePeer_inv [OF assms(1) _ assms(2)] connectByADNLNew_inv [OF assms]
    by (cases "gm_get (activePeers b) (hex_encode adnlID)") simp_all
qed

section \<open>Handlers that only read the bridge\<close>

lemma handler_same: "(\<And>x. fst (act x) = b) \<Longrightarrow> fst (handler c req b checks act) = b"
  by (cases checks) simp_all

lemma reading_handlers [simp]:
  "fst (handleADNLSendMessage net c req b) = b"
  "fst (handleADNLPing net c req b) = b"
  "fst (handleADNLPeers net c req b) = b"
  "fst (handleADNLQuery net tlib c req b) = b"
  "fst (handleOverlayGetPeers net c req b) = b"
  "fst (handleOverlaySendMessage net c req b) = b"
  "fst (handleOverlaySendRaw net tlib c req b) = b"
  "fst (handleOverlayQuery net tlib c req b) = b"
  unfolding handleADNLSendMessage_def handleADNLPing_def handleADNLPeers_def handleADNLQuery_def
    handleOverlayGetPeers_def handleOverlaySendMessage_def handleOverlaySendRaw_def handleOverlayQuery_def
  by (auto simp: Let_def intro!: handler_same split: option.split sum.split)

lemma set_handler_state [simp]: "fst (fst (handleOverlaySetQueryHandler c req b)) = b"
  by (simp add: handleOverlaySetQueryHandler_def split: sum.split)

section \<open>Disconnecting and query handlers\<close>

lemma handleADNLDisconnect_inv [inv_preserve]:
  assumes "bridge_inv b"
  shows "bridge_inv (fst (handleADNLDisconnect c req b))"
  unfolding handleADNLDisconnect_def
proof (rule handler_state)
  show "bridge_inv b" by (rule assms)
  fix x :: "string \<times> peer"
  obtain k p where x: "x = (k, p)" by (cases x)
  obtain b' es r where d: "detachPeerLocked k p b = ((b', es), r)" by (metis surj_pair)
  have "bridge_inv b'" using detach_inv [OF assms, of k p] d by simp
  then show "bridge_inv (fst (case x of (k, p) \<Rightarrow>
      (case detachPeerLocked k p b of
         ((b', es), None) \<Rightarrow> (b', es @ reply_to c req (bad (Lit ''peer changed during disconnect'')))
       | ((b', es), Some _) \<Rightarrow>
           (b', es @ ClosePeer p # reply_to c req (Result (JObj [(''disconnected'', JBool True)]))))))"
    by (simp add: x d split: option.split)
qed

lemma owned_peer_passes:
  "owned_peer b c k f = Inr x \<longleftrightarrow>
     (\<exists>p. gm_get (activePeers b) k = Some p \<and> clientOwnsPeer b c k \<and> f p = Inr x)"
  by (simp add: owned_peer_def passes)

lemma owned_overlay_passes:
  "owned_overlay b c ov f = Inr x \<longleftrightarrow>
     (\<exists>ow. gm_get (activeOverlays b) ov = Some ow \<and> clientOwnsOverlay b c ov \<and> f ow = Inr x)"
  by (simp add: owned_overlay_def passes)

lemmas all_passes = passes owned_peer_passes owned_overlay_passes with_params_def with_base64_def
  with_payload_size_def

lemma peerQueries_upd_inv:
  assumes inv: "bridge_inv b" and "gm_get (activePeers b) k = Some p" and "owner_of b k = Some c"
  shows "bridge_inv (b\<lparr>peerQueries := gm_put k \<lparr>qh_peerHex = k, qh_peer = p, qh_client = c\<rparr> (peerQueries b)\<rparr>)"
proof -
  let ?b = "b\<lparr>peerQueries := gm_put k \<lparr>qh_peerHex = k, qh_peer = p, qh_client = c\<rparr> (peerQueries b)\<rparr>"
  have ow: "owner_of ?b = owner_of b" by (simp add: owner_of_def fun_eq_iff)
  have "owners_inv (\<lambda>_. {}) ?b = owners_inv (\<lambda>_. {}) b" "pending_inv ?b = pending_inv b"
    "overlays_inv ?b = overlays_inv b" "limits_inv ?b = limits_inv b"
    by (simp_all add: owners_inv_def overlays_inv_def limits_inv_def pending_inv_def ow)
  moreover have "maps_inv ?b"
    using assms unfolding bridge_inv_unfold maps_inv_def ow by simp
  ultimately show ?thesis using inv by (simp add: bridge_inv_unfold)
qed

lemma handleADNLSetQueryHandler_inv [inv_preserve]:
  assumes "bridge_inv b"
  shows "bridge_inv (fst (handleADNLSetQueryHandler c req b))"
  unfolding handleADNLSetQueryHandler_def
  by (rule handler_state)
    (use assms in \<open>auto simp: all_passes inv_owns intro!: peerQueries_upd_inv\<close>)

section \<open>Answers and the sweep\<close>

lemma pending_sub_inv:
  assumes inv: "bridge_inv b"
    and sub: "\<And>q pq. gm_get P q = Some pq \<Longrightarrow> gm_get (pendingQueries b) q = Some pq"
  shows "bridge_inv (b\<lparr>pendingQueries := P\<rparr>)"
  by (rule pending_upd_inv [OF inv]) (use inv sub in \<open>unfold bridge_inv_unfold pending_inv_def, blast\<close>)

lemma answer_lookup_inv: "bridge_inv b \<Longrightarrow> bridge_inv (fst (answer_lookup now c q b))"
  by (auto simp: answer_lookup_def intro!: pending_sub_inv split: option.split if_splits)

lemma answer_finish_inv [inv_preserve]: "bridge_inv b \<Longrightarrow> bridge_inv (answer_finish q pq b)"
  by (auto simp: answer_finish_def intro!: pending_sub_inv split: if_splits)

lemma sweep_inv [inv_preserve]: "bridge_inv b \<Longrightarrow> bridge_inv (sweepPendingQueries now b)"
  unfolding sweepPendingQueries_def
  by (rule pending_sub_inv) (auto simp: gomap_simps split: option.splits if_splits)

lemma answerQuery_inv [inv_preserve]:
  assumes inv: "bridge_inv b" and env: "\<And>i b. bridge_inv b \<Longrightarrow> bridge_inv (other i b)"
  shows "bridge_inv (fst (answerQuery net tlib now other c req b))"
  unfolding answerQuery_def
proof (rule handler_state)
  show "bridge_inv b" by (rule inv)
  fix x :: "string \<times> bytes \<times> tl_obj"
  obtain q qid ans where x: "x = (q, qid, ans)" by (cases x)
  obtain b1 r where l: "answer_lookup now c q b = (b1, r)" by (metis surj_pair)
  have b1: "bridge_inv b1" using answer_lookup_inv [OF inv, of now c q] l by simp
  then have b3: "bridge_inv (other 1 (other 0 b1))" by (intro env)
  with b1 env show "bridge_inv (fst (case x of (q, qid, ans) \<Rightarrow>
      (case answer_lookup now c q b of
         (b1, Inl r) \<Rightarrow> (b1, reply_to c req r)
       | (b1, Inr pq) \<Rightarrow>
         (let b2 = other 0 b1; p = pq_peer pq in
          if gm_get (activePeers b2) (hex_encode (GetID p)) \<noteq> Some p
          then (b2, reply_to c req (bad (Lit ''peer disconnected before answer could be sent'')))
          else
            (let b3 = other 1 b2 in
             case Answer net p qid ans of
               Some e \<Rightarrow> (b3, AnswerTo p qid ans # reply_to c req (failed (Wrap ''answer failed: '' e)))
             | None \<Rightarrow>
                 (answer_finish q pq b3,
                  AnswerTo p qid ans # reply_to c req (Result (JObj [(''answered'', JBool True)])))))))) "
    by (auto simp: x l Let_def answer_finish_inv split: sum.split option.split)
qed

section \<open>Overlays\<close>

lemma join_inv:
  assumes inv: "bridge_inv b" and free: "gm_get (activeOverlays b) ov = None"
    and own: "owner_of b k = Some c"
    and room: "int (length (overlays (heap b c))) < MaxOverlays (Overlay (Namespaces (cfg b)))"
  shows "bridge_inv (upd_client c (\<lambda>w. w\<lparr>overlays := overlays w @ [ov]\<rparr>)
     (b\<lparr>activeOverlays := gm_put ov ow (activeOverlays b), overlayToPeer := gm_put ov k (overlayToPeer b)\<rparr>))"
    (is "bridge_inv ?b")
proof -
  have m: "maps_inv b" and o: "owners_inv (\<lambda>_. {}) b" and v: "overlays_inv b"
    and q: "pending_inv b" and l: "limits_inv b"
    using inv by (simp_all add: bridge_inv_unfold)
  have ow: "owner_of ?b x = owner_of b x" for x by (simp add: owner_of_def)
  have ovs: "overlays (heap ?b x) = (if x = c then overlays (heap b c) @ [ov] else overlays (heap b x))"
    and prs: "peers (heap ?b x) = peers (heap b x)" for x by simp_all
  have free': "gm_get (overlayToPeer b) ov = None" using v free by (simp add: overlays_inv_def)
  have mem: "ov' \<in> set (overlays (heap b c')) \<longleftrightarrow>
      (\<exists>k. gm_get (overlayToPeer b) ov' = Some k \<and> owner_of b k = Some c')" for ov' c'
    using v by (simp add: overlays_inv_def)
  have fresh: "ov \<notin> set (overlays (heap b c'))" for c' using mem free' by simp
  have "maps_inv ?b" using m unfolding maps_inv_def ow by simp
  moreover have "owners_inv (\<lambda>_. {}) ?b" using o fresh unfolding owners_inv_def ow ovs prs by simp
  moreover have "overlays_inv ?b"
    unfolding overlays_inv_def ow ovs
  proof (intro conjI allI impI)
    fix ov' show "gm_get (activeOverlays ?b) ov' = None \<longleftrightarrow> gm_get (overlayToPeer ?b) ov' = None"
      using v by (simp add: overlays_inv_def)
  next
    fix ov' x assume "gm_get (overlayToPeer ?b) ov' = Some x"
    then show "owner_of b x \<noteq> None"
      using own inv by (auto elim: inv_attached split: if_splits)
  next
    fix ov' c'
    show "ov' \<in> set (if c' = c then overlays (heap b c) @ [ov] else overlays (heap b c')) \<longleftrightarrow>
      (\<exists>k'. gm_get (overlayToPeer ?b) ov' = Some k' \<and> owner_of b k' = Some c')"
      using mem [of ov'] own fresh free' by (cases "ov' = ov"; cases "c' = c") auto
  qed
  moreover have "pending_inv ?b" using q unfolding pending_inv_def by simp
  moreover have "limits_inv ?b"
    using l room unfolding limits_inv_def ovs prs by (auto simp: max_def split: if_splits)
  ultimately show ?thesis by (simp add: bridge_inv_unfold)
qed

lemma handleOverlayJoin_inv [inv_preserve]:
  assumes inv: "bridge_inv b"
  shows "bridge_inv (fst (handleOverlayJoin net c req b))"
  unfolding handleOverlayJoin_def
proof (rule handler_state)
  show "bridge_inv b" by (rule inv)
  fix x :: "string \<times> bytes \<times> string"
  obtain pid oid k where x: "x = (pid, oid, k)" by (cases x)
  let ?ov = "hex_encode oid"
  let ?act = "\<lambda>m. if gm_get (activeOverlays b) ?ov \<noteq> None then (b, reply_to c req (rejoin b c ?ov k pid))
       else
        (case NewBroadcastReceiver net oid of
           Inl e \<Rightarrow> (b, reply_to c req (bad (Wrap ''failed to create overlay receiver: '' e)))
         | Inr rcv \<Rightarrow>
            (case AttachOverlay net m rcv of
               Inl e \<Rightarrow> (b, CloseReceiver rcv # reply_to c req (failed (Wrap ''failed to attach overlay: '' e)))
             | Inr ow \<Rightarrow>
                (upd_client c (\<lambda>w. w\<lparr>overlays := overlays w @ [?ov]\<rparr>)
                   (b\<lparr>activeOverlays := gm_put ?ov ow (activeOverlays b),
                      overlayToPeer := gm_put ?ov k (overlayToPeer b)\<rparr>),
                 reply_to c req (joined_result pid))))"
  have "bridge_inv (fst (handler c req b (join_checks b c k) ?act))"
  proof (rule handler_state)
    show "bridge_inv b" by (rule inv)
    fix m assume "join_checks b c k = Inr m"
    then have "owner_of b k = Some c" "int (length (overlays (heap b c))) < MaxOverlays (Overlay (Namespaces (cfg b)))"
      using inv by (simp_all add: join_checks_def passes inv_owns max_overlays_def)
    then show "bridge_inv (fst (?act m))"
      using inv join_inv [OF inv, of ?ov k c] by (simp split: sum.split)
  qed
  then show "bridge_inv (fst (case x of (prm_id, overlayID, k) \<Rightarrow>
      handler c req b (join_checks b c k) (\<lambda>m.
       let ov = hex_encode overlayID in
       if gm_get (activeOverlays b) ov \<noteq> None then (b, reply_to c req (rejoin b c ov k prm_id))
       else
        (case NewBroadcastReceiver net overlayID of
           Inl e \<Rightarrow> (b, reply_to c req (bad (Wrap ''failed to create overlay receiver: '' e)))
         | Inr rcv \<Rightarrow>
            (case AttachOverlay net m rcv of
               Inl e \<Rightarrow> (b, CloseReceiver rcv # reply_to c req (failed (Wrap ''failed to attach overlay: '' e)))
             | Inr ow \<Rightarrow>
                (upd_client c (\<lambda>w. w\<lparr>overlays := overlays w @ [ov]\<rparr>)
                   (b\<lparr>activeOverlays := gm_put ov ow (activeOverlays b),
                      overlayToPeer := gm_put ov k (overlayToPeer b)\<rparr>),
                 reply_to c req (joined_result prm_id)))))))"
    by (simp add: x Let_def)
qed

lemma leave_inv:
  assumes inv: "bridge_inv b" and own: "clientOwnsOverlay b c ov"
  shows "bridge_inv (upd_client c (\<lambda>w. w\<lparr>overlays := remove1 ov (overlays w)\<rparr>)
     (b\<lparr>activeOverlays := gm_del ov (activeOverlays b), overlayToPeer := gm_del ov (overlayToPeer b)\<rparr>))"
    (is "bridge_inv ?b")
proof -
  have m: "maps_inv b" and o: "owners_inv (\<lambda>_. {}) b" and v: "overlays_inv b"
    and q: "pending_inv b" and l: "limits_inv b"
    using inv by (simp_all add: bridge_inv_unfold)
  have ow: "owner_of ?b x = owner_of b x" for x by (simp add: owner_of_def)
  have ovs: "overlays (heap ?b x) = (if x = c then remove1 ov (overlays (heap b c)) else overlays (heap b x))"
    and prs: "peers (heap ?b x) = peers (heap b x)" for x by simp_all
  have dist: "distinct (overlays (heap b c'))" for c' using o by (simp add: owners_inv_def)
  have mem: "ov' \<in> set (overlays (heap b c')) \<longleftrightarrow>
      (\<exists>k. gm_get (overlayToPeer b) ov' = Some k \<and> owner_of b k = Some c')" for ov' c'
    using v by (simp add: overlays_inv_def)
  have only: "c' = c" if "ov \<in> set (overlays (heap b c'))" for c'
    using that own overlay_owner_unique [OF inv] by (auto simp: clientOwnsOverlay_def)
  have "maps_inv ?b" using m unfolding maps_inv_def ow by simp
  moreover have "owners_inv (\<lambda>_. {}) ?b" using o unfolding owners_inv_def ow ovs prs by simp
  moreover have "overlays_inv ?b"
    unfolding overlays_inv_def ow ovs
  proof (intro conjI allI impI)
    fix ov' show "gm_get (activeOverlays ?b) ov' = None \<longleftrightarrow> gm_get (overlayToPeer ?b) ov' = None"
      using v by (simp add: overlays_inv_def)
  next
    fix ov' x assume "gm_get (overlayToPeer ?b) ov' = Some x"
    then show "owner_of b x \<noteq> None" using inv by (auto elim: inv_attached split: if_splits)
  next
    fix ov' c'
    show "ov' \<in> set (if c' = c then remove1 ov (overlays (heap b c)) else overlays (heap b c')) \<longleftrightarrow>
      (\<exists>k'. gm_get (overlayToPeer ?b) ov' = Some k' \<and> owner_of b k' = Some c')"
    proof (cases "ov' = ov")
      case True
      with only [of c'] dist [of c] show ?thesis by (simp add: set_remove1_eq) blast
    next
      case False
      then have "ov' \<in> set (remove1 ov (overlays (heap b c))) \<longleftrightarrow> ov' \<in> set (overlays (heap b c))"
        by (simp add: in_set_remove1)
      with mem [of ov' c'] False show ?thesis by (cases "c' = c") simp_all
    qed
  qed
  moreover have "pending_inv ?b" using q unfolding pending_inv_def by simp
  moreover have "limits_inv ?b"
  proof -
    have "length (remove1 ov xs) \<le> length xs" for xs by (simp add: length_remove1)
    then have "int (length (remove1 ov xs)) \<le> n" if "int (length xs) \<le> n" for xs n
      using that by (metis of_nat_le_iff order_trans)
    with l show ?thesis unfolding limits_inv_def ovs prs by simp
  qed
  ultimately show ?thesis by (simp add: bridge_inv_unfold)
qed

lemma handleOverlayLeave_inv [inv_preserve]:
  assumes inv: "bridge_inv b"
  shows "bridge_inv (fst (handleOverlayLeave c req b))"
  unfolding handleOverlayLeave_def
proof (rule handler_state)
  show "bridge_inv b" by (rule inv)
  fix x :: "string \<times> overlay_ref"
  obtain ov ow where x: "x = (ov, ow)" by (cases x)
  assume "with_params [f_overlay_id] req (\<lambda>prm.
        with_base64 ''overlay_id'' (p_overlay_id prm) (\<lambda>overlayID.
        let ov = hex_encode overlayID in
        require (clientOwnsOverlay b c ov) (bad (Lit ''overlay not owned by this client'')) (
        present (gm_get (activeOverlays b) ov) (bad (Lit ''overlay not found'')) (\<lambda>ow.
        Inr (ov, ow))))) = Inr x"
  then have "clientOwnsOverlay b c ov"
    by (auto simp only: x all_passes Let_def sum.inject prod.inject)
  with leave_inv [OF inv] show "bridge_inv (fst (case x of (ov, ow) \<Rightarrow>
         (upd_client c (\<lambda>w. w\<lparr>overlays := remove1 ov (overlays w)\<rparr>)
            (b\<lparr>activeOverlays := gm_del ov (activeOverlays b),
               overlayToPeer := gm_del ov (overlayToPeer b)\<rparr>),
          closeOverlay ow @ reply_to c req (Result (JObj [(''left'', JBool True)])))))"
    by (simp add: x)
qed

lemma broadcastDone_inv [inv_preserve]: "bridge_inv b \<Longrightarrow> bridge_inv (broadcastDone c b)"
  unfolding broadcastDone_def by (rule upd_client_inv) simp_all

lemma takeBroadcast_inv: "bridge_inv b \<Longrightarrow> takeBroadcast c b = Some b' \<Longrightarrow> bridge_inv b'"
  by (auto simp: takeBroadcast_def intro!: upd_client_inv split: if_splits)

lemma start_broadcast_inv: "bridge_inv b \<Longrightarrow> bridge_inv (fst (start_broadcast net c req ow data b))"
  using broadcastDone_inv [of b c] by (simp add: start_broadcast_def split: sum.split)

lemma handleOverlayBroadcast_inv [inv_preserve]:
  assumes inv: "bridge_inv b"
  shows "bridge_inv (fst (handleOverlayBroadcast net c req b))"
  unfolding handleOverlayBroadcast_def
proof (rule handler_state)
  show "bridge_inv b" by (rule inv)
  fix x :: "overlay_ref \<times> bytes"
  show "bridge_inv (fst (case x of (ow, data) \<Rightarrow>
      (case takeBroadcast c b of
         None \<Rightarrow> (b, reply_to c req too_many_broadcasts)
       | Some b1 \<Rightarrow> start_broadcast net c req ow data b1)))"
    using inv takeBroadcast_inv [OF inv, of c] start_broadcast_inv
    by (simp split: prod.split option.split)
qed

lemma run_overlay_query_handler_inv [inv_preserve]:
  assumes "bridge_inv b"
  shows "bridge_inv (fst (run_overlay_query_handler tlib now h qid msg b))"
proof -
  have "fst (run_overlay_query_handler tlib now h qid msg b) =
      fst (run_query_handler tlib now \<lparr>qh_peerHex = qh_peerHex h, qh_peer = qh_peer h, qh_client = qh_client h\<rparr> qid msg b)"
    by (simp add: run_overlay_query_handler_def run_query_handler_def Let_def split: sum.split)
  then show ?thesis using run_query_handler_inv [OF assms] by simp
qed

end
