(* ===== verification/Dispatch.thy ===== *)
theory Dispatch
  imports HandlerInv
begin

text \<open>
  \<open>handleRequest\<close> of wsbridge/bridge.go: the namespace gate and the method table. The handlers of
  the adnl and overlay namespaces are the modelled ones; those of the other namespaces are a
  parameter, which may push frames and change the subscriptions of the requesting client.
\<close>

section \<open>Methods\<close>

datatype dht_method =
    Dht_FindAddresses | Dht_FindOverlayNodes | Dht_FindTunnelNodes | Dht_FindValue
  | Dht_StoreAddress | Dht_StoreOverlayNodes

datatype network_method =
    Network_Info

datatype lite_method =
    Lite_GetMasterchainInfo | Lite_GetAccountState | Lite_RunMethod | Lite_EmulateMessage
  | Lite_EmulateTransaction | Lite_SendMessage | Lite_GetTransactions | Lite_GetTime
  | Lite_LookupBlock | Lite_GetBlockTransactions | Lite_GetShards | Lite_GetBlockchainConfig
  | Lite_GetTransaction | Lite_FindTxByInMsgHash | Lite_SendMessageWait | Lite_SendAndWatch
  | Lite_FindTxByOutMsgHash | Lite_GetBlockData | Lite_GetBlockHeader | Lite_GetLibraries

datatype subscribe_method =
    Subscribe_Transactions | Subscribe_Blocks | Subscribe_AccountState
  | Subscribe_NewTransactions | Subscribe_Unsubscribe | Subscribe_ConfigChanges
  | Subscribe_MultiAccount | Subscribe_Trace

datatype jetton_method =
    Jetton_GetData | Jetton_GetWalletAddress | Jetton_GetBalance

datatype nft_method =
    Nft_GetData | Nft_GetCollectionData | Nft_GetAddressByIndex | Nft_GetRoyaltyParams
  | Nft_GetContent

datatype wallet_method =
    Wallet_GetSeqno | Wallet_GetPublicKey

datatype sbt_method =
    Sbt_GetAuthorityAddress | Sbt_GetRevokedTime

datatype payment_method =
    Payment_GetChannelState

datatype dns_method =
    Dns_Resolve

datatype adnl_method =
    Adnl_Connect | Adnl_ConnectByADNL | Adnl_SendMessage | Adnl_Ping | Adnl_Disconnect
  | Adnl_Peers | Adnl_Query | Adnl_SetQueryHandler | Adnl_Answer

datatype overlay_method =
    Overlay_Join | Overlay_Leave | Overlay_GetPeers | Overlay_SendMessage | Overlay_SendRaw
  | Overlay_Broadcast | Overlay_Query | Overlay_SetQueryHandler | Overlay_Answer

datatype rpc_method =
    Dht_call dht_method | Network_call network_method | Lite_call lite_method
  | Subscribe_call subscribe_method | Jetton_call jetton_method | Nft_call nft_method
  | Wallet_call wallet_method | Sbt_call sbt_method | Payment_call payment_method
  | Dns_call dns_method | Adnl_call adnl_method | Overlay_call overlay_method

definition method_table :: "(string \<times> rpc_method) list" where
  "method_table =
    [(''dht.findAddresses'', Dht_call Dht_FindAddresses),
     (''dht.findOverlayNodes'', Dht_call Dht_FindOverlayNodes),
     (''dht.findTunnelNodes'', Dht_call Dht_FindTunnelNodes),
     (''network.info'', Network_call Network_Info),
     (''lite.getMasterchainInfo'', Lite_call Lite_GetMasterchainInfo),
     (''lite.getAccountState'', Lite_call Lite_GetAccountState),
     (''lite.runMethod'', Lite_call Lite_RunMethod),
     (''lite.emulateMessage'', Lite_call Lite_EmulateMessage),
     (''lite.emulateTransaction'', Lite_call Lite_EmulateTransaction),
     (''lite.sendMessage'', Lite_call Lite_SendMessage),
     (''lite.getTransactions'', Lite_call Lite_GetTransactions),
     (''lite.getTime'', Lite_call Lite_GetTime),
     (''lite.lookupBlock'', Lite_call Lite_LookupBlock),
     (''lite.getBlockTransactions'', Lite_call Lite_GetBlockTransactions),
     (''lite.getShards'', Lite_call Lite_GetShards),
     (''lite.getBlockchainConfig'', Lite_call Lite_GetBlockchainConfig),
     (''lite.getTransaction'', Lite_call Lite_GetTransaction),
     (''lite.findTxByInMsgHash'', Lite_call Lite_FindTxByInMsgHash),
     (''lite.sendMessageWait'', Lite_call Lite_SendMessageWait),
     (''subscribe.transactions'', Subscribe_call Subscribe_Transactions),
     (''subscribe.blocks'', Subscribe_call Subscribe_Blocks),
     (''subscribe.accountState'', Subscribe_call Subscribe_AccountState),
     (''subscribe.newTransactions'', Subscribe_call Subscribe_NewTransactions),
     (''jetton.getData'', Jetton_call Jetton_GetData),
     (''jetton.getWalletAddress'', Jetton_call Jetton_GetWalletAddress),
     (''jetton.getBalance'', Jetton_call Jetton_GetBalance),
     (''nft.getData'', Nft_call Nft_GetData),
     (''nft.getCollectionData'', Nft_call Nft_GetCollectionData),
     (''nft.getAddressByIndex'', Nft_call Nft_GetAddressByIndex),
     (''nft.getRoyaltyParams'', Nft_call Nft_GetRoyaltyParams),
     (''nft.getContent'', Nft_call Nft_GetContent),
     (''wallet.getSeqno'', Wallet_call Wallet_GetSeqno),
     (''wallet.getPublicKey'', Wallet_call Wallet_GetPublicKey),
     (''sbt.getAuthorityAddress'', Sbt_call Sbt_GetAuthorityAddress),
     (''sbt.getRevokedTime'', Sbt_call Sbt_GetRevokedTime),
     (''payment.getChannelState'', Payment_call Payment_GetChannelState),
     (''dns.resolve'', Dns_call Dns_Resolve), (''adnl.connect'', Adnl_call Adnl_Connect),
     (''adnl.connectByADNL'', Adnl_call Adnl_ConnectByADNL),
     (''adnl.sendMessage'', Adnl_call Adnl_SendMessage), (''adnl.ping'', Adnl_call Adnl_Ping),
     (''adnl.disconnect'', Adnl_call Adnl_Disconnect), (''adnl.peers'', Adnl_call Adnl_Peers),
     (''overlay.join'', Overlay_call Overlay_Join),
     (''overlay.leave'', Overlay_call Overlay_Leave),
     (''overlay.getPeers'', Overlay_call Overlay_GetPeers),
     (''overlay.sendMessage'', Overlay_call Overlay_SendMessage),
     (''overlay.sendRaw'', Overlay_call Overlay_SendRaw),
     (''overlay.broadcast'', Overlay_call Overlay_Broadcast),
     (''dht.findValue'', Dht_call Dht_FindValue),
     (''dht.storeAddress'', Dht_call Dht_StoreAddress),
     (''dht.storeOverlayNodes'', Dht_call Dht_StoreOverlayNodes),
     (''subscribe.unsubscribe'', Subscribe_call Subscribe_Unsubscribe),
     (''lite.sendAndWatch'', Lite_call Lite_SendAndWatch),
     (''adnl.query'', Adnl_call Adnl_Query),
     (''adnl.setQueryHandler'', Adnl_call Adnl_SetQueryHandler),
     (''adnl.answer'', Adnl_call Adnl_Answer), (''overlay.query'', Overlay_call Overlay_Query),
     (''overlay.setQueryHandler'', Overlay_call Overlay_SetQueryHandler),
     (''overlay.answer'', Overlay_call Overlay_Answer),
     (''lite.findTxByOutMsgHash'', Lite_call Lite_FindTxByOutMsgHash),
     (''lite.getBlockData'', Lite_call Lite_GetBlockData),
     (''lite.getBlockHeader'', Lite_call Lite_GetBlockHeader),
     (''lite.getLibraries'', Lite_call Lite_GetLibraries),
     (''subscribe.configChanges'', Subscribe_call Subscribe_ConfigChanges),
     (''subscribe.multiAccount'', Subscribe_call Subscribe_MultiAccount),
     (''subscribe.trace'', Subscribe_call Subscribe_Trace)]"

definition method_namespaces :: "string list" where
  "method_namespaces =
    [''dht'', ''network'', ''lite'', ''subscribe'', ''jetton'', ''nft'', ''wallet'', ''sbt'',
     ''payment'', ''dns'', ''adnl'', ''overlay'']"

definition route :: "BridgeConfig \<Rightarrow> string \<Rightarrow> rpc_method option" where
  "route cf m = (if namespaceEnabled cf m then map_of method_table m else None)"

section \<open>Running a request\<close>

type_synonym service = "rpc_method \<Rightarrow> client_ref \<Rightarrow> WSRequest \<Rightarrow> WSBridge \<Rightarrow> outcome"

record env =
  env_net :: net
  env_tl :: tl_lib
  env_now :: int
  env_other :: "nat \<Rightarrow> WSBridge \<Rightarrow> WSBridge"
  env_service :: service

definition run_adnl :: "env \<Rightarrow> adnl_method \<Rightarrow> client_ref \<Rightarrow> WSRequest \<Rightarrow> WSBridge \<Rightarrow> outcome" where
  "run_adnl e m c req b =
     (case m of
        Adnl_Connect \<Rightarrow> handleADNLConnect (env_net e) (env_tl e) c req b
      | Adnl_ConnectByADNL \<Rightarrow> handleADNLConnectByADNL (env_net e) c req b
      | Adnl_SendMessage \<Rightarrow> handleADNLSendMessage (env_net e) c req b
      | Adnl_Ping \<Rightarrow> handleADNLPing (env_net e) c req b
      | Adnl_Disconnect \<Rightarrow> handleADNLDisconnect c req b
      | Adnl_Peers \<Rightarrow> handleADNLPeers (env_net e) c req b
      | Adnl_Query \<Rightarrow> handleADNLQuery (env_net e) (env_tl e) c req b
      | Adnl_SetQueryHandler \<Rightarrow> handleADNLSetQueryHandler c req b
      | Adnl_Answer \<Rightarrow> handleADNLAnswer (env_net e) (env_tl e) (env_now e) (env_other e) c req b)"

definition run_overlay :: "env \<Rightarrow> overlay_method \<Rightarrow> client_ref \<Rightarrow> WSRequest \<Rightarrow> WSBridge \<Rightarrow> outcome" where
  "run_overlay e m c req b =
     (case m of
        Overlay_Join \<Rightarrow> handleOverlayJoin (env_net e) c req b
      | Overlay_Leave \<Rightarrow> handleOverlayLeave c req b
      | Overlay_GetPeers \<Rightarrow> handleOverlayGetPeers (env_net e) c req b
      | Overlay_SendMessage \<Rightarrow> handleOverlaySendMessage (env_net e) c req b
      | Overlay_SendRaw \<Rightarrow> handleOverlaySendRaw (env_net e) (env_tl e) c req b
      | Overlay_Broadcast \<Rightarrow> handleOverlayBroadcast (env_net e) c req b
      | Overlay_Query \<Rightarrow> handleOverlayQuery (env_net e) (env_tl e) c req b
      | Overlay_SetQueryHandler \<Rightarrow> fst (handleOverlaySetQueryHandler c req b)
      | Overlay_Answer \<Rightarrow> handleOverlayAnswer (env_net e) (env_tl e) (env_now e) (env_other e) c req b)"

definition run_method :: "env \<Rightarrow> rpc_method \<Rightarrow> client_ref \<Rightarrow> WSRequest \<Rightarrow> WSBridge \<Rightarrow> outcome" where
  "run_method e m c req b =
     (case m of
        Adnl_call a \<Rightarrow> run_adnl e a c req b
      | Overlay_call a \<Rightarrow> run_overlay e a c req b
      | _ \<Rightarrow> env_service e m c req b)"

definition unknown_method :: "string \<Rightarrow> reply" where
  "unknown_method m = Error method_not_found (Lit (''unknown method: '' @ m))"

definition handleRequest :: "env \<Rightarrow> client_ref \<Rightarrow> WSRequest \<Rightarrow> WSBridge \<Rightarrow> outcome" where
  "handleRequest e c req b =
     (case route (cfg b) (req_method req) of
        None \<Rightarrow> (b, reply_to c req (unknown_method (req_method req)))
      | Some m \<Rightarrow> run_method e m c req b)"

section \<open>The table\<close>

lemma table_names_distinct: "distinct (map fst method_table)"
  by (simp add: method_table_def)

lemma table_methods_distinct: "distinct (map snd method_table)"
  by (simp add: method_table_def)

lemma table_size: "length method_table = 67"
  by (simp add: method_table_def)

lemma table_namespaces: "list_all (\<lambda>(n, _). ns_prefix n \<in> set method_namespaces) method_table"
  by (simp add: method_table_def method_namespaces_def ns_prefix_def)

lemma table_total: "\<exists>n. (n, m) \<in> set method_table"
proof (cases m)
  case (Dht_call a)
  then show ?thesis by (cases a) (auto simp: method_table_def)
next
  case (Network_call a)
  then show ?thesis by (cases a) (auto simp: method_table_def)
next
  case (Lite_call a)
  then show ?thesis by (cases a) (auto simp: method_table_def)
next
  case (Subscribe_call a)
  then show ?thesis by (cases a) (auto simp: method_table_def)
next
  case (Jetton_call a)
  then show ?thesis by (cases a) (auto simp: method_table_def)
next
  case (Nft_call a)
  then show ?thesis by (cases a) (auto simp: method_table_def)
next
  case (Wallet_call a)
  then show ?thesis by (cases a) (auto simp: method_table_def)
next
  case (Sbt_call a)
  then show ?thesis by (cases a) (auto simp: method_table_def)
next
  case (Payment_call a)
  then show ?thesis by (cases a) (auto simp: method_table_def)
next
  case (Dns_call a)
  then show ?thesis by (cases a) (auto simp: method_table_def)
next
  case (Adnl_call a)
  then show ?thesis by (cases a) (auto simp: method_table_def)
next
  case (Overlay_call a)
  then show ?thesis by (cases a) (auto simp: method_table_def)
qed

text \<open>Every handler of the enumeration is reachable by exactly one name.\<close>

lemma table_complete: "\<exists>!n. map_of method_table n = Some m"
proof -
  have "\<exists>n. (n, m) \<in> set method_table" by (rule table_total)
  then obtain n where n: "(n, m) \<in> set method_table" by blast
  then have "map_of method_table n = Some m" by (simp add: table_names_distinct)
  moreover have "n' = n" if "map_of method_table n' = Some m" for n'
  proof -
    have "(n', m) \<in> set method_table" using that by (rule map_of_SomeD)
    with n table_methods_distinct show ?thesis
      by (metis distinct_map fst_conv inj_onD snd_conv)
  qed
  ultimately show ?thesis by blast
qed

section \<open>The namespace gate\<close>

definition namespace_switches :: "BridgeConfig \<Rightarrow> (string \<times> bool) list" where
  "namespace_switches cf =
     (let n = Namespaces cf in
      [(''dht'', Enabled (DHT n)), (''network'', Enabled (Network n)), (''lite'', Enabled (Lite n)),
       (''subscribe'', Enabled (Subscribe n)), (''jetton'', Enabled (Jetton n)), (''nft'', Enabled (NFT n)),
       (''wallet'', Enabled (Wallet n)), (''sbt'', Enabled (SBT n)), (''payment'', Enabled (Payment n)),
       (''dns'', Enabled (DNS n)), (''adnl'', Enabled (ADNL n)), (''overlay'', Enabled (Overlay n))])"

lemma namespaceEnabled_switch:
  assumes "ns_prefix m \<in> set method_namespaces"
  shows "namespaceEnabled cf m \<longleftrightarrow>
     map_of (namespace_switches cf) (ns_prefix m) = Some True
     \<and> (m = ''subscribe.trace'' \<longrightarrow> Enabled (SubscribeTrace (Namespaces cf)))"
proof (cases "m = ''subscribe.trace''")
  case True
  then show ?thesis by (simp add: namespaceEnabled_def namespace_switches_def ns_prefix_def Let_def)
next
  case False
  from assms consider
    "ns_prefix m = ''dht''" | "ns_prefix m = ''network''" | "ns_prefix m = ''lite''"
    | "ns_prefix m = ''subscribe''" | "ns_prefix m = ''jetton''" | "ns_prefix m = ''nft''"
    | "ns_prefix m = ''wallet''" | "ns_prefix m = ''sbt''" | "ns_prefix m = ''payment''"
    | "ns_prefix m = ''dns''" | "ns_prefix m = ''adnl''" | "ns_prefix m = ''overlay''"
    unfolding method_namespaces_def by auto
  then show ?thesis
    by cases (simp_all add: False namespaceEnabled_def namespace_switches_def Let_def)
qed

text \<open>
  C25: a request reaches a handler exactly when its method is in the table and the switch of its
  own namespace is on (for \<open>subscribe.trace\<close> the trace switch as well); no method falls through to
  the permissive default of the gate, and every handler is reached by exactly one name.
\<close>
theorem dispatch_gated:
  "(route cf m = Some r \<longleftrightarrow>
      map_of method_table m = Some r
      \<and> map_of (namespace_switches cf) (ns_prefix m) = Some True
      \<and> (m = ''subscribe.trace'' \<longrightarrow> Enabled (SubscribeTrace (Namespaces cf))))
   \<and> (\<exists>!n. map_of method_table n = Some r)"
proof -
  have "ns_prefix m \<in> set method_namespaces" if "map_of method_table m = Some r"
    using map_of_SomeD [OF that] table_namespaces by (auto simp: list_all_iff)
  then show ?thesis
    using namespaceEnabled_switch [of m cf] table_complete [of r] by (auto simp: route_def)
qed

theorem dispatch_gated_witness:
  "route DefaultBridgeConfig ''adnl.ping'' = Some (Adnl_call Adnl_Ping)"
  using dispatch_gated [of DefaultBridgeConfig "''adnl.ping''" "Adnl_call Adnl_Ping"]
  by (simp add: method_table_def namespace_switches_def DefaultBridgeConfig_def DefaultNamespaces_def
      ns_prefix_def Let_def)

text \<open>
  A request for an unknown method or a method of a disabled namespace changes nothing and is
  answered with the JSON-RPC code for an unknown method, whatever its parameters are.
\<close>
theorem unrouted_request_refused:
  "route (cfg b) (req_method req) = None \<Longrightarrow>
   handleRequest e c req b = (b, [Reply c (req_id req) (Error (-32601) (Lit (''unknown method: '' @ req_method req)))])"
  by (simp add: handleRequest_def reply_to_def unknown_method_def method_not_found_def)

definition ping_request :: WSRequest where
  "ping_request = \<lparr>req_jsonrpc = ''2.0'', req_id = ''1'', req_method = ''adnl.pong'', req_params = None\<rparr>"

theorem unrouted_request_refused_witness:
  "\<forall>e. handleRequest e 0 ping_request (NewWSBridge None) =
     (NewWSBridge None, [Reply 0 ''1'' (Error (-32601) (Lit ''unknown method: adnl.pong''))])"
  using unrouted_request_refused [of "NewWSBridge None" ping_request]
  by (simp add: route_def ping_request_def method_table_def)

section \<open>Requests keep the invariant\<close>

text \<open>What the handlers outside this development may change: the subscriptions of their client.\<close>

definition service_frame :: "service \<Rightarrow> bool" where
  "service_frame svc \<longleftrightarrow>
     (\<forall>m c req b. \<exists>f. fst (svc m c req b) = upd_client c f b
        \<and> (\<forall>w. peers (f w) = peers w \<and> overlays (f w) = overlays w))"

definition env_ok :: "env \<Rightarrow> bool" where
  "env_ok e \<longleftrightarrow> service_frame (env_service e) \<and> (\<forall>i b. bridge_inv b \<longrightarrow> bridge_inv (env_other e i b))"

lemma run_method_inv:
  assumes inv: "bridge_inv b" and e: "env_ok e" and con: "gm_get (clients b) c \<noteq> None"
  shows "bridge_inv (fst (run_method e m c req b))"
proof -
  have svc: "bridge_inv (fst (env_service e m c req b))" for m
  proof -
    obtain f where "fst (env_service e m c req b) = upd_client c f b"
      and f: "\<forall>w. peers (f w) = peers w \<and> overlays (f w) = overlays w"
      using e unfolding env_ok_def service_frame_def by blast
    with upd_client_inv [OF inv, of f c] f show ?thesis by simp
  qed
  have other: "bridge_inv b' \<Longrightarrow> bridge_inv (env_other e i b')" for i b'
    using e by (simp add: env_ok_def)
  show ?thesis
  proof (cases m)
    case (Adnl_call a)
    then show ?thesis
      using inv con other
      by (cases a) (simp_all add: run_method_def run_adnl_def handleADNLAnswer_def inv_preserve)
  next
    case (Overlay_call a)
    then show ?thesis
      using inv con other
      by (cases a) (simp_all add: run_method_def run_overlay_def handleOverlayAnswer_def inv_preserve)
  qed (simp_all add: run_method_def svc)
qed

lemma handleRequest_inv [inv_preserve]:
  "bridge_inv b \<Longrightarrow> env_ok e \<Longrightarrow> gm_get (clients b) c \<noteq> None \<Longrightarrow>
   bridge_inv (fst (handleRequest e c req b))"
  by (simp add: handleRequest_def run_method_inv split: option.split)

end
