(* ===== verification/Connection.thy ===== *)
theory Connection
  imports Dispatch
begin

text \<open>
  \<open>handleWS\<close> and the upgrader of wsbridge/bridge.go: who may connect, how many clients there may
  be, and how a connection reads frames and limits the requests it runs at a time. The host name
  of an Origin header (\<open>url.Parse\<close> and \<open>Hostname\<close>) is a parameter.
\<close>

section \<open>Admission\<close>

definition CheckOrigin :: "(string \<Rightarrow> string option) \<Rightarrow> BridgeConfig \<Rightarrow> string \<Rightarrow> bool" where
  "CheckOrigin hostname cf origin =
     (if origin = [] then True
      else (case hostname origin of
              None \<Rightarrow> False
            | Some host \<Rightarrow> list_ex (\<lambda>allowed. allowed = ''*'' \<or> host = allowed) (AllowedOrigins cf)))"

record http_request =
  hr_origin :: string
  hr_api_key :: string

datatype admission = Unauthorized | UpgradeRefused | TooManyConnections | Admitted

definition authorized :: "BridgeConfig \<Rightarrow> http_request \<Rightarrow> bool" where
  "authorized cf r \<longleftrightarrow> APIKey cf = [] \<or> hr_api_key r = APIKey cf"

text \<open>\<open>c\<close> is the reference of the new client object.\<close>

definition acceptClient ::
  "(string \<Rightarrow> string option) \<Rightarrow> http_request \<Rightarrow> client_ref \<Rightarrow> WSBridge \<Rightarrow> WSBridge \<times> admission" where
  "acceptClient hostname r c b =
     (if \<not> authorized (cfg b) r then (b, Unauthorized)
      else if \<not> CheckOrigin hostname (cfg b) (hr_origin r) then (b, UpgradeRefused)
      else if int (gm_len (clients b)) \<ge> MaxClients (cfg b) then (b, TooManyConnections)
      else (b\<lparr>heap := (heap b)(c := new_client), clients := gm_put c True (clients b)\<rparr>, Admitted))"

section \<open>In-flight requests\<close>

text \<open>
  A request holds one token of \<open>inflightSem\<close> while its handler runs: \<open>acquire\<close> is the non-blocking
  send of the \<open>select\<close>, \<open>release\<close> the deferred receive, which also runs when the handler panics.
\<close>

definition acquire :: "client_ref \<Rightarrow> WSBridge \<Rightarrow> WSBridge option" where
  "acquire c b =
     (if int (inflight (heap b c)) < MaxInflight (cfg b)
      then Some (upd_client c (\<lambda>w. w\<lparr>inflight := inflight w + 1\<rparr>) b) else None)"

definition release :: "client_ref \<Rightarrow> WSBridge \<Rightarrow> WSBridge" where
  "release c b = upd_client c (\<lambda>w. w\<lparr>inflight := inflight w - 1\<rparr>) b"

interpretation inflight_slots:
  slots "\<lambda>b. int (inflight (heap b c))" "\<lambda>b. MaxInflight (cfg b)" "acquire c" "release c" for c
  by unfold_locales (auto simp: acquire_def release_def split: if_splits)

definition busy_error :: reply where
  "busy_error = Error internal_error (Lit ''too many concurrent requests'')"

text \<open>\<open>None\<close> for the outcome of the handler is a panic that \<open>recover\<close> turns into a reply.\<close>

definition serveRequest ::
  "(client_ref \<Rightarrow> WSRequest \<Rightarrow> WSBridge \<Rightarrow> outcome option) \<Rightarrow> client_ref \<Rightarrow> WSRequest \<Rightarrow> WSBridge \<Rightarrow> outcome" where
  "serveRequest handle c req b =
     (case acquire c b of
        None \<Rightarrow> (b, reply_to c req busy_error)
      | Some b1 \<Rightarrow>
          (case handle c req b1 of
             Some (b2, es) \<Rightarrow> (release c b2, es)
           | None \<Rightarrow> (release c b1, reply_to c req (Error internal_error (Lit ''internal error'')))))"

text \<open>One frame of the read loop. A frame that is not a request gets a parse error without an ID.\<close>

definition readFrame ::
  "(client_ref \<Rightarrow> WSRequest \<Rightarrow> WSBridge \<Rightarrow> outcome option) \<Rightarrow> client_ref \<Rightarrow> json option \<Rightarrow> WSBridge \<Rightarrow> outcome" where
  "readFrame handle c msg b =
     (case parse_request msg of
        Inl e \<Rightarrow> (b, [Reply c [] (Error parse_error (Wrap ''invalid JSON: '' e))])
      | Inr req \<Rightarrow> serveRequest handle c req b)"

section \<open>Admission keeps the limits\<close>

lemma accept_rejected: "acceptClient hostname r c b = (b', a) \<Longrightarrow> a \<noteq> Admitted \<Longrightarrow> b' = b"
  by (auto simp: acceptClient_def split: if_splits)

lemma accept_inv:
  assumes inv: "bridge_inv b" and new: "gm_get (clients b) c = None"
  shows "bridge_inv (fst (acceptClient hostname r c b))"
proof -
  let ?b = "b\<lparr>heap := (heap b)(c := new_client), clients := gm_put c True (clients b)\<rparr>"
  have ow: "owner_of ?b = owner_of b" by (simp add: owner_of_def fun_eq_iff)
  have "peers (heap b c) = []"
    using inv new by (simp add: bridge_inv_unfold owners_inv_def)
  moreover have "overlays (heap b c) = []"
  proof -
    have "ov \<notin> set (overlays (heap b c))" for ov
      using inv_owns_overlay [OF inv, of c ov] inv_owner [OF inv, of _ c] \<open>peers (heap b c) = []\<close>
      by (simp add: clientOwnsOverlay_def)
    then show ?thesis by (cases "overlays (heap b c)") auto
  qed
  ultimately have prs: "peers (heap ?b x) = peers (heap b x)"
    and ovs: "overlays (heap ?b x) = overlays (heap b x)" for x
    by (simp_all add: new_client_def)
  have "maps_inv ?b = maps_inv b" "pending_inv ?b = pending_inv b"
    by (simp_all add: maps_inv_def pending_inv_def ow)
  moreover have "overlays_inv ?b = overlays_inv b" "limits_inv ?b = limits_inv b"
    unfolding overlays_inv_def limits_inv_def ow ovs prs by simp_all
  moreover have "owners_inv (\<lambda>_. {}) ?b"
    using inv unfolding bridge_inv_unfold owners_inv_def ow ovs prs by simp
  ultimately have "bridge_inv ?b" using inv by (simp add: bridge_inv_unfold)
  with inv show ?thesis by (simp add: acceptClient_def)
qed

text \<open>
  C26: a connection is admitted only with the configured API key, from an allowed origin and while
  the number of clients is below the maximum; a refused connection leaves the bridge as it was,
  and an admitted one starts with nothing: no peers, overlays, subscriptions or running requests.
\<close>
theorem admission_spec:
  "acceptClient hostname r c b = (b', a) \<Longrightarrow> gm_get (clients b) c = None \<Longrightarrow>
   (a = Admitted \<longleftrightarrow>
      (APIKey (cfg b) = [] \<or> hr_api_key r = APIKey (cfg b))
      \<and> (hr_origin r = [] \<or> (\<exists>h \<in> set (AllowedOrigins (cfg b)).
            hostname (hr_origin r) \<noteq> None \<and> (h = ''*'' \<or> hostname (hr_origin r) = Some h)))
      \<and> int (gm_len (clients b)) < MaxClients (cfg b))
   \<and> (a \<noteq> Admitted \<longrightarrow> b' = b)
   \<and> (a = Admitted \<longrightarrow> heap b' c = new_client \<and> int (gm_len (clients b')) \<le> MaxClients (cfg b'))"
  by (auto simp: acceptClient_def authorized_def CheckOrigin_def list_ex_iff gm_len_update
      split: if_splits option.splits)

theorem admission_spec_witness:
  "snd (acceptClient Some \<lparr>hr_origin = ''localhost'', hr_api_key = []\<rparr> 0 (NewWSBridge None)) = Admitted"
proof -
  let ?r = "\<lparr>hr_origin = ''localhost'', hr_api_key = []\<rparr>"
  obtain b' a where e: "acceptClient Some ?r 0 (NewWSBridge None) = (b', a)" by (metis surj_pair)
  have "gm_get (clients (NewWSBridge None)) 0 = None" by (simp add: NewWSBridge_def)
  from admission_spec [OF e this] have "a = Admitted"
    by (simp add: NewWSBridge_def DefaultBridgeConfig_def)
  with e show ?thesis by simp
qed

section \<open>The in-flight limit\<close>

text \<open>
  The in-flight semaphore never lets a client run more requests than configured: a request
  over the limit is answered with an error and changes nothing, and a handler that returns or
  panics gives its token back.
\<close>
theorem inflight_limited:
  assumes "int (inflight (heap b c)) \<le> MaxInflight (cfg b)"
    and "\<forall>b1 b2 es. handle c req b1 = Some (b2, es) \<longrightarrow> inflight (heap b2 c) = inflight (heap b1 c)"
  shows "inflight (heap (fst (serveRequest handle c req b)) c) = inflight (heap b c)
    \<and> (int (inflight (heap b c)) = MaxInflight (cfg b) \<longrightarrow>
        serveRequest handle c req b = (b, [Reply c (req_id req) busy_error]))
    \<and> (\<forall>b1. acquire c b = Some b1 \<longrightarrow> int (inflight (heap b1 c)) \<le> MaxInflight (cfg b1))"
proof (cases "acquire c b")
  case None
  then show ?thesis by (simp add: serveRequest_def reply_to_def)
next
  case (Some b1)
  note t = inflight_slots.taken [OF Some] inflight_slots.taken_below [OF Some]
  have "inflight (heap (release c b1) c) = inflight (heap b c)"
    using inflight_slots.take_give [OF Some] by simp
  moreover have "inflight (heap (release c b2) c) = inflight (heap b c)"
    if "handle c req b1 = Some (b2, es)" for b2 es
  proof -
    have "inflight (heap b2 c) = inflight (heap b1 c)" using that assms(2) by blast
    moreover have "inflight (heap b1 c) = inflight (heap b c) + 1" using t by linarith
    ultimately show ?thesis by (simp add: release_def)
  qed
  ultimately show ?thesis
    using t Some by (cases "handle c req b1") (auto simp: serveRequest_def)
qed

definition echo_handler :: "client_ref \<Rightarrow> WSRequest \<Rightarrow> WSBridge \<Rightarrow> outcome option" where
  "echo_handler c req b = Some (b, [Reply c (req_id req) (Result JNull)])"

theorem inflight_limited_witness:
  "inflight (heap (fst (serveRequest echo_handler 0 ping_request (NewWSBridge None))) 0) = 0"
  using inflight_limited [of "NewWSBridge None" 0 echo_handler ping_request]
  by (simp add: NewWSBridge_def new_client_def DefaultBridgeConfig_def echo_handler_def)

end
