(* ===== verification/Reachable.thy ===== *)
theory Reachable
  imports Connection
begin

text \<open>
  The bridge as a transition system: clients connect and leave, requests start, run and end, the
  network library calls the handlers of peers and overlays, and the sweep runs. Any interleaving
  of these steps is an execution; the invariant holds in every state they reach.
\<close>

inductive bridge_step :: "WSBridge \<Rightarrow> effect list \<Rightarrow> WSBridge \<Rightarrow> bool" where
  accept: "gm_get (clients b) c = None \<Longrightarrow> acceptClient hostname r c b = (b', a) \<Longrightarrow>
     bridge_step b [] b'"
| start: "gm_get (clients b) c \<noteq> None \<Longrightarrow> acquire c b = Some b' \<Longrightarrow> bridge_step b [] b'"
| request: "gm_get (clients b) c \<noteq> None \<Longrightarrow> env_ok e \<Longrightarrow> handleRequest e c req b = (b', es) \<Longrightarrow>
     bridge_step b es b'"
| finish: "bridge_step b [] (release c b)"
| answered: "bridge_step b [] (answer_finish q pq b)"
| incoming: "connectionHandler net p b = ((b', es), err) \<Longrightarrow> bridge_step b es b'"
| custom: "peerCustomHandler tlib p msg b = (b', es) \<Longrightarrow> bridge_step b es b'"
| query: "peerQueryHandler tlib now p qid msg b = (b', es) \<Longrightarrow> bridge_step b es b'"
| overlay_query: "run_overlay_query_handler tlib now h qid msg b = (b', es) \<Longrightarrow> bridge_step b es b'"
| peer_gone: "peerDisconnectHandler p b = (b', es) \<Longrightarrow> bridge_step b es b'"
| sweep: "bridge_step b [] (sweepPendingQueries now b)"
| broadcast_done: "bridge_step b [] (broadcastDone c b)"
| client_gone: "disconnectClient c b = (b', es) \<Longrightarrow> bridge_step b es b'"

inductive_cases bridge_step_cases: "bridge_step b es b'"

inductive reachable :: "BridgeConfig option \<Rightarrow> WSBridge \<Rightarrow> bool" for cf where
  init: "reachable cf (NewWSBridge cf)"
| step: "reachable cf b \<Longrightarrow> bridge_step b es b' \<Longrightarrow> reachable cf b'"

lemma acquire_inv: "bridge_inv b \<Longrightarrow> acquire c b = Some b' \<Longrightarrow> bridge_inv b'"
  by (auto simp: acquire_def intro!: upd_client_inv split: if_splits)

lemma release_inv: "bridge_inv b \<Longrightarrow> bridge_inv (release c b)"
  unfolding release_def by (rule upd_client_inv) simp_all

lemma step_inv:
  assumes "bridge_step b es b'" and inv: "bridge_inv b"
  shows "bridge_inv b'"
  using assms(1)
proof (cases rule: bridge_step.cases)
  case (accept c hostname r a)
  with accept_inv [OF inv, of c hostname r] show ?thesis by simp
next
  case (start c)
  with acquire_inv [OF inv] show ?thesis by simp
next
  case (request c e req)
  with handleRequest_inv [OF inv, of e c req] show ?thesis by simp
next
  case (finish c)
  with release_inv [OF inv] show ?thesis by simp
next
  case (incoming net p err)
  with connectionHandler_inv [OF inv, of net p] show ?thesis by simp
next
  case (custom tlib p msg)
  with inv custom_handler_state [of tlib p msg b] show ?thesis by simp
next
  case (query tlib now p qid msg)
  with query_handler_inv [OF inv, of tlib now p qid msg] show ?thesis by simp
next
  case (overlay_query tlib now h qid msg)
  with run_overlay_query_handler_inv [OF inv, of tlib now h qid msg] show ?thesis by simp
next
  case (peer_gone p)
  with disconnect_handler_inv [OF inv, of p] show ?thesis by simp
next
  case (client_gone c)
  with disconnectClient_inv [OF inv, of c] show ?thesis by simp
qed (simp_all add: inv inv_preserve)

lemma reachable_inv: "reachable cf b \<Longrightarrow> bridge_inv b"
  by (induction rule: reachable.induct) (auto intro: bridge_inv_init step_inv)

text \<open>
  C1: in every reachable state the maps of the bridge agree: a peer is filed under its own
  identity, belongs to at most one client and to exactly the client that lists it; every open
  overlay is attached to a live peer and listed by the client that owns this peer; a query
  handler belongs to the owner of its peer; a pending query belongs to a live peer; and no client
  exceeds its peer or overlay limit, whatever interleaving of requests, incoming connections,
  messages, disconnections and teardowns led there.
\<close>
theorem reachable_consistent:
  assumes "reachable cf b"
  shows "(\<forall>k p. gm_get (activePeers b) k = Some p \<longrightarrow> k = hex_encode (GetID p))
    \<and> (\<forall>k c. owner_of b k = Some c \<longleftrightarrow> k \<in> set (peers (heap b c)))
    \<and> (\<forall>k c. owner_of b k = Some c \<longrightarrow>
         gm_get (activePeers b) k \<noteq> None \<and> gm_get (clients b) c \<noteq> None)
    \<and> (\<forall>ov. gm_get (activeOverlays b) ov \<noteq> None \<longrightarrow>
         (\<exists>k c. gm_get (overlayToPeer b) ov = Some k \<and> owner_of b k = Some c
            \<and> ov \<in> set (overlays (heap b c))))
    \<and> (\<forall>k h. gm_get (peerQueries b) k = Some h \<longrightarrow> owner_of b k = Some (qh_client h))
    \<and> (\<forall>q pq. gm_get (pendingQueries b) q = Some pq \<longrightarrow>
         gm_get (activePeers b) (hex_encode (GetID (pq_peer pq))) = Some (pq_peer pq))
    \<and> (\<forall>c. int (length (peers (heap b c))) \<le> max 0 (MaxPeers (ADNL (Namespaces (cfg b))))
         \<and> int (length (overlays (heap b c))) \<le> max 0 (MaxOverlays (Overlay (Namespaces (cfg b)))))"
proof -
  have inv: "bridge_inv b" using assms by (rule reachable_inv)
  have m: "maps_inv b" and o: "owners_inv (\<lambda>_. {}) b" and v: "overlays_inv b"
    and q: "pending_inv b" and l: "limits_inv b"
    using inv by (simp_all add: bridge_inv_unfold)
  have ov: "\<exists>k c. gm_get (overlayToPeer b) ov = Some k \<and> owner_of b k = Some c
      \<and> ov \<in> set (overlays (heap b c))" if "gm_get (activeOverlays b) ov \<noteq> None" for ov
  proof -
    have "gm_get (activeOverlays b) ov = None \<longleftrightarrow> gm_get (overlayToPeer b) ov = None"
      using v by (simp add: overlays_inv_def)
    with that obtain k where k: "gm_get (overlayToPeer b) ov = Some k"
      by (cases "gm_get (overlayToPeer b) ov") simp_all
    with inv obtain c where "owner_of b k = Some c" by (rule inv_attached)
    with k v show ?thesis unfolding overlays_inv_def by blast
  qed
  have con: "gm_get (clients b) c \<noteq> None" if "owner_of b k = Some c" for k c
    using o that by (auto simp: owners_inv_def)
  show ?thesis
    using m ov con inv_owner [OF inv] inv_owner_active [OF inv] q l
    unfolding maps_inv_def pending_inv_def limits_inv_def by blast
qed

text \<open>An execution: a client connects, a peer dials in, the client takes it over.\<close>

definition demo_peer :: peer where
  "demo_peer = Peer 1 [7]"

definition demo_net :: net where
  "demo_net =
     \<lparr>RegisterClient = (\<lambda>_ _ _. (None, \<lambda>_. Inl (ErrLib 0))), incoming = (\<lambda>_. []),
      Ping = (\<lambda>_ _. Inr 5), GetCloserErr = (\<lambda>_. None), RemoteAddr = (\<lambda>_. ''192.0.2.1:30310''),
      FindAddresses = (\<lambda>_. Inl (ErrLib 1)), SendCustomMessage = (\<lambda>_ _. None),
      Query = (\<lambda>_ _ _. Inr None), Answer = (\<lambda>_ _ _. None), CreateExtendedADNL = (\<lambda>_. 11),
      NewBroadcastReceiver = (\<lambda>_. Inr 21), AttachOverlay = (\<lambda>_ _. Inr (Some 31)),
      GetRandomPeers = (\<lambda>_. Inr []), ow_SendCustomMessage = (\<lambda>_ _. None),
      ow_Query = (\<lambda>_ _ _. Inr None), NewBroadcastFECSender = (\<lambda>_. Inr [9]),
      NewBroadcastFECBroadcaster = (\<lambda>_ _. Inr ())\<rparr>"

definition demo_connected :: WSBridge where
  "demo_connected =
     fst (acceptClient Some \<lparr>hr_origin = [], hr_api_key = []\<rparr> 0 (NewWSBridge None))"

definition demo_incoming :: WSBridge where
  "demo_incoming = fst (fst (connectionHandler demo_net demo_peer demo_connected))"

lemma demo_reachable: "reachable None demo_connected" "reachable None demo_incoming"
proof -
  show c: "reachable None demo_connected"
    unfolding demo_connected_def
    by (rule reachable.step [OF reachable.init bridge_step.accept])
      (auto simp: NewWSBridge_def intro: prod.collapse [symmetric])
  obtain b' es err where h: "connectionHandler demo_net demo_peer demo_connected = ((b', es), err)"
    by (metis surj_pair)
  from reachable.step [OF c bridge_step.incoming [OF h]] h show "reachable None demo_incoming"
    by (simp add: demo_incoming_def)
qed

lemma demo_incoming_peer: "gm_get (activePeers demo_incoming) (hex_encode [7]) = Some demo_peer"
  by (simp add: demo_incoming_def connectionHandler_state installPeer_def Let_def demo_peer_def
      demo_connected_def acceptClient_def authorized_def CheckOrigin_def NewWSBridge_def
      DefaultBridgeConfig_def demo_net_def)

theorem reachable_consistent_witness:
  "gm_get (activePeers demo_incoming) (hex_encode [7]) = Some demo_peer
   \<and> hex_encode [7] = hex_encode (GetID demo_peer)"
  using reachable_consistent [OF demo_reachable(2)] demo_incoming_peer by blast

end
