(* ===== verification/PeerProps.thy ===== *)
theory PeerProps
  imports Reachable
begin

text \<open>
  What the lifecycle operations guarantee: installation never takes a peer away from anyone,
  removal leaves nothing behind and touches nothing else, stale notifications are ignored,
  traffic of a peer reaches only its owner, and a closing client releases everything it held.
\<close>

lemma demo_inv: "bridge_inv demo_connected" "bridge_inv demo_incoming"
  using demo_reachable by (auto intro: reachable_inv)

lemma demo_unowned: "owner_of demo_incoming (hex_encode [7]) = None"
  by (simp add: demo_incoming_def connectionHandler_state installPeer_def Let_def demo_peer_def
      demo_connected_def acceptClient_def authorized_def CheckOrigin_def NewWSBridge_def
      DefaultBridgeConfig_def demo_net_def owner_of_def)

section \<open>Installation\<close>

text \<open>
  C24: \<open>installPeer\<close> never replaces a connected peer object and never moves a peer from one client to
  another; when it fails it changes nothing, and when it succeeds the peer is current and, if it
  was installed for a client, owned by that client.
\<close>
theorem install_never_rebinds:
  assumes "bridge_inv b" and "installPeer net p ow b = ((b', es), err)"
  shows "(\<forall>k q. gm_get (activePeers b) k = Some q \<longrightarrow> gm_get (activePeers b') k = Some q)
    \<and> (\<forall>k c. owner_of b k = Some c \<longrightarrow> owner_of b' k = Some c)
    \<and> (err \<noteq> None \<longrightarrow> b' = b)
    \<and> (err = None \<longrightarrow> gm_get (activePeers b') (hex_encode (GetID p)) = Some p
         \<and> (ow \<noteq> None \<longrightarrow> owner_of b' (hex_encode (GetID p)) = ow))"
proof (cases err)
  case (Some e)
  with assms install_failed have "b' = b" by blast
  with Some show ?thesis by simp
next
  case None
  with assms(2) have "installPeer net p ow b = ((b', es), None)" by simp
  then show ?thesis
  proof (cases rule: install_ok_cases)
    case known
    with None show ?thesis by (auto simp: owner_put)
  next
    case fresh
    with None inv_fresh(1) [OF assms(1) fresh(1)] show ?thesis by (auto simp: owner_put)
  qed
qed

theorem install_never_rebinds_witness:
  "\<exists>b' es. installPeer demo_net demo_peer (Some 0) demo_incoming = ((b', es), None)
     \<and> owner_of b' (hex_encode [7]) = Some 0"
proof -
  have "snd (installPeer demo_net demo_peer (Some 0) demo_incoming) = None"
    using demo_incoming_peer demo_unowned by (simp add: installPeer_def demo_peer_def)
  then obtain b' es where i: "installPeer demo_net demo_peer (Some 0) demo_incoming = ((b', es), None)"
    by (metis surj_pair snd_conv)
  from install_never_rebinds [OF demo_inv(2) i] i show ?thesis by (auto simp: demo_peer_def)
qed

section \<open>Removal\<close>

lemma detach_result:
  "detachPeerLocked k p b = ((b', es), r) \<Longrightarrow> b' = detached k p b"
  by (simp add: detached_def)

lemma detach_closes:
  assumes "gm_get (activePeers b) k = Some p" and "gm_get (overlayToPeer b) ov = Some k"
    and "gm_get (activeOverlays b) ov = Some (Some w)"
  shows "CloseOverlay w \<in> set (snd (fst (detachPeerLocked k p b)))"
proof -
  let ?ids = "gm_keys_where (\<lambda>_ pk. pk = k) (overlayToPeer b)"
  have "ov \<in> set ?ids" using assms(2) by (simp add: set_gm_keys_where)
  then have "Some w \<in> set (List.map_filter (gm_get (activeOverlays b)) ?ids)"
    using assms(3) by (force simp: map_filter_def)
  moreover have "CloseOverlay w \<in> set (closeOverlay (Some w))" by (simp add: closeOverlay_def)
  ultimately have "CloseOverlay w \<in> set (concat (map closeOverlay (List.map_filter (gm_get (activeOverlays b)) ?ids)))"
    by force
  with assms(1) show ?thesis by (simp add: detachPeerLocked_def Let_def)
qed

text \<open>
  C23: removing a connected peer reports its owner and leaves no trace of it: no map entry, no
  overlay attached to it, no pending query of it, no mention in any client's lists; all its open
  overlay wrappers are closed, and every other peer keeps its object and its owner.
\<close>
theorem detach_complete:
  assumes inv: "bridge_inv b" and act: "gm_get (activePeers b) k = Some p"
    and det: "detachPeerLocked k p b = ((b', es), r)"
  shows "r = Some (owner_of b k)
    \<and> gm_get (activePeers b') k = None \<and> gm_get (peerWrappers b') k = None
    \<and> owner_of b' k = None \<and> gm_get (peerQueries b') k = None
    \<and> (\<forall>ov. gm_get (overlayToPeer b') ov \<noteq> Some k)
    \<and> (\<forall>ov. gm_get (overlayToPeer b) ov = Some k \<longrightarrow>
         gm_get (activeOverlays b') ov = None \<and> (\<forall>c. ov \<notin> set (overlays (heap b' c))))
    \<and> (\<forall>q pq. gm_get (pendingQueries b') q = Some pq \<longrightarrow> pq_peer pq \<noteq> p)
    \<and> (\<forall>c. k \<notin> set (peers (heap b' c)))
    \<and> (\<forall>ov w. gm_get (overlayToPeer b) ov = Some k \<and> gm_get (activeOverlays b) ov = Some (Some w)
         \<longrightarrow> CloseOverlay w \<in> set es)
    \<and> (\<forall>x. x \<noteq> k \<longrightarrow> gm_get (activePeers b') x = gm_get (activePeers b) x \<and> owner_of b' x = owner_of b x)"
proof -
  note b' = detach_result [OF det]
  note d = detached_maps [OF act] detached_owner [OF act]
  have inv': "bridge_inv b'" using detach_inv [OF inv, of k p] det by simp
  have own: "owner_of b' k = None" by (simp add: b' d)
  have peers: "k \<notin> set (peers (heap b' c))" for c
    using inv_owner [OF inv', of k c] own by simp
  have ovs: "ov \<notin> set (overlays (heap b' c))" if "gm_get (overlayToPeer b) ov = Some k" for ov c
  proof -
    have "gm_get (overlayToPeer b') ov = None" using that by (simp add: b' d)
    with inv_owns_overlay [OF inv', of c ov] show ?thesis by (simp add: clientOwnsOverlay_def)
  qed
  have r: "r = Some (owner_of b k)" using detach_removes [OF act] det by simp
  have closed: "\<forall>ov w. gm_get (overlayToPeer b) ov = Some k \<and> gm_get (activeOverlays b) ov = Some (Some w)
      \<longrightarrow> CloseOverlay w \<in> set es"
    using detach_closes [OF act] det by auto
  show ?thesis
    using r own peers ovs closed
    by (simp add: b' d split: option.split)
qed

text \<open>The demo peer taken over by client 0.\<close>

definition demo_owned :: WSBridge where
  "demo_owned =
     addClientPeer 0 (hex_encode [7])
       (fst (fst (installPeer demo_net demo_peer (Some 0) demo_incoming)))"

lemma demo_client: "gm_get (clients demo_incoming) 0 = Some True" "heap demo_incoming 0 = new_client"
  "cfg demo_incoming = DefaultBridgeConfig"
  by (simp_all add: demo_incoming_def connectionHandler_state installPeer_def Let_def demo_peer_def
      demo_connected_def acceptClient_def authorized_def CheckOrigin_def NewWSBridge_def
      DefaultBridgeConfig_def demo_net_def)

lemma demo_install:
  "installPeer demo_net demo_peer (Some 0) demo_incoming =
     ((demo_incoming\<lparr>peerOwners := gm_put (hex_encode [7]) (Some 0) (peerOwners demo_incoming)\<rparr>, []), None)"
  using demo_incoming_peer demo_unowned by (simp add: installPeer_def demo_peer_def)

lemma demo_owned_inv: "bridge_inv demo_owned"
proof -
  have "bridge_inv (addClientPeer 0 (hex_encode (GetID demo_peer))
      (demo_incoming\<lparr>peerOwners := gm_put (hex_encode [7]) (Some 0) (peerOwners demo_incoming)\<rparr>))"
    by (rule install_owned_inv [OF demo_inv(2) demo_install])
      (simp_all add: demo_client new_client_def DefaultBridgeConfig_def DefaultNamespaces_def)
  moreover have "GetID demo_peer = [7]" by (simp add: demo_peer_def)
  ultimately show ?thesis by (simp only: demo_owned_def demo_install fst_conv)
qed

lemma demo_owned_facts:
  "gm_get (activePeers demo_owned) (hex_encode [7]) = Some demo_peer"
  "owner_of demo_owned (hex_encode [7]) = Some 0" "peers (heap demo_owned 0) = [hex_encode [7]]"
  "clients demo_owned = clients demo_incoming" "cfg demo_owned = DefaultBridgeConfig"
  using demo_incoming_peer demo_client
  by (simp_all add: demo_owned_def demo_install addClientPeer_def owner_put new_client_def)

theorem detach_complete_witness:
  "\<exists>b' es. detachPeerLocked (hex_encode [7]) demo_peer demo_incoming = ((b', es), Some None)
     \<and> gm_get (activePeers b') (hex_encode [7]) = None"
proof -
  obtain b' es r where d: "detachPeerLocked (hex_encode [7]) demo_peer demo_incoming = ((b', es), r)"
    by (metis surj_pair)
  from detach_complete [OF demo_inv(2) demo_incoming_peer d] d demo_unowned show ?thesis by auto
qed

text \<open>
  A disconnect notification of a peer object that is no longer current, because the peer was
  removed or has reconnected as another object, is ignored: nothing changes and no client hears
  of it; one of the current object removes the peer and tells its owner, or every client when it
  has none.
\<close>
theorem disconnect_notification:
  "(gm_get (activePeers b) (hex_encode (GetID p)) \<noteq> Some p \<longrightarrow> peerDisconnectHandler p b = (b, []))
   \<and> (gm_get (activePeers b) (hex_encode (GetID p)) = Some p \<longrightarrow>
       gm_get (activePeers (fst (peerDisconnectHandler p b))) (hex_encode (GetID p)) = None
       \<and> (\<forall>c. Event c ''adnl.disconnected'' (JObj [(''peer'', jpeer_id p)]) \<in> set (snd (peerDisconnectHandler p b))
            \<longleftrightarrow> (case owner_of b (hex_encode (GetID p)) of
                   Some o1 \<Rightarrow> c = o1 | None \<Rightarrow> gm_get (clients b) c \<noteq> None)))"
proof (cases "gm_get (activePeers b) (hex_encode (GetID p)) = Some p")
  case False
  then show ?thesis by (simp add: peerDisconnectHandler_def detach_stale)
next
  case True
  let ?k = "hex_encode (GetID p)"
  obtain b' es r where d: "detachPeerLocked ?k p b = ((b', es), r)" by (metis surj_pair)
  have r: "r = Some (owner_of b ?k)" using detach_removes [OF True] d by simp
  have b': "b' = detached ?k p b" by (rule detach_result [OF d])
  have no_event: "Event c n j \<notin> set es" for c n j
    using d True by (auto simp: detachPeerLocked_def Let_def closeOverlay_def split: option.splits)
  have "clients b' = clients b" by (simp add: b' detached_maps [OF True])
  then have ent: "Event c n j \<in> set (broadcastToClients b' n j) \<longleftrightarrow> gm_get (clients b) c \<noteq> None" for c n j
    by (simp add: broadcast_iff)
  have "gm_get (activePeers b') ?k = None" by (simp add: b' detached_maps [OF True])
  with True d r no_event ent show ?thesis
    by (cases "owner_of b ?k") (simp_all add: peerDisconnectHandler_def notify_owner_def sendEvent_def)
qed

theorem disconnect_notification_witness:
  "peerDisconnectHandler (Peer 2 [7]) demo_owned = (demo_owned, [])
   \<and> Event 0 ''adnl.disconnected'' (JObj [(''peer'', jpeer_id demo_peer)])
       \<in> set (snd (peerDisconnectHandler demo_peer demo_owned))"
  using disconnect_notification [of demo_owned "Peer 2 [7]"] disconnect_notification [of demo_owned demo_peer]
    demo_owned_facts by (simp add: demo_peer_def)

section \<open>Traffic of a peer\<close>

lemma notify_owner_private:
  "e \<in> set (notify_owner b ow n j) \<Longrightarrow> addressee e = Some c \<Longrightarrow> ow = None \<or> ow = Some c"
  by (auto simp: notify_owner_def sendEvent_def split: option.splits)

lemma detach_silent: "e \<in> set (snd (fst (detachPeerLocked k p b))) \<Longrightarrow> addressee e = None"
  by (auto simp: detachPeerLocked_def Let_def closeOverlay_def split: option.splits if_splits)

text \<open>
  C11: what a peer sends, asks or does by disconnecting reaches a client only while that peer object
  is current, and never a client other than its owner once it has one.
\<close>
theorem peer_events_private:
  assumes inv: "bridge_inv b"
    and src: "peerCustomHandler tlib p msg b = (b', es) \<or> peerQueryHandler tlib now p qid msg b = (b', es)
      \<or> peerDisconnectHandler p b = (b', es)"
    and ev: "e \<in> set es" "addressee e = Some c"
  shows "gm_get (activePeers b) (hex_encode (GetID p)) = Some p
    \<and> (owner_of b (hex_encode (GetID p)) = None \<or> owner_of b (hex_encode (GetID p)) = Some c)"
proof -
  let ?k = "hex_encode (GetID p)"
  have act: "gm_get (activePeers b) ?k = Some p"
    using src ev
    by (auto simp: peerCustomHandler_def peerQueryHandler_def peerDisconnectHandler_def Let_def
        detachPeerLocked_def split: if_splits)
  from src consider
      (custom) "peerCustomHandler tlib p msg b = (b', es)"
    | (query) "peerQueryHandler tlib now p qid msg b = (b', es)"
    | (gone) "peerDisconnectHandler p b = (b', es)" by blast
  then have "owner_of b ?k = None \<or> owner_of b ?k = Some c"
  proof cases
    case custom
    then have "\<exists>j. es = notify_owner b (owner_of b ?k) ''adnl.message'' j"
      using act ev(1) by (auto simp: peerCustomHandler_def Let_def split: sum.splits)
    with ev notify_owner_private show ?thesis by blast
  next
    case query
    then obtain h where h: "gm_get (peerQueries b) ?k = Some h"
      and r: "run_query_handler tlib now h qid msg b = (b', es)"
      using act ev(1) by (auto simp: peerQueryHandler_def Let_def split: option.splits)
    from inv h have "owner_of b ?k = Some (qh_client h)" by (simp add: bridge_inv_unfold maps_inv_def)
    moreover have "qh_client h = c"
      using r ev by (auto simp: run_query_handler_def sendEvent_def Let_def split: sum.splits if_splits)
    ultimately show ?thesis by simp
  next
    case gone
    obtain b1 es1 r where d: "detachPeerLocked ?k p b = ((b1, es1), r)" by (metis surj_pair)
    have "r = Some (owner_of b ?k)" using detach_removes [OF act] d by simp
    with gone d have es: "\<exists>j. es = es1 @ notify_owner b1 (owner_of b ?k) ''adnl.disconnected'' j"
      by (auto simp: peerDisconnectHandler_def)
    have "e \<notin> set es1" using detach_silent [of e ?k p b] d ev(2) by auto
    with es ev notify_owner_private show ?thesis by fastforce
  qed
  with act show ?thesis by simp
qed

definition demo_tl :: tl_lib where
  "demo_tl = \<lparr>tl_Parse = (\<lambda>bs. Inr (TLObj (length bs), [])), tl_Serialize = (\<lambda>_. Inr [1, 2]),
     tl_HashKey = (\<lambda>bs. Inr (take 1 bs))\<rparr>"

lemma demo_message:
  "peerCustomHandler demo_tl demo_peer (RawMessage [65]) demo_owned =
     (demo_owned, [Event 0 ''adnl.message'' (JObj [(''from'', jpeer_id demo_peer), (''message'', jbytes [65])])])"
  using demo_owned_facts
  by (simp add: peerCustomHandler_def demo_peer_def message_bytes_def notify_owner_def sendEvent_def)

theorem peer_events_private_witness:
  "owner_of demo_owned (hex_encode [7]) = Some 0"
  using peer_events_private [OF demo_owned_inv disjI1 [OF demo_message], where c = 0] demo_owned_facts(2)
  by (simp add: demo_peer_def)

section \<open>A closing client\<close>

lemma detach_all_gone:
  "gm_get (activeOverlays b) ov = None \<Longrightarrow> gm_get (activeOverlays (detach_all ks b)) ov = None"
  "gm_get (overlayToPeer b) ov = None \<Longrightarrow> gm_get (overlayToPeer (detach_all ks b)) ov = None"
  by (induction ks arbitrary: b) (auto simp: detached_maps split: option.split)

lemma detach_all_drops:
  "k \<in> set ks \<Longrightarrow> gm_get (activePeers b) k \<noteq> None \<Longrightarrow> gm_get (overlayToPeer b) ov = Some k \<Longrightarrow>
   gm_get (activeOverlays (detach_all ks b)) ov = None \<and> gm_get (overlayToPeer (detach_all ks b)) ov = None"
proof (induction ks arbitrary: b)
  case (Cons k' ks)
  show ?case
  proof (cases "gm_get (activePeers b) k'")
    case None
    with Cons show ?thesis by auto
  next
    case (Some p)
    show ?thesis
    proof (cases "k = k'")
      case True
      with Cons.prems(3) Some show ?thesis by (simp add: detach_all_gone detached_maps)
    next
      case False
      with Cons.prems Some Cons.IH [of "detached k' p b"] show ?thesis by (auto simp: detached_maps)
    qed
  qed
qed simp

lemma closePeers_closes_overlays:
  "k \<in> set ks \<Longrightarrow> gm_get (activePeers b) k \<noteq> None \<Longrightarrow> gm_get (overlayToPeer b) ov = Some k \<Longrightarrow>
   gm_get (activeOverlays b) ov = Some (Some w) \<Longrightarrow> CloseOverlay w \<in> set (snd (closePeers ks (b, es)))"
proof (induction ks arbitrary: b es)
  case (Cons k' ks)
  show ?case
  proof (cases "gm_get (activePeers b) k'")
    case None
    with Cons show ?thesis by auto
  next
    case (Some q)
    obtain b' es' r where d: "detachPeerLocked k' q b = ((b', es'), r)" by (metis surj_pair)
    obtain o1 where r: "r = Some o1" using detach_removes [OF Some] d by auto
    have step: "closePeers (k' # ks) (b, es) = closePeers ks (b', es @ es' @ [ClosePeer q])"
      using Some d r by simp
    show ?thesis
    proof (cases "k = k'")
      case True
      then have "CloseOverlay w \<in> set es'" using detach_closes [OF Some] Cons.prems(3,4) d by auto
      then show ?thesis unfolding step by (intro closePeers_keeps) simp
    next
      case False
      have b': "b' = detached k' q b" using d by (simp add: detached_def)
      show ?thesis unfolding step
        using Cons.prems False by (intro Cons.IH) (auto simp: b' detached_maps [OF Some])
    qed
  qed
qed simp

text \<open>
  C10: when a connection ends, everything the client held is released: it leaves the client map,
  each of its peers is closed and removed, each overlay joined through one of them is closed and
  gone from both overlay maps, no peer or overlay names the client any more, and the peers and
  overlays of all other clients stay as they were.
\<close>
theorem client_close_releases:
  assumes inv: "bridge_inv b" and close: "disconnectClient c b = (b', es)"
  shows "gm_get (clients b') c = None
    \<and> peers (heap b' c) = [] \<and> overlays (heap b' c) = []
    \<and> (\<forall>k. owner_of b' k \<noteq> Some c)
    \<and> (\<forall>k p. owner_of b k = Some c \<and> gm_get (activePeers b) k = Some p \<longrightarrow>
         gm_get (activePeers b') k = None \<and> ClosePeer p \<in> set es)
    \<and> (\<forall>k. owner_of b k \<noteq> Some c \<longrightarrow> gm_get (activePeers b') k = gm_get (activePeers b) k)
    \<and> (\<forall>k c'. c' \<noteq> c \<and> owner_of b k = Some c' \<longrightarrow> owner_of b' k = Some c')
    \<and> (\<forall>ov k. gm_get (overlayToPeer b) ov = Some k \<and> owner_of b k = Some c \<longrightarrow>
         gm_get (activeOverlays b') ov = None \<and> gm_get (overlayToPeer b') ov = None
         \<and> (\<forall>w. gm_get (activeOverlays b) ov = Some (Some w) \<longrightarrow> CloseOverlay w \<in> set es))
    \<and> (\<forall>ov k c'. c' \<noteq> c \<and> gm_get (overlayToPeer b) ov = Some k \<and> owner_of b k = Some c' \<longrightarrow>
         gm_get (activeOverlays b') ov = gm_get (activeOverlays b) ov
         \<and> gm_get (overlayToPeer b') ov = Some k)"
proof -
  define b0 where "b0 = upd_client c (\<lambda>w. w\<lparr>ctx_done := True\<rparr>) b"
  define b1 where "b1 = fst (cleanupPeers c b0)"
  define b2 where "b2 = fst (cleanupOverlays c b1)"
  let ?ks = "peers (heap b c)" and ?u = "upd_client c (\<lambda>w. w\<lparr>peers := []\<rparr>) b0"
  have b': "b' = b2\<lparr>clients := gm_del c (clients b2)\<rparr>"
    using close disconnectClient_state [of c b] by (simp add: b0_def b1_def b2_def Let_def)
  have ks: "peers (heap b0 c) = ?ks" by (simp add: b0_def)
  have b1: "b1 = detach_all ?ks ?u" by (simp add: b1_def cleanupPeers_state ks)
  have inv0: "bridge_inv b0" unfolding b0_def by (rule upd_client_inv [OF inv]) simp_all
  have inv1: "bridge_inv b1" unfolding b1_def by (rule cleanupPeers_inv [OF inv0])
  have inv': "bridge_inv b'" using disconnectClient_inv [OF inv, of c] close by simp
  have no_peers1: "peers (heap b1 c) = []" by (simp add: b1_def cleanup_no_peers)
  have act: "gm_get (activePeers b') k = (if k \<in> set ?ks then None else gm_get (activePeers b) k)" for k
    by (simp add: b' b2_def cleanupOverlays_def closeOverlays_maps b1 detach_all_maps b0_def)
  have own1: "owner_of b' k = owner_of b1 k" for k
    by (simp add: b' b2_def cleanupOverlays_def closeOverlays_maps owner_of_def)
  have empty: "peers (heap b' c) = []" "overlays (heap b' c) = []"
    by (simp_all add: b' b2_def cleanupOverlays_def closeOverlays_maps no_peers1)
  have gone: "owner_of b' k \<noteq> Some c" for k using inv_owner [OF inv', of k c] empty by simp
  have mine: "owner_of b k = Some c \<longleftrightarrow> k \<in> set ?ks" for k using inv_owner [OF inv] .
  have others: "owner_of b' k = Some c'" if "c' \<noteq> c" "owner_of b k = Some c'" for k c'
  proof -
    have "k \<notin> set ?ks" using that mine [of k] by simp
    with that show ?thesis
      using detach_all_other_peers [of ?u k ?ks] by (simp add: own1 b1 b0_def)
  qed
  have ovs: "gm_get (activeOverlays b') ov = gm_get (activeOverlays b) ov \<and> gm_get (overlayToPeer b') ov = Some k"
    if "c' \<noteq> c" "gm_get (overlayToPeer b) ov = Some k" "owner_of b k = Some c'" for ov k c'
  proof -
    have k: "k \<notin> set ?ks" using that mine [of k] by simp
    have "gm_get (activeOverlays b1) ov = gm_get (activeOverlays b) ov"
      and map1: "gm_get (overlayToPeer b1) ov = Some k"
      using detach_all_overlays [of ?u ov k ?ks] that(2) k by (simp_all add: b1 b0_def)
    moreover have "ov \<notin> set (overlays (heap b1 c))"
      using inv_owns_overlay [OF inv1, of c ov] map1 inv_owner [OF inv1, of k c] no_peers1
      by (simp add: clientOwnsOverlay_def)
    ultimately show ?thesis by (simp add: b' b2_def cleanupOverlays_def closeOverlays_maps)
  qed
  have closed: "ClosePeer p \<in> set es" if "owner_of b k = Some c" "gm_get (activePeers b) k = Some p" for k p
  proof -
    have "distinct ?ks" using inv by (simp add: bridge_inv_unfold owners_inv_def)
    then have "ClosePeer p \<in> set (snd (cleanupPeers c b0))"
      unfolding cleanupPeers_def using that mine ks
      by (intro closePeers_closes) (simp_all add: b0_def)
    with close show ?thesis
      by (auto simp: disconnectClient_def Let_def b0_def split: prod.splits)
  qed
  have active: "gm_get (activePeers ?u) k \<noteq> None" if "owner_of b k = Some c" for k
    using inv_orph_owner_active that inv by (simp add: b0_def bridge_inv_unfold bridge_inv_orph_def)
  have dropped: "gm_get (activeOverlays b') ov = None \<and> gm_get (overlayToPeer b') ov = None"
    if "gm_get (overlayToPeer b) ov = Some k" "owner_of b k = Some c" for ov k
    using detach_all_drops [of k ?ks ?u ov] active [OF that(2)] that mine
    by (simp add: b' b2_def cleanupOverlays_def closeOverlays_maps b1 b0_def)
  have closed_ov: "CloseOverlay w \<in> set es"
    if "gm_get (overlayToPeer b) ov = Some k" "owner_of b k = Some c"
      "gm_get (activeOverlays b) ov = Some (Some w)" for ov k w
  proof -
    have "CloseOverlay w \<in> set (snd (cleanupPeers c b0))"
      unfolding cleanupPeers_def ks
      by (rule closePeers_closes_overlays [of k _ _ ov]) (use that mine active in \<open>simp_all add: b0_def\<close>)
    with close show ?thesis
      by (auto simp: disconnectClient_def Let_def b0_def split: prod.splits)
  qed
  have cl: "gm_get (clients b') c = None" by (simp add: b')
  have "gm_get (activePeers b') k = None \<and> ClosePeer p \<in> set es"
    if "owner_of b k = Some c" "gm_get (activePeers b) k = Some p" for k p
    using that closed act mine by simp
  moreover have "gm_get (activePeers b') k = gm_get (activePeers b) k" if "owner_of b k \<noteq> Some c" for k
    using that act mine by simp
  ultimately show ?thesis
    using cl empty gone others ovs dropped closed_ov by (intro conjI allI impI) auto
qed

text \<open>The owner of the demo peer in an overlay joined through it.\<close>

definition demo_joined :: WSBridge where
  "demo_joined =
     upd_client 0 (\<lambda>w. w\<lparr>overlays := [''ov'']\<rparr>)
       (demo_owned\<lparr>activeOverlays := gm_put ''ov'' (Some 4) (activeOverlays demo_owned),
                   overlayToPeer := gm_put ''ov'' (hex_encode [7]) (overlayToPeer demo_owned)\<rparr>)"

lemma demo_no_overlays: "gm_get (overlayToPeer demo_owned) ov = None" "overlays (heap demo_owned c) = []"
  by (simp_all add: demo_owned_def demo_install addClientPeer_def demo_incoming_def connectionHandler_state
      installPeer_def Let_def demo_peer_def demo_connected_def acceptClient_def authorized_def
      CheckOrigin_def NewWSBridge_def DefaultBridgeConfig_def demo_net_def new_client_def)

lemma demo_joined_facts:
  "gm_get (overlayToPeer demo_joined) ''ov'' = Some (hex_encode [7])"
  "gm_get (activeOverlays demo_joined) ''ov'' = Some (Some 4)"
  "owner_of demo_joined k = owner_of demo_owned k"
  by (simp_all add: demo_joined_def owner_of_def)

lemma demo_joined_inv: "bridge_inv demo_joined"
proof -
  have own: "owner_of demo_joined = owner_of demo_owned" by (simp add: fun_eq_iff demo_joined_facts)
  have ovs: "overlays (heap demo_joined c) = (if c = 0 then [''ov''] else [])"
    and prs: "peers (heap demo_joined c) = peers (heap demo_owned c)" for c
    by (simp_all add: demo_joined_def demo_no_overlays)
  have m: "maps_inv demo_owned" "owners_inv (\<lambda>_. {}) demo_owned" "overlays_inv demo_owned"
    "pending_inv demo_owned" "limits_inv demo_owned"
    using demo_owned_inv by (simp_all add: bridge_inv_unfold)
  have "maps_inv demo_joined" "pending_inv demo_joined"
    using m(1,4) unfolding maps_inv_def pending_inv_def own by (simp_all add: demo_joined_def)
  moreover have "owners_inv (\<lambda>_. {}) demo_joined"
    using m(2) unfolding owners_inv_def own ovs prs by (simp add: demo_joined_def)
  moreover have "overlays_inv demo_joined"
    using m(3) demo_owned_facts(2) unfolding overlays_inv_def own ovs
    by (auto simp: demo_joined_def demo_no_overlays)
  moreover have "limits_inv demo_joined"
    using m(5) unfolding limits_inv_def ovs prs
    by (simp add: demo_joined_def demo_owned_facts(5) DefaultBridgeConfig_def DefaultNamespaces_def)
  ultimately show ?thesis by (simp add: bridge_inv_unfold)
qed

theorem client_close_releases_witness:
  "\<exists>b' es. disconnectClient 0 demo_joined = (b', es)
     \<and> gm_get (activePeers b') (hex_encode [7]) = None
     \<and> CloseOverlay 4 \<in> set es \<and> gm_get (overlayToPeer b') ''ov'' = None"
proof -
  obtain b' es where d: "disconnectClient 0 demo_joined = (b', es)" by (metis surj_pair)
  have "gm_get (activePeers demo_joined) (hex_encode [7]) = Some demo_peer"
    using demo_owned_facts(1) by (simp add: demo_joined_def)
  with client_close_releases [OF demo_joined_inv d] d demo_owned_facts(2) demo_joined_facts
  show ?thesis by auto
qed

end
