(* ===== verification/Isolation.thy ===== *)
theory Isolation
  imports PeerProps
begin

text \<open>
  What a client can do to others through requests: methods that name a peer or an overlay work
  only for its owner, connections never leave for private addresses, and queries are answered
  only by the client they were pushed to and only once.
\<close>

section \<open>Checks that only fail with invalid parameters\<close>

definition bad_only :: "'a checked \<Rightarrow> bool" where
  "bad_only chk \<longleftrightarrow> (\<forall>r. chk = Inl r \<longrightarrow> (\<exists>t. r = bad t))"

lemma bad_only_intros:
  "(\<And>x. r = Inr x \<Longrightarrow> bad_only (k x)) \<Longrightarrow> bad_only (attempt r (\<lambda>e. bad (T e)) k)"
  "(p \<Longrightarrow> bad_only k') \<Longrightarrow> bad_only (require p (bad t) k')"
  "(\<And>x. y = Some x \<Longrightarrow> bad_only (k'' x)) \<Longrightarrow> bad_only (present y (bad t) k'')"
  "bad_only (Inr z)"
  by (auto simp: bad_only_def attempt_def require_def present_def split: sum.splits option.splits)

lemma bad_only_derived:
  "(\<And>prm. unmarshal fs (req_params req) zero_params = Inr prm \<Longrightarrow> bad_only (k prm)) \<Longrightarrow>
     bad_only (with_params fs req k)"
  "(\<And>d. decodeBase64 s = Inr d \<Longrightarrow> bad_only (k1 d)) \<Longrightarrow> bad_only (with_base64 fld s k1)"
  "bad_only k2 \<Longrightarrow> bad_only (with_payload_size what d k2)"
  "(\<And>p. bad_only (k3 p)) \<Longrightarrow> bad_only (owned_peer b c key k3)"
  "(\<And>ow. bad_only (k4 ow)) \<Longrightarrow> bad_only (owned_overlay b c key k4)"
  unfolding with_params_def with_base64_def with_payload_size_def owned_peer_def owned_overlay_def
  by (intro bad_only_intros; simp)+

lemma bad_only_handler:
  assumes "bad_only chk" and "\<And>x. chk \<noteq> Inr x"
  shows "\<exists>t. handler c req b chk act = (b, [Reply c (req_id req) (Error (-32602) t)])"
proof (cases chk)
  case (Inl r)
  with assms(1) show ?thesis by (auto simp: bad_only_def invalid_params_def)
qed (use assms(2) in simp)

section \<open>Peers of other clients\<close>

text \<open>The key of the peer that a request names, as the method of the request decodes it.\<close>

definition peer_fields :: "adnl_method \<Rightarrow> (string \<times> rpc_params setter) list" where
  "peer_fields m =
     (case m of
        Adnl_SendMessage \<Rightarrow> [f_peer_id, f_data]
      | Adnl_Query \<Rightarrow> [f_peer_id, f_data, f_timeout, f_raw]
      | _ \<Rightarrow> [f_peer_id])"

definition named_peer :: "adnl_method \<Rightarrow> WSRequest \<Rightarrow> string option" where
  "named_peer m req =
     (case unmarshal (peer_fields m) (req_params req) zero_params of
        Inl _ \<Rightarrow> None
      | Inr prm \<Rightarrow> (case decodeBase64 (p_peer_id prm) of Inl _ \<Rightarrow> None | Inr d \<Rightarrow> Some (hex_encode d)))"

definition peer_methods :: "adnl_method list" where
  "peer_methods = [Adnl_SendMessage, Adnl_Ping, Adnl_Disconnect, Adnl_Query, Adnl_SetQueryHandler]"

lemma names_owned:
  assumes "bridge_inv b" and "owner_of b (hex_encode d) = Some c"
    and "unmarshal (peer_fields m) (req_params req) zero_params = Inr prm"
    and "decodeBase64 (p_peer_id prm) = Inr d"
  shows "\<exists>k. named_peer m req = Some k \<and> owner_of b k = Some c"
  using assms by (simp add: named_peer_def)

text \<open>
  C2: sending to a peer, pinging it, querying it, handling its queries and disconnecting it are
  refused unless the request names a peer that the client itself owns: the answer is an
  invalid-params error, no peer is contacted and the bridge does not change.
\<close>
theorem foreign_peer_refused:
  assumes inv: "bridge_inv b" and m: "m \<in> set peer_methods"
    and foreign: "\<forall>k. named_peer m req = Some k \<longrightarrow> owner_of b k \<noteq> Some c"
  shows "\<exists>t. run_adnl e m c req b = (b, [Reply c (req_id req) (Error (-32602) t)])"
proof -
  have no: False if "unmarshal (peer_fields m) (req_params req) zero_params = Inr prm"
    "decodeBase64 (p_peer_id prm) = Inr d" "clientOwnsPeer b c (hex_encode d)" for prm d
    using names_owned [OF inv _ that(1,2)] that(3) foreign inv_owns [OF inv] by blast
  from m consider "m = Adnl_SendMessage" | "m = Adnl_Ping" | "m = Adnl_Disconnect" | "m = Adnl_Query"
    | "m = Adnl_SetQueryHandler" by (auto simp: peer_methods_def)
  then show ?thesis
  proof cases
    case 1
    with no show ?thesis unfolding run_adnl_def handleADNLSendMessage_def 1 adnl_method.case
      by (intro bad_only_handler bad_only_derived bad_only_intros notI) (auto simp: all_passes peer_fields_def)
  next
    case 2
    with no show ?thesis unfolding run_adnl_def handleADNLPing_def 2 adnl_method.case
      by (intro bad_only_handler bad_only_derived bad_only_intros notI) (auto simp: all_passes peer_fields_def)
  next
    case 3
    with no show ?thesis unfolding run_adnl_def handleADNLDisconnect_def disconnect_checks_def Let_def 3 adnl_method.case
      by (intro bad_only_handler bad_only_derived bad_only_intros notI) (auto simp: all_passes peer_fields_def)
  next
    case 4
    with no show ?thesis unfolding run_adnl_def handleADNLQuery_def query_checks_def Let_def 4 adnl_method.case
      by (intro bad_only_handler bad_only_derived bad_only_intros notI) (auto simp: all_passes peer_fields_def)
  next
    case 5
    with no show ?thesis unfolding run_adnl_def handleADNLSetQueryHandler_def 5 adnl_method.case
      by (intro bad_only_handler bad_only_derived bad_only_intros notI) (auto simp: all_passes peer_fields_def)
  qed
qed

definition demo_peer_request :: WSRequest where
  "demo_peer_request = \<lparr>req_jsonrpc = ''2.0'', req_id = ''7'', req_method = ''adnl.ping'',
     req_params = Some (JObj [(''peer_id'', JStr (b64_encode [7]))])\<rparr>"

lemma lookup_peer_id: "find_field [f_peer_id] ''peer_id'' = Some (snd f_peer_id)"
  by (simp add: f_peer_id_def key_matches_def)

lemma demo_names: "named_peer Adnl_Ping demo_peer_request = Some (hex_encode [7])"
  by (simp add: named_peer_def peer_fields_def demo_peer_request_def unmarshal_def lookup_peer_id
      f_peer_id_def string_field_def decodeBase64_encode del: b64_encode.simps hex_encode.simps)

theorem foreign_peer_refused_witness:
  "\<forall>e. \<exists>t. run_adnl e Adnl_Ping 1 demo_peer_request demo_owned =
     (demo_owned, [Reply 1 ''7'' (Error (-32602) t)])"
proof
  fix e
  show "\<exists>t. run_adnl e Adnl_Ping 1 demo_peer_request demo_owned =
     (demo_owned, [Reply 1 ''7'' (Error (-32602) t)])"
    using foreign_peer_refused [OF demo_owned_inv, of Adnl_Ping demo_peer_request 1 e]
      demo_owned_facts(2) demo_names
    by (simp add: peer_methods_def demo_peer_request_def del: hex_encode.simps)
qed

section \<open>Overlays of other clients\<close>

definition overlay_fields_of :: "overlay_method \<Rightarrow> (string \<times> rpc_params setter) list" where
  "overlay_fields_of m =
     (case m of
        Overlay_SendMessage \<Rightarrow> [f_overlay_id, f_data]
      | Overlay_SendRaw \<Rightarrow> [f_overlay_id, f_data]
      | Overlay_Broadcast \<Rightarrow> [f_overlay_id, f_data]
      | Overlay_Query \<Rightarrow> [f_overlay_id, f_data, f_timeout, f_raw]
      | Overlay_SetQueryHandler \<Rightarrow> [f_overlay_id, f_peer_id]
      | _ \<Rightarrow> [f_overlay_id])"

definition named_overlay :: "overlay_method \<Rightarrow> WSRequest \<Rightarrow> string option" where
  "named_overlay m req =
     (case unmarshal (overlay_fields_of m) (req_params req) zero_params of
        Inl _ \<Rightarrow> None
      | Inr prm \<Rightarrow> (case decodeBase64 (p_overlay_id prm) of Inl _ \<Rightarrow> None | Inr d \<Rightarrow> Some (hex_encode d)))"

definition overlay_methods :: "overlay_method list" where
  "overlay_methods = [Overlay_Leave, Overlay_GetPeers, Overlay_SendMessage, Overlay_SendRaw,
     Overlay_Broadcast, Overlay_Query, Overlay_SetQueryHandler]"

text \<open>
  C3: the same for overlays: leaving, listing peers, sending, broadcasting, querying and installing
  a query handler are refused, without effect on the bridge or the network, unless the request
  names an overlay that the client itself has joined.
\<close>
theorem foreign_overlay_refused:
  assumes m: "m \<in> set overlay_methods"
    and foreign: "\<forall>ov. named_overlay m req = Some ov \<longrightarrow> \<not> clientOwnsOverlay b c ov"
  shows "\<exists>t. run_overlay e m c req b = (b, [Reply c (req_id req) (Error (-32602) t)])"
proof -
  have no: False if "unmarshal (overlay_fields_of m) (req_params req) zero_params = Inr prm"
    "decodeBase64 (p_overlay_id prm) = Inr d" "clientOwnsOverlay b c (hex_encode d)" for prm d
    using foreign that by (simp add: named_overlay_def)
  from m consider "m = Overlay_Leave" | "m = Overlay_GetPeers" | "m = Overlay_SendMessage"
    | "m = Overlay_SendRaw" | "m = Overlay_Broadcast" | "m = Overlay_Query" | "m = Overlay_SetQueryHandler"
    by (auto simp: overlay_methods_def)
  then show ?thesis
  proof cases
    case 1
    with no show ?thesis unfolding run_overlay_def handleOverlayLeave_def Let_def 1 overlay_method.case
      by (intro bad_only_handler bad_only_derived bad_only_intros notI) (auto simp: all_passes overlay_fields_of_def)
  next
    case 2
    with no show ?thesis unfolding run_overlay_def handleOverlayGetPeers_def 2 overlay_method.case
      by (intro bad_only_handler bad_only_derived bad_only_intros notI) (auto simp: all_passes overlay_fields_of_def)
  next
    case 3
    with no show ?thesis unfolding run_overlay_def handleOverlaySendMessage_def 3 overlay_method.case
      by (intro bad_only_handler bad_only_derived bad_only_intros notI) (auto simp: all_passes overlay_fields_of_def)
  next
    case 4
    with no show ?thesis unfolding run_overlay_def handleOverlaySendRaw_def 4 overlay_method.case
      by (intro bad_only_handler bad_only_derived bad_only_intros notI) (auto simp: all_passes overlay_fields_of_def)
  next
    case 5
    with no show ?thesis unfolding run_overlay_def handleOverlayBroadcast_def broadcast_checks_def 5 overlay_method.case
      by (intro bad_only_handler bad_only_derived bad_only_intros notI) (auto simp: all_passes overlay_fields_of_def)
  next
    case 6
    with no show ?thesis unfolding run_overlay_def handleOverlayQuery_def overlay_query_checks_def 6 overlay_method.case
      by (intro bad_only_handler bad_only_derived bad_only_intros notI) (auto simp: all_passes overlay_fields_of_def)
  next
    case 7
    have "\<exists>t. handler c req b (set_handler_checks b c req) (\<lambda>_. (b, [])) =
        (b, [Reply c (req_id req) (Error (-32602) t)])"
      using no 7 unfolding set_handler_checks_def Let_def
      by (intro bad_only_handler bad_only_derived bad_only_intros notI) (auto simp: all_passes overlay_fields_of_def)
    with 7 show ?thesis
      by (auto simp: run_overlay_def handleOverlaySetQueryHandler_def handler_def reply_to_def split: sum.splits)
  qed
qed

theorem foreign_overlay_refused_witness:
  "\<forall>e. \<exists>t. run_overlay e Overlay_Leave 1 demo_peer_request demo_owned =
     (demo_owned, [Reply 1 ''7'' (Error (-32602) t)])"
proof
  fix e
  have "overlays (heap demo_owned 1) = []"
    by (simp add: demo_owned_def demo_install addClientPeer_def demo_incoming_def connectionHandler_state
        installPeer_def Let_def demo_peer_def demo_connected_def acceptClient_def authorized_def
        CheckOrigin_def NewWSBridge_def DefaultBridgeConfig_def demo_net_def new_client_def)
  then have "\<not> clientOwnsOverlay demo_owned 1 ov" for ov by (simp add: clientOwnsOverlay_def)
  then show "\<exists>t. run_overlay e Overlay_Leave 1 demo_peer_request demo_owned =
     (demo_owned, [Reply 1 ''7'' (Error (-32602) t)])"
    using foreign_overlay_refused [of Overlay_Leave demo_peer_request demo_owned 1 e]
    by (simp add: overlay_methods_def demo_peer_request_def)
qed

section \<open>Where connections go\<close>

definition dials :: "effect list \<Rightarrow> string set" where
  "dials es = {a. DialTo a \<in> set es}"

lemma dials_simps [simp]:
  "dials [] = {}" "dials (xs @ ys) = dials xs \<union> dials ys"
  "dials (DialTo a # es) = insert a (dials es)"
  "dials (PingPeer p # es) = dials es" "dials (ClosePeer p # es) = dials es"
  "dials (reply_to c req r) = {}" "dials (InstallHandlers m p # es) = dials es"
  by (auto simp: dials_def reply_to_def)

lemma dials_broadcast [simp]: "dials (broadcastToClients b n j) = {}"
  by (auto simp: dials_def broadcast_iff)

lemma dials_install: "installPeer net p ow b = ((b', es), r) \<Longrightarrow> dials es = {}"
  by (auto simp: installPeer_def Let_def split: option.splits if_splits)

lemma dials_connectionHandler: "connectionHandler net p b = ((b', es), r) \<Longrightarrow> dials es = {}"
  by (auto simp: connectionHandler_def dest!: dials_install split: prod.splits option.splits)

lemma dials_acceptAll: "acceptAll net ps (b, es) = (b', es') \<Longrightarrow> dials es' = dials es"
proof (induction ps arbitrary: b es)
  case (Cons p ps)
  obtain b1 es1 r where h: "connectionHandler net p b = ((b1, es1), r)" by (metis surj_pair)
  with Cons dials_connectionHandler [OF h] show ?case by simp
qed simp

lemma dials_detach: "detachPeerLocked k p b = ((b', es), r) \<Longrightarrow> dials es = {}"
  by (auto simp: dials_def detachPeerLocked_def Let_def closeOverlay_def split: option.splits if_splits)

lemma dials_dropPeer: "dropPeer p (b, es) = (b', es') \<Longrightarrow> dials es' = dials es"
  by (auto simp: dropPeer_def dest!: dials_detach split: prod.splits)

lemma dials_dial:
  assumes "dial net i addr key b = ((b', es), r)"
  shows "dials es = {addr}"
proof -
  obtain cb res where c: "RegisterClient net i addr key = (cb, res)" by (metis surj_pair)
  show ?thesis
  proof (cases cb)
    case None
    with assms c have "acceptAll net (incoming net i) (b, [DialTo addr]) = (b', es)" by (simp add: dial_def)
    from dials_acceptAll [OF this] show ?thesis by simp
  next
    case (Some p)
    obtain b1 es1 err where h: "connectionHandler net p b = ((b1, es1), err)" by (metis surj_pair)
    with assms c Some have "acceptAll net (incoming net i) (b1, DialTo addr # es1) = (b', es)"
      by (simp add: dial_def)
    from dials_acceptAll [OF this] dials_connectionHandler [OF h] show ?thesis by simp
  qed
qed

lemma dials_claim: "claimPeer net c req p (b, es) = (b', es') \<Longrightarrow> dials es' = dials es"
  by (auto simp: claimPeer_def dest!: dials_install dials_dropPeer split: prod.splits option.splits)

lemma dials_reuse:
  assumes "reusePeer net c req k p b = (b', es)"
  shows "dials es = {}"
proof (cases "reuse_checks b c k")
  case (Inl r)
  with assms show ?thesis by (auto simp: reusePeer_def dials_def)
next
  case (Inr u)
  obtain b1 es1 where a: "acceptAll net (incoming net 0) (b, [PingPeer p]) = (b1, es1)" by (metis surj_pair)
  have d1: "dials es1 = {}" using dials_acceptAll [OF a] by simp
  obtain b2 es2 r where i: "installPeer net p (Some c) b1 = ((b2, es2), r)" by (metis surj_pair)
  have d2: "dials es2 = {}" by (rule dials_install [OF i])
  show ?thesis
    using assms Inr d1 d2
    by (cases "Ping net 0 p"; cases "owner_of b k"; cases r) (auto simp: reusePeer_def a i)
qed

lemma dials_connectNew:
  assumes "connectNew net c req addr key b = (b', es)"
  shows "dials es \<subseteq> {addr}"
proof (cases "room_for_peer b c")
  case (Inl r)
  with assms show ?thesis by (auto simp: connectNew_def dials_def)
next
  case (Inr u)
  obtain b1 es1 r where d: "dial net 0 addr key b = ((b1, es1), r)" by (metis surj_pair)
  note d1 = dials_dial [OF d]
  show ?thesis
  proof (cases r)
    case (Inl e)
    with assms \<open>room_for_peer b c = Inr u\<close> d
    have "es = es1 @ reply_to c req (failed (Wrap ''adnl connect failed: '' e))"
      by (simp add: connectNew_def)
    with d1 show ?thesis by simp
  next
    case (Inr p)
    obtain b2 es2 where x: "dropPeer p (b1, es1 @ [PingPeer p]) = (b2, es2)" by (metis surj_pair)
    show ?thesis
    proof (cases "Ping net 0 p")
      case (Inl e)
      with assms \<open>room_for_peer b c = Inr u\<close> d \<open>r = Inr p\<close> x
      have "es = es2 @ reply_to c req (failed (Wrap ''ADNL peer did not answer liveness ping: '' e))"
        by (simp add: connectNew_def)
      with d1 dials_dropPeer [OF x] show ?thesis by simp
    next
      case (Inr ms)
      with assms \<open>room_for_peer b c = Inr u\<close> d \<open>r = Inr p\<close>
      have "claimPeer net c req p (b1, es1 @ [PingPeer p]) = (b', es)" by (simp add: connectNew_def)
      from dials_claim [OF this] d1 show ?thesis by simp
    qed
  qed
qed

lemma dials_tryEndpoints:
  "tryEndpoints net key i addrs (b, es) = ((b', es'), r) \<Longrightarrow> dials es' \<subseteq> dials es \<union> set addrs"
proof (induction addrs arbitrary: i b es)
  case (Cons addr addrs)
  obtain b1 es1 res where d: "dial net i addr key b = ((b1, es1), res)" by (metis surj_pair)
  note d1 = dials_dial [OF d]
  show ?case
  proof (cases res)
    case (Inl e)
    with Cons.prems d have "tryEndpoints net key (Suc i) addrs (b1, es @ es1) = ((b', es'), r)" by simp
    from Cons.IH [OF this] d1 show ?thesis by auto
  next
    case (Inr p)
    obtain b2 es2 where x: "dropPeer p (b1, es @ es1 @ [PingPeer p]) = (b2, es2)" by (metis surj_pair)
    show ?thesis
    proof (cases "Ping net i p")
      case (Inl e)
      with Cons.prems d x \<open>res = Inr p\<close>
      have "tryEndpoints net key (Suc i) addrs (b2, es2) = ((b', es'), r)" by simp
      from Cons.IH [OF this] d1 dials_dropPeer [OF x] show ?thesis by auto
    next
      case (Inr ms)
      with Cons.prems d \<open>res = Inr p\<close> have "es' = es @ es1 @ [PingPeer p]" by simp
      with d1 show ?thesis by auto
    qed
  qed
qed simp

lemma dials_connectByADNLNew:
  assumes "connectByADNLNew net c req adnlID b = (b', es)" and "a \<in> dials es"
  shows "\<exists>cs key. FindAddresses net adnlID = Inr (cs, key) \<and> a \<in> set (publicADNLEndpoints cs 8)"
proof (cases "room_for_peer b c")
  case (Inl r)
  with assms show ?thesis by (auto simp: connectByADNLNew_def dials_def)
next
  case (Inr u)
  show ?thesis
  proof (cases "FindAddresses net adnlID")
    case (Inl e)
    with assms Inr show ?thesis by (auto simp: connectByADNLNew_def)
  next
    case f: (Inr found)
    obtain cs key where found: "found = (cs, key)" by (cases found)
    obtain b1 es1 r where t: "tryEndpoints net key 0 (publicADNLEndpoints cs 8) (b, []) = ((b1, es1), r)"
      by (metis surj_pair)
    have "dials es \<subseteq> dials es1"
    proof (cases "cs = []")
      case True
      with assms(1) Inr f found show ?thesis by (auto simp: connectByADNLNew_def)
    next
      case False
      show ?thesis
      proof (cases r)
        case None
        with assms(1) Inr f found t False show ?thesis by (auto simp: connectByADNLNew_def)
      next
        case (Some p)
        with assms(1) Inr f found t False have "claimPeer net c req p (b1, es1) = (b', es)"
          by (simp add: connectByADNLNew_def)
        from dials_claim [OF this] show ?thesis by simp
      qed
    qed
    with dials_tryEndpoints [OF t] assms(2) f found show ?thesis by auto
  qed
qed

text \<open>
  C9: with SSRF protection on, \<open>adnl.connect\<close> dials only an address whose host is an IP literal
  outside every private range; \<open>adnl.connectByADNL\<close> dials, with or without the switch, only public
  unicast endpoints with a valid port taken from the DHT record of the requested identity.
\<close>
theorem connections_leave_to_public_hosts:
  "(handleADNLConnect net tlib c req b = (b', es) \<and> SSRFProtection (ADNL (Namespaces (cfg b)))
      \<and> DialTo a \<in> set es \<longrightarrow>
      (\<exists>host port ip. split_host_port a = Inr (host, port) \<and> parse_ip host = Some ip \<and> \<not> isPrivateIP ip))
   \<and> (handleADNLConnectByADNL net c req b = (b', es) \<and> DialTo a \<in> set es \<longrightarrow>
      (\<exists>ident cs key x. FindAddresses net ident = Inr (cs, key) \<and> length ident = 32 \<and> x \<in> set cs
         \<and> a = endpoint_of x \<and> isPublicUnicastIP (IPValue x) \<and> 1 \<le> PortValue x \<and> PortValue x \<le> 65535))"
proof (intro conjI impI)
  assume h: "handleADNLConnect net tlib c req b = (b', es) \<and> SSRFProtection (ADNL (Namespaces (cfg b)))
      \<and> DialTo a \<in> set es"
  then have a: "a \<in> dials es" by (simp add: dials_def)
  obtain addr key k where chk: "connect_checks (cfg b) tlib req = Inr (addr, key, k)"
  proof (cases "connect_checks (cfg b) tlib req")
    case (Inl r)
    with h show ?thesis by (auto simp: handleADNLConnect_def)
  next
    case (Inr x)
    then show ?thesis using that by (cases x) auto
  qed
  have "a = addr"
  proof (cases "gm_get (activePeers b) k")
    case None
    with h chk have "connectNew net c req addr key b = (b', es)" by (simp add: handleADNLConnect_def)
    from dials_connectNew [OF this] a show ?thesis by auto
  next
    case (Some p)
    with h chk have "reusePeer net c req k p b = (b', es)" by (simp add: handleADNLConnect_def)
    from dials_reuse [OF this] a show ?thesis by simp
  qed
  with chk h show "\<exists>host port ip. split_host_port a = Inr (host, port) \<and> parse_ip host = Some ip \<and> \<not> isPrivateIP ip"
    by (auto simp: connect_checks_def all_passes split: prod.splits)
next
  assume h: "handleADNLConnectByADNL net c req b = (b', es) \<and> DialTo a \<in> set es"
  then have a: "a \<in> dials es" by (simp add: dials_def)
  obtain ident where chk: "connect_by_adnl_checks req = Inr ident"
    using h by (cases "connect_by_adnl_checks req") (auto simp: handleADNLConnectByADNL_def)
  have len: "length ident = 32" using chk by (auto simp: connect_by_adnl_checks_def all_passes)
  have "\<exists>cs key. FindAddresses net ident = Inr (cs, key) \<and> a \<in> set (publicADNLEndpoints cs 8)"
  proof (cases "gm_get (activePeers b) (hex_encode ident)")
    case None
    with h chk have "connectByADNLNew net c req ident b = (b', es)" by (simp add: handleADNLConnectByADNL_def)
    from dials_connectByADNLNew [OF this a] show ?thesis .
  next
    case (Some p)
    with h chk have "reusePeer net c req (hex_encode ident) p b = (b', es)"
      by (simp add: handleADNLConnectByADNL_def)
    from dials_reuse [OF this] a show ?thesis by simp
  qed
  with len show "\<exists>ident cs key x. FindAddresses net ident = Inr (cs, key) \<and> length ident = 32 \<and> x \<in> set cs
         \<and> a = endpoint_of x \<and> isPublicUnicastIP (IPValue x) \<and> 1 \<le> PortValue x \<and> PortValue x \<le> 65535"
    using publicADNLEndpoints_sound by (fastforce simp: endpoint_ok_def)
qed

text \<open>A request of client 0 for a public host, refused by the network.\<close>

definition demo_address :: string where
  "demo_address = ''8.8.8.8:30310''"

definition demo_connect_request :: WSRequest where
  "demo_connect_request = \<lparr>req_jsonrpc = ''2.0'', req_id = ''3'', req_method = ''adnl.connect'',
     req_params = Some (JObj [(''address'', JStr demo_address), (''key'', JStr (b64_encode (replicate 32 7)))])\<rparr>"

lemma demo_public: "\<not> isPrivateIP (v4_mapped [8, 8, 8, 8])"
proof -
  have "canonical_ip [8, 8, 8, 8]" by (simp add: canonical_ip_def)
  then have "isPrivateIP [8, 8, 8, 8] \<longleftrightarrow> (\<exists>p \<in> set privateCIDRs. in_block [8, 8, 8, 8] p)"
    by (rule isPrivateIP_blocks)
  then have "\<not> isPrivateIP [8, 8, 8, 8]"
    by (simp add: privateCIDRs_def in_block_def v6_def replicate_num)
  then show ?thesis using isPrivateIP_to4 [OF to4_mapped, of "[8, 8, 8, 8]"] by simp
qed

lemma demo_host: "split_host_port demo_address = Inr (''8.8.8.8'', ''30310'')"
  "parse_ip ''8.8.8.8'' = Some (v4_mapped [8, 8, 8, 8])"
  by (simp_all add: demo_address_def split_host_port_def parse_ip_def parse_ipv4_def parse_octet_def
      before_char_def after_char_def before_last_def after_last_def is_digit_def char_code_def Let_def)

lemma demo_connect_checks:
  "connect_checks DefaultBridgeConfig demo_tl demo_connect_request =
     Inr (demo_address, replicate 32 7, hex_encode [7])"
proof -
  have "unmarshal [f_address, f_key] (req_params demo_connect_request) zero_params =
      Inr (zero_params\<lparr>p_address := demo_address, p_key := b64_encode (replicate 32 7)\<rparr>)"
    by (simp add: unmarshal_def demo_connect_request_def f_address_def f_key_def key_matches_def
        string_field_def fold_char_def char_code_def)
  moreover have "take (Suc 0) (replicate 32 (7 :: byte)) = [7]" by (simp add: replicate_num)
  ultimately show ?thesis
    using demo_public
    by (simp add: connect_checks_def with_params_def with_base64_def decodeBase64_encode demo_host
        demo_tl_def zero_params_def del: b64_encode.simps hex_encode.simps)
qed

lemma demo_connect:
  "handleADNLConnect demo_net demo_tl 0 demo_connect_request demo_connected =
     (demo_connected, [DialTo demo_address, Reply 0 ''3'' (failed (Wrap ''adnl connect failed: '' (ErrLib 0)))])"
proof -
  have "cfg demo_connected = DefaultBridgeConfig" "gm_get (activePeers demo_connected) (hex_encode [7]) = None"
    "peers (heap demo_connected 0) = []"
    by (simp_all add: demo_connected_def acceptClient_def authorized_def CheckOrigin_def NewWSBridge_def
        DefaultBridgeConfig_def new_client_def)
  then show ?thesis
    using demo_connect_checks
    by (simp add: handleADNLConnect_def connectNew_def room_for_peer_def max_peers_def dial_def
        DefaultBridgeConfig_def DefaultNamespaces_def demo_net_def reply_to_def demo_connect_request_def
        del: hex_encode.simps)
qed

theorem connections_leave_to_public_hosts_witness:
  "\<exists>host port ip. split_host_port demo_address = Inr (host, port) \<and> parse_ip host = Some ip \<and> \<not> isPrivateIP ip"
proof -
  have "SSRFProtection (ADNL (Namespaces (cfg demo_connected)))"
    by (simp add: demo_connected_def acceptClient_def authorized_def CheckOrigin_def NewWSBridge_def
        DefaultBridgeConfig_def DefaultNamespaces_def)
  with demo_connect show ?thesis
    using connections_leave_to_public_hosts [of demo_net demo_tl 0 demo_connect_request demo_connected
        demo_connected "[DialTo demo_address, Reply 0 ''3'' (failed (Wrap ''adnl connect failed: '' (ErrLib 0)))]"
        demo_address]
    by simp
qed

end
