(* ===== verification/QueryProps.thy ===== *)
theory QueryProps
  imports Isolation
begin

text \<open>
  The life of an inbound query: it is pushed to one client, waits for at most its time to live, is
  answered only by that client, and is gone once answered, expired or orphaned. Also the trip of
  a raw message from one bridge to another, and the broadcast slots.
\<close>

section \<open>From arrival to expiry\<close>

text \<open>
  C33: a query that reaches a client's handler is announced to that client alone and is recorded
  under its hexadecimal ID with the peer it came from and a deadline thirty seconds away; sweeps
  keep it exactly until that deadline, and until then only that client can look it up.
\<close>
theorem query_lifecycle:
  assumes run: "run_query_handler tlib now h qid msg b = (b', es)" and "es \<noteq> []"
  shows "(\<exists>j. es = [Event (qh_client h) ''adnl.queryReceived'' j])
    \<and> gm_get (pendingQueries b') (hex_encode qid) =
        Some \<lparr>pq_peer = qh_peer h, pq_owner = Some (qh_client h), pq_deadline = now + 30 * second\<rparr>
    \<and> (\<forall>q. q \<noteq> hex_encode qid \<longrightarrow> gm_get (pendingQueries b') q = gm_get (pendingQueries b) q)
    \<and> (\<forall>t. gm_get (pendingQueries (sweepPendingQueries t b')) (hex_encode qid) \<noteq> None
         \<longleftrightarrow> t \<le> now + 30 * second)
    \<and> (\<forall>t c. \<not> isl (snd (answer_lookup t c (hex_encode qid) b'))
         \<longleftrightarrow> t \<le> now + 30 * second \<and> c = qh_client h)"
proof -
  obtain d where "message_bytes tlib msg = Inr d"
    using assms by (auto simp: run_query_handler_def Let_def split: sum.splits)
  with assms have b': "b' = b\<lparr>pendingQueries := gm_put (hex_encode qid)
       \<lparr>pq_peer = qh_peer h, pq_owner = Some (qh_client h), pq_deadline = now + maxPendingQueryTTL\<rparr>
       (pendingQueries b)\<rparr>"
    and es: "\<exists>j. es = [Event (qh_client h) ''adnl.queryReceived'' j]"
    by (auto simp: run_query_handler_def Let_def sendEvent_def split: if_splits)
  show ?thesis
    using es unfolding b'
    by (auto simp: maxPendingQueryTTL_def sweepPendingQueries_def gm_get_filter answer_lookup_def)
qed

definition demo_handler :: query_handler where
  "demo_handler = \<lparr>qh_peerHex = hex_encode [7], qh_peer = demo_peer, qh_client = 0\<rparr>"

definition demo_asked :: WSBridge where
  "demo_asked = fst (run_query_handler demo_tl 0 demo_handler (replicate 32 1) (RawMessage [65]) demo_owned)"

lemma demo_query:
  "\<exists>j. run_query_handler demo_tl 0 demo_handler (replicate 32 1) (RawMessage [65]) demo_owned =
     (demo_asked, [Event 0 ''adnl.queryReceived'' j])"
  using demo_owned_facts(1)
  by (simp add: demo_asked_def run_query_handler_def demo_handler_def message_bytes_def sendEvent_def Let_def
      del: hex_encode.simps)

theorem query_lifecycle_witness:
  "gm_get (pendingQueries demo_asked) (hex_encode (replicate 32 1)) =
     Some \<lparr>pq_peer = demo_peer, pq_owner = Some 0, pq_deadline = 30 * second\<rparr>"
proof -
  obtain j where r: "run_query_handler demo_tl 0 demo_handler (replicate 32 1) (RawMessage [65]) demo_owned =
     (demo_asked, [Event 0 ''adnl.queryReceived'' j])" using demo_query by blast
  from query_lifecycle [OF r] show ?thesis by (simp add: demo_handler_def del: hex_encode.simps)
qed

section \<open>Answers\<close>

lemma answer_lookup_ok:
  "answer_lookup now c q b = (b', Inr pq) \<Longrightarrow>
     b' = b \<and> gm_get (pendingQueries b) q = Some pq \<and> now \<le> pq_deadline pq
     \<and> (pq_owner pq = None \<or> pq_owner pq = Some c)"
  by (auto simp: answer_lookup_def split: option.splits if_splits)

text \<open>What a run of the answer handler did when it sent an answer.\<close>

lemma answer_sent_cases:
  assumes "answerQuery net tlib now other c req b = (b', es)" and "AnswerTo p qid ans \<in> set es"
  obtains q pq where "answer_checks tlib req = Inr (q, qid, ans)"
    and "answer_lookup now c q b = (b, Inr pq)" and "pq_peer pq = p"
    and "gm_get (activePeers (other 0 b)) (hex_encode (GetID p)) = Some p"
    and "b' = (case Answer net p qid ans of
        Some e \<Rightarrow> other 1 (other 0 b) | None \<Rightarrow> answer_finish q pq (other 1 (other 0 b)))"
proof -
  obtain q qid' ans' where chk: "answer_checks tlib req = Inr (q, qid', ans')"
  proof (cases "answer_checks tlib req")
    case (Inl r)
    with assms show ?thesis by (auto simp: answerQuery_def)
  next
    case (Inr x)
    then show ?thesis using that by (cases x) auto
  qed
  obtain b1 r where l: "answer_lookup now c q b = (b1, r)" by (metis surj_pair)
  show thesis
  proof (cases r)
    case (Inl e)
    with assms chk l show ?thesis by (auto simp: answerQuery_def reply_to_def)
  next
    case (Inr pq)
    with l have b1: "b1 = b" using answer_lookup_ok by blast
    let ?p = "pq_peer pq"
    have act: "gm_get (activePeers (other 0 b)) (hex_encode (GetID ?p)) = Some ?p"
      using assms chk l Inr b1 by (auto simp: answerQuery_def reply_to_def Let_def split: if_splits)
    have "?p = p \<and> qid' = qid \<and> ans' = ans \<and> b' = (case Answer net p qid ans of
        Some e \<Rightarrow> other 1 (other 0 b) | None \<Rightarrow> answer_finish q pq (other 1 (other 0 b)))"
      using assms chk l Inr b1 act
      by (cases "Answer net ?p qid' ans'") (auto simp: answerQuery_def reply_to_def Let_def)
    with that chk l Inr b1 act show ?thesis by auto
  qed
qed

text \<open>
  C12: an answer goes out only for a query that is pending, not expired and either unowned or pushed
  to the answering client, and it goes to the peer the query came from, with the ID of the
  query, while this peer is connected.
\<close>
theorem answers_only_by_owner:
  assumes "answerQuery net tlib now other c req b = (b', es)" and "AnswerTo p qid ans \<in> set es"
  shows "\<exists>q pq. hex_decode q = Inr qid \<and> length qid = 32
    \<and> gm_get (pendingQueries b) q = Some pq \<and> pq_peer pq = p \<and> now \<le> pq_deadline pq
    \<and> (pq_owner pq = None \<or> pq_owner pq = Some c)
    \<and> gm_get (activePeers (other 0 b)) (hex_encode (GetID p)) = Some p"
  using assms
proof (cases rule: answer_sent_cases)
  case (1 q pq)
  have "hex_decode q = Inr qid" "length qid = 32"
    using 1(1) by (auto simp: answer_checks_def all_passes)
  with 1 answer_lookup_ok [OF 1(2)] show ?thesis by blast
qed

text \<open>
  When nothing interleaves, a successful answer removes its query and nothing else, so the same
  request is then refused: a query is answered at most once.
\<close>
theorem answered_once:
  assumes "answerQuery net tlib now (\<lambda>_ b. b) c req b = (b', es)" and "AnswerTo p qid ans \<in> set es"
    and "Answer net p qid ans = None"
  shows "(\<exists>q. gm_get (pendingQueries b) q \<noteq> None \<and> b' = b\<lparr>pendingQueries := gm_del q (pendingQueries b)\<rparr>)
    \<and> (\<forall>now2 other. answerQuery net tlib now2 other c req b' =
         (b', [Reply c (req_id req) (bad (Lit ''query not found or expired''))]))"
  using assms(1,2)
proof (cases rule: answer_sent_cases)
  case (1 q pq)
  note l = answer_lookup_ok [OF 1(2)]
  then have b': "b' = b\<lparr>pendingQueries := gm_del q (pendingQueries b)\<rparr>"
    using 1 assms(3) by (simp add: answer_finish_def)
  then have "answer_lookup now2 c q b' = (b', Inl (bad (Lit ''query not found or expired'')))" for now2
    by (simp add: answer_lookup_def)
  with 1(1) have "answerQuery net tlib now2 other c req b' =
      (b', [Reply c (req_id req) (bad (Lit ''query not found or expired''))])" for now2 other
    by (simp add: answerQuery_def reply_to_def)
  with l b' show ?thesis by auto
qed

text \<open>
  With interleaving the guarantee weakens: the entry stays until \<open>Answer\<close> has returned, so a second
  answer of the owner that runs in between is sent as well.
\<close>

lemma answers_can_overlap:
  assumes "answerQuery net tlib now (\<lambda>_ b. b) c req b = (b1, es1)" and "AnswerTo p qid ans \<in> set es1"
  shows "AnswerTo p qid ans \<in> set (snd (answerQuery net tlib now
    (\<lambda>i x. if i = 1 then fst (answerQuery net tlib now (\<lambda>_ b. b) c req x) else x) c req b))"
  using assms
proof (cases rule: answer_sent_cases)
  case (1 q pq)
  then show ?thesis
    by (cases "Answer net p qid ans") (auto simp: answerQuery_def Let_def)
qed

definition demo_answer :: WSRequest where
  "demo_answer = \<lparr>req_jsonrpc = ''2.0'', req_id = ''9'', req_method = ''adnl.answer'',
     req_params = Some (JObj [(''query_id'', JStr (hex_encode (replicate 32 1))),
       (''data'', JStr (b64_encode [66])), (''raw'', JBool True)])\<rparr>"

lemma demo_answer_checks:
  "answer_checks demo_tl demo_answer =
     Inr (hex_encode (replicate 32 1), replicate 32 1, RawMessage [66])"
proof -
  have "unmarshal [f_query_id, f_data, f_raw] (req_params demo_answer) zero_params =
      Inr (zero_params\<lparr>p_query_id := hex_encode (replicate 32 1), p_data := b64_encode [66], p_raw := True\<rparr>)"
    by (simp add: unmarshal_def demo_answer_def f_query_id_def f_data_def f_raw_def key_matches_def
        string_field_def bool_field_def fold_char_def char_code_def del: hex_encode.simps b64_encode.simps)
  then show ?thesis
    by (simp add: answer_checks_def with_params_def with_base64_def with_payload_size_def zero_params_def
        decodeBase64_encode hex_decode_encode parseRPCPayload_def maxOverlayQuerySize_def
        del: hex_encode.simps b64_encode.simps)
qed

lemma demo_answered:
  "answerQuery demo_net demo_tl 0 (\<lambda>_ b. b) 0 demo_answer demo_asked =
     (demo_asked\<lparr>pendingQueries := gm_del (hex_encode (replicate 32 1)) (pendingQueries demo_asked)\<rparr>,
      [AnswerTo demo_peer (replicate 32 1) (RawMessage [66]),
       Reply 0 ''9'' (Result (JObj [(''answered'', JBool True)]))])"
proof -
  have p: "gm_get (pendingQueries demo_asked) (hex_encode (replicate 32 1)) =
     Some \<lparr>pq_peer = demo_peer, pq_owner = Some 0, pq_deadline = 30 * second\<rparr>"
    and a: "gm_get (activePeers demo_asked) (hex_encode (GetID demo_peer)) = Some demo_peer"
    using demo_owned_facts(1)
    by (simp_all add: demo_asked_def run_query_handler_def demo_handler_def message_bytes_def Let_def
        maxPendingQueryTTL_def demo_peer_def del: hex_encode.simps replicate_num)
  have l: "answer_lookup 0 0 (hex_encode (replicate 32 1)) demo_asked =
      (demo_asked, Inr \<lparr>pq_peer = demo_peer, pq_owner = Some 0, pq_deadline = 30 * second\<rparr>)"
    using p by (simp add: answer_lookup_def second_def del: hex_encode.simps)
  show ?thesis
    using p a l demo_answer_checks
    by (simp add: answerQuery_def answer_finish_def Let_def reply_to_def demo_net_def demo_answer_def
        del: hex_encode.simps)
qed

theorem answers_only_by_owner_witness:
  "\<exists>q pq. hex_decode q = Inr (replicate 32 1) \<and> gm_get (pendingQueries demo_asked) q = Some pq
     \<and> pq_peer pq = demo_peer"
  using answers_only_by_owner [OF demo_answered, of demo_peer "replicate 32 1" "RawMessage [66]"]
  by (simp del: replicate_num) blast

theorem answered_once_witness:
  "\<exists>b'. answerQuery demo_net demo_tl 5 (\<lambda>_ b. b) 0 demo_answer b' =
     (b', [Reply 0 ''9'' (bad (Lit ''query not found or expired''))])"
  using answered_once [OF demo_answered, of demo_peer "replicate 32 1" "RawMessage [66]"]
  by (auto simp: demo_net_def demo_answer_def simp del: hex_encode.simps)

section \<open>Messages and broadcasts\<close>

text \<open>
  C34: a message sent with \<open>adnl.sendMessage\<close> and received by another bridge arrives intact: the
  event pushed to the owner there carries base64 text that decodes to the very bytes that the
  sender's request decoded to.
\<close>
theorem raw_message_arrives_intact:
  assumes send: "handleADNLSendMessage net c req b = (b1, es)" and "SendTo p m \<in> set es"
    and recv: "gm_get (activePeers b2) (hex_encode (GetID q)) = Some q"
      "owner_of b2 (hex_encode (GetID q)) = Some c2"
  shows "\<exists>prm data s. unmarshal [f_peer_id, f_data] (req_params req) zero_params = Inr prm
    \<and> decodeBase64 (p_data prm) = Inr data
    \<and> peerCustomHandler tlib q m b2 = (b2, [Event c2 ''adnl.message''
         (JObj [(''from'', jpeer_id q), (''message'', JStr s)])])
    \<and> decodeBase64 s = Inr data"
proof -
  let ?chk = "with_params [f_peer_id, f_data] req (\<lambda>prm.
        with_base64 ''peer_id'' (p_peer_id prm) (\<lambda>peerID.
        with_base64 ''data'' (p_data prm) (\<lambda>data.
        owned_peer b c (hex_encode peerID) (\<lambda>p. Inr (p, data)))))"
  obtain p' data where chk: "?chk = Inr (p', data)"
  proof (cases ?chk)
    case (Inl r)
    with send assms(2) show ?thesis by (auto simp: handleADNLSendMessage_def)
  next
    case (Inr x)
    then show ?thesis using that by (cases x) auto
  qed
  then obtain prm where u: "unmarshal [f_peer_id, f_data] (req_params req) zero_params = Inr prm"
    and d: "decodeBase64 (p_data prm) = Inr data"
    by (auto simp: all_passes)
  have m: "m = RawMessage data"
    using send assms(2) chk by (auto simp: handleADNLSendMessage_def reply_to_def split: option.splits)
  have "peerCustomHandler tlib q m b2 = (b2, [Event c2 ''adnl.message''
      (JObj [(''from'', jpeer_id q), (''message'', JStr (b64_encode data))])])"
    using recv by (simp add: m peerCustomHandler_def message_bytes_def notify_owner_def sendEvent_def jbytes_def)
  with u d decodeBase64_encode [of data] show ?thesis by blast
qed

definition demo_send :: WSRequest where
  "demo_send = \<lparr>req_jsonrpc = ''2.0'', req_id = ''4'', req_method = ''adnl.sendMessage'',
     req_params = Some (JObj [(''peer_id'', JStr (b64_encode [7])), (''data'', JStr (b64_encode [65, 66]))])\<rparr>"

lemma demo_send_params:
  "unmarshal [f_peer_id, f_data] (req_params demo_send) zero_params =
     Inr (zero_params\<lparr>p_peer_id := b64_encode [7], p_data := b64_encode [65, 66]\<rparr>)"
  by (simp add: unmarshal_def demo_send_def f_peer_id_def f_data_def key_matches_def string_field_def
      fold_char_def char_code_def del: b64_encode.simps)

lemma demo_sent:
  "handleADNLSendMessage demo_net 0 demo_send demo_owned =
     (demo_owned, [SendTo demo_peer (RawMessage [65, 66]), Reply 0 ''4'' (Result (JObj [(''sent'', JBool True)]))])"
  using demo_owned_facts demo_send_params
  by (simp add: handleADNLSendMessage_def with_params_def with_base64_def decodeBase64_encode owned_peer_def
      clientOwnsPeer_def zero_params_def demo_net_def reply_to_def del: b64_encode.simps hex_encode.simps)
    (simp add: demo_send_def)

theorem raw_message_arrives_intact_witness:
  "\<exists>s. peerCustomHandler demo_tl demo_peer (RawMessage [65, 66]) demo_owned = (demo_owned, [Event 0 ''adnl.message''
         (JObj [(''from'', jpeer_id demo_peer), (''message'', JStr s)])])"
proof -
  have "gm_get (activePeers demo_owned) (hex_encode (GetID demo_peer)) = Some demo_peer"
    "owner_of demo_owned (hex_encode (GetID demo_peer)) = Some 0"
    using demo_owned_facts by (simp_all add: demo_peer_def)
  with raw_message_arrives_intact [OF demo_sent, of demo_peer "RawMessage [65, 66]" demo_owned demo_peer 0 demo_tl]
  show ?thesis by auto
qed

lemma takeBroadcast_some:
  "takeBroadcast c b = Some b1 \<Longrightarrow>
     broadcasts (heap b c) < maxConcurrentOverlayBroadcasts \<and> broadcasts (heap b1 c) = broadcasts (heap b c) + 1
     \<and> broadcasts (heap (broadcastDone c b1) c) = broadcasts (heap b c)"
  by (auto simp: takeBroadcast_def broadcastDone_def split: if_splits)

text \<open>
  A client never has more than four broadcasts running: one starts only on an overlay the client
  has joined, with a payload of one byte to one mebibyte, and takes a slot; every refused or
  failed request leaves the number of slots in use as it was.
\<close>
theorem broadcast_slots_bounded:
  assumes "broadcasts (heap b c) \<le> 4" and "handleOverlayBroadcast net c req b = (b', es)"
  shows "broadcasts (heap b' c) \<le> 4
    \<and> (\<forall>ow d. BroadcastOverlay ow d \<in> set es \<longrightarrow>
         broadcasts (heap b' c) = broadcasts (heap b c) + 1 \<and> 1 \<le> length d \<and> length d \<le> 2 ^ 20
         \<and> (\<exists>ov. clientOwnsOverlay b c ov \<and> gm_get (activeOverlays b) ov = Some ow))
    \<and> ((\<forall>ow d. BroadcastOverlay ow d \<notin> set es) \<longrightarrow> broadcasts (heap b' c) = broadcasts (heap b c))"
proof (cases "broadcast_checks b c req")
  case (Inl r)
  with assms show ?thesis by (auto simp: handleOverlayBroadcast_def)
next
  case (Inr x)
  obtain ow d where x: "x = (ow, d)" by (cases x)
  have chk: "1 \<le> length d" "length d \<le> 2 ^ 20"
    "\<exists>ov. clientOwnsOverlay b c ov \<and> gm_get (activeOverlays b) ov = Some ow"
    using Inr unfolding x
    by (auto simp: broadcast_checks_def all_passes maxOverlayBroadcastSize_def Suc_le_eq)
  show ?thesis
  proof (cases "takeBroadcast c b")
    case None
    with assms Inr x show ?thesis by (auto simp: handleOverlayBroadcast_def reply_to_def)
  next
    case (Some b1)
    note t = takeBroadcast_some [OF Some]
    have "handleOverlayBroadcast net c req b = start_broadcast net c req ow d b1"
      using Inr x Some by (simp add: handleOverlayBroadcast_def)
    with assms(2) have sb: "start_broadcast net c req ow d b1 = (b', es)" by simp
    then consider
        (failed) r where "b' = broadcastDone c b1" "es = reply_to c req r"
      | (started) r where "b' = b1" "es = BroadcastOverlay ow d # reply_to c req r"
      by (auto simp: start_broadcast_def split: sum.splits)
    then show ?thesis
    proof cases
      case failed
      with t assms(1) show ?thesis by (auto simp: reply_to_def)
    next
      case started
      with t chk show ?thesis by (auto simp: reply_to_def maxConcurrentOverlayBroadcasts_def)
    qed
  qed
qed

definition demo_joined :: WSBridge where
  "demo_joined = upd_client 0 (\<lambda>w. w\<lparr>overlays := [hex_encode [9]]\<rparr>)
     (demo_owned\<lparr>activeOverlays := gm_put (hex_encode [9]) (Some 31) gm_empty,
        overlayToPeer := gm_put (hex_encode [9]) (hex_encode [7]) gm_empty\<rparr>)"

definition demo_broadcast :: WSRequest where
  "demo_broadcast = \<lparr>req_jsonrpc = ''2.0'', req_id = ''5'', req_method = ''overlay.broadcast'',
     req_params = Some (JObj [(''overlay_id'', JStr (b64_encode [9])), (''data'', JStr (b64_encode [65]))])\<rparr>"

lemma demo_broadcast_checks: "broadcast_checks demo_joined 0 demo_broadcast = Inr (Some 31, [65])"
proof -
  have "unmarshal [f_overlay_id, f_data] (req_params demo_broadcast) zero_params =
      Inr (zero_params\<lparr>p_overlay_id := b64_encode [9], p_data := b64_encode [65]\<rparr>)"
    by (simp add: unmarshal_def demo_broadcast_def f_overlay_id_def f_data_def key_matches_def
        string_field_def fold_char_def char_code_def del: b64_encode.simps)
  then show ?thesis
    by (simp add: broadcast_checks_def with_params_def with_base64_def zero_params_def decodeBase64_encode
        owned_overlay_def clientOwnsOverlay_def demo_joined_def maxOverlayBroadcastSize_def
        del: hex_encode.simps b64_encode.simps)
qed

lemma demo_unused: "broadcasts (heap demo_joined 0) = 0"
  using demo_client
  by (simp add: demo_joined_def demo_owned_def demo_install addClientPeer_def new_client_def del: hex_encode.simps)

theorem broadcast_slots_bounded_witness:
  "broadcasts (heap (fst (handleOverlayBroadcast demo_net 0 demo_broadcast demo_joined)) 0) = 1"
proof -
  obtain b' es where h: "handleOverlayBroadcast demo_net 0 demo_broadcast demo_joined = (b', es)"
    by (metis surj_pair)
  have "BroadcastOverlay (Some 31) [65] \<in> set es"
    using h demo_broadcast_checks demo_unused
    by (auto simp: handleOverlayBroadcast_def takeBroadcast_def start_broadcast_def demo_net_def
        maxConcurrentOverlayBroadcasts_def)
  with broadcast_slots_bounded [OF _ h] demo_unused h show ?thesis by auto
qed

end
