(* ===== verification/TonApi.thy ===== *)
theory TonApi
  imports BridgeState
begin

text \<open>
  The serializers of wsbridge/helpers.go that turn blockchain objects into JSON, and the opcode
  filter of the transaction subscriptions.
\<close>

section \<open>Serializers\<close>

definition jnat :: "nat \<Rightarrow> json" where
  "jnat n = jint (int n)"

definition jdec :: "nat \<Rightarrow> json" where
  "jdec n = JStr (show_nat n)"

definition jhex :: "bytes \<Rightarrow> json" where
  "jhex bs = JStr (hex_encode bs)"

definition jboc :: "ton_lib \<Rightarrow> tvm_cell \<Rightarrow> json" where
  "jboc tlib c = jbytes (ToBOC tlib c)"

definition parseAddress :: "ton_lib \<Rightarrow> string \<Rightarrow> ton_address result" where
  "parseAddress tlib raw = ParseAddr tlib raw"

definition addressStringOrNil :: "ton_lib \<Rightarrow> ton_address option \<Rightarrow> json" where
  "addressStringOrNil tlib a =
     (case a of
        None \<Rightarrow> JNull
      | Some x \<Rightarrow> if IsAddrNone tlib x then JNull else JStr (addr_String tlib x))"

definition addr_or_empty :: "ton_lib \<Rightarrow> ton_address option \<Rightarrow> json" where
  "addr_or_empty tlib a = JStr (case a of None \<Rightarrow> [] | Some x \<Rightarrow> addr_String tlib x)"

definition serializeMessage :: "ton_lib \<Rightarrow> message \<Rightarrow> json" where
  "serializeMessage tlib m = JObj
     ((case msg_ToCell m of Inr c \<Rightarrow> [(''hash'', jhex (cell_Hash tlib c))] | Inl _ \<Rightarrow> []) @
      [(''source'', addr_or_empty tlib (SenderAddr m)),
       (''destination'', addr_or_empty tlib (DestAddr m)),
       (''value'', if MsgType m = InternalMsg then jdec (Amount m) else JStr ''0''),
       (''body'', case Payload m of Some c \<Rightarrow> jboc tlib c | None \<Rightarrow> JStr [])])"

text \<open>An empty list of messages is a nil slice, which Go writes as \<open>null\<close>.\<close>

definition out_msgs_json :: "ton_lib \<Rightarrow> (message list) result option \<Rightarrow> json" where
  "out_msgs_json tlib outs =
     (case outs of
        Some (Inr ms) \<Rightarrow> if ms = [] then JNull else JArr (map (serializeMessage tlib) ms)
      | _ \<Rightarrow> JArr [])"

definition tx_fields :: "ton_lib \<Rightarrow> transaction \<Rightarrow> (string \<times> json) list" where
  "tx_fields tlib tx =
     [(''hash'', jhex (tx_Hash tx)), (''lt'', jdec (tx_LT tx)), (''now'', jnat (tx_Now tx)),
      (''total_fees'', jdec (TotalFees tx)), (''prev_tx_lt'', jdec (PrevTxLT tx)),
      (''prev_tx_hash'', jhex (PrevTxHash tx))] @
     (case tx_In tx of Some m \<Rightarrow> [(''in_msg'', serializeMessage tlib m)] | None \<Rightarrow> []) @
     [(''out_msgs'', out_msgs_json tlib (tx_Out tx))]"

definition serializeTransaction :: "ton_lib \<Rightarrow> transaction \<Rightarrow> json" where
  "serializeTransaction tlib tx = JObj (tx_fields tlib tx)"

subsection \<open>TVM stacks\<close>

text \<open>
  The dynamic types of a stack item. A typed nil pointer is \<open>None\<close>; a tuple is its items when
  every index can be read, and \<open>None\<close> when it is nil, null or an index fails. Any other value
  is rendered by \<open>%v\<close>.
\<close>

datatype stack_value =
    SInt "int option"
  | SCell "tvm_cell option"
  | SSlice "tvm_slice option"
  | SList "stack_value list"
  | STuple "stack_value list option"
  | SNil
  | SOther string

fun serializeStackValue :: "ton_lib \<Rightarrow> stack_value \<Rightarrow> json" where
  "serializeStackValue tlib (SInt v) = (case v of None \<Rightarrow> JNull | Some n \<Rightarrow> JStr (show_int n))"
| "serializeStackValue tlib (SCell v) = (case v of None \<Rightarrow> JNull | Some c \<Rightarrow> jboc tlib c)"
| "serializeStackValue tlib (SSlice v) =
     (case v of
        None \<Rightarrow> JNull
      | Some s \<Rightarrow> (case slice_ToCell tlib s of Inl _ \<Rightarrow> JNull | Inr c \<Rightarrow> jboc tlib c))"
| "serializeStackValue tlib (SList vs) = JArr (map (serializeStackValue tlib) vs)"
| "serializeStackValue tlib (STuple None) = JNull"
| "serializeStackValue tlib (STuple (Some vs)) = JArr (map (serializeStackValue tlib) vs)"
| "serializeStackValue tlib SNil = JNull"
| "serializeStackValue tlib (SOther s) = JStr s"

definition serializeStack :: "ton_lib \<Rightarrow> stack_value list \<Rightarrow> json" where
  "serializeStack tlib vs = JArr (map (serializeStackValue tlib) vs)"

subsection \<open>Token metadata\<close>

record attributes =
  GetAttribute :: "string \<Rightarrow> string"
  GetAttributeBinary :: "string \<Rightarrow> bytes"

datatype content =
    ContentOffchain string
  | ContentSemichain string attributes
  | ContentOnchain attributes
  | ContentOther

definition common_attributes :: "attributes \<Rightarrow> (string \<times> json) list" where
  "common_attributes a =
     [(''name'', JStr (GetAttribute a ''name'')), (''description'', JStr (GetAttribute a ''description'')),
      (''image'', JStr (GetAttribute a ''image''))]"

definition image_data :: "attributes \<Rightarrow> (string \<times> json) list" where
  "image_data a =
     (let d = GetAttributeBinary a ''image_data'' in if d \<noteq> [] then [(''image_data'', jbytes d)] else [])"

text \<open>A nil content is \<open>None\<close>.\<close>

definition contentBase :: "content option \<Rightarrow> (string \<times> json) list" where
  "contentBase c =
     (case c of
        Some (ContentOffchain uri) \<Rightarrow> [(''type'', JStr ''offchain''), (''uri'', JStr uri)]
      | Some (ContentSemichain uri a) \<Rightarrow>
          [(''type'', JStr ''semichain''), (''uri'', JStr uri)] @ common_attributes a @ image_data a
      | Some (ContentOnchain a) \<Rightarrow>
          [(''type'', JStr ''onchain'')] @ common_attributes a @ image_data a
      | _ \<Rightarrow> [(''type'', JStr ''unknown'')])"

definition serializeContentBase :: "content option \<Rightarrow> json" where
  "serializeContentBase c = JObj (contentBase c)"

definition jetton_attributes :: "attributes \<Rightarrow> (string \<times> json) list" where
  "jetton_attributes a =
     [(''symbol'', JStr (GetAttribute a ''symbol'')), (''decimals'', JStr (GetAttribute a ''decimals''))]"

definition serializeJettonContent :: "content option \<Rightarrow> json" where
  "serializeJettonContent c = JObj (contentBase c @
     (case c of
        Some (ContentSemichain _ a) \<Rightarrow> jetton_attributes a
      | Some (ContentOnchain a) \<Rightarrow> jetton_attributes a
      | _ \<Rightarrow> []))"

section \<open>Opcodes\<close>

text \<open>The first 32 bits of the payload of the incoming message, when it has them.\<close>

definition in_opcode :: "ton_lib \<Rightarrow> transaction \<Rightarrow> nat option" where
  "in_opcode tlib tx =
     (case tx_In tx of
        None \<Rightarrow> None
      | Some m \<Rightarrow>
         (case Payload m of
            None \<Rightarrow> None
          | Some c \<Rightarrow>
             (case BeginParse tlib c of
                Inl _ \<Rightarrow> None
              | Inr s \<Rightarrow> (case LoadUInt tlib 32 s of Inl _ \<Rightarrow> None | Inr (op, _) \<Rightarrow> Some op))))"

definition passes_filter :: "ton_lib \<Rightarrow> nat list \<Rightarrow> transaction \<Rightarrow> bool" where
  "passes_filter tlib ops tx \<longleftrightarrow>
     ops = [] \<or> (case in_opcode tlib tx of None \<Rightarrow> False | Some op \<Rightarrow> list_ex (\<lambda>a. op mod 2 ^ 32 = a) ops)"

definition account_status :: "account \<Rightarrow> string" where
  "account_status a =
     (case AccState a of
        None \<Rightarrow> ''uninit''
      | Some s \<Rightarrow>
          if \<not> IsValid s then ''uninit''
          else if Status s = ''ACTIVE'' then ''active''
          else if Status s = ''FROZEN'' then ''frozen''
          else ''uninit'')"

definition account_balance :: "account \<Rightarrow> nat" where
  "account_balance a =
     (case AccState a of None \<Rightarrow> 0 | Some s \<Rightarrow> if IsValid s then Balance s else 0)"

end
