(* ===== verification/SubSlots.thy ===== *)
theory SubSlots
  imports TonApi Connection
begin

text \<open>
  The bookkeeping every subscription shares (wsbridge/subscribe.go, and the same code in trace.go
  and lite.go): the atomic counter with its limit, the registry of cancel functions, and
  \<open>subscribe.unsubscribe\<close>.
\<close>

section \<open>The counter\<close>

text \<open>\<open>int32(MaxSubscriptions)\<close> and \<open>atomic.AddInt32\<close> keep the low 32 bits.\<close>

definition max_subs :: "WSBridge \<Rightarrow> int" where
  "max_subs b = to_int32 (MaxSubscriptions (Subscribe (Namespaces (cfg b))))"

definition addSubs :: "int \<Rightarrow> client_ref \<Rightarrow> WSBridge \<Rightarrow> WSBridge" where
  "addSubs d c b = upd_client c (\<lambda>w. w\<lparr>activeSubs := to_int32 (activeSubs w + d)\<rparr>) b"

text \<open>
  The test at the head of a handler: count first, then give back when over the limit. The flag
  says whether the handler goes on. This is one step here; SlotRace has the two atomic operations
  of the code and what other handlers see between them.
\<close>

definition enterSub :: "client_ref \<Rightarrow> WSBridge \<Rightarrow> WSBridge \<times> bool" where
  "enterSub c b =
     (let b1 = addSubs 1 c b in
      if activeSubs (heap b1 c) > max_subs b then (addSubs (- 1) c b1, False) else (b1, True))"

definition leaveSub :: "client_ref \<Rightarrow> WSBridge \<Rightarrow> WSBridge" where
  "leaveSub c b = addSubs (- 1) c b"

definition takeSub :: "client_ref \<Rightarrow> WSBridge \<Rightarrow> WSBridge option" where
  "takeSub c b = (case enterSub c b of (b', entered) \<Rightarrow> if entered then Some b' else None)"

text \<open>The states in which the counter has not left the range of \<open>int32\<close>.\<close>

definition subs_countable :: "client_ref \<Rightarrow> WSBridge \<Rightarrow> bool" where
  "subs_countable c b \<longleftrightarrow>
     0 \<le> activeSubs (heap b c) \<and> activeSubs (heap b c) \<le> max 0 (max_subs b) \<and> max_subs b < 2 ^ 31 - 1"

interpretation sub_slots:
  guarded_slots "subs_countable c" "\<lambda>b. activeSubs (heap b c)" max_subs "takeSub c" "leaveSub c" for c
proof
  fix s s' :: WSBridge
  assume v: "subs_countable c s"
  have i: "to_int32 (activeSubs (heap s c) + 1) = activeSubs (heap s c) + 1"
    using v by (intro to_int32_id) (auto simp: subs_countable_def max_def split: if_splits)
  show "takeSub c s = None \<longleftrightarrow> max_subs s \<le> activeSubs (heap s c)"
    using i by (auto simp: takeSub_def enterSub_def addSubs_def max_subs_def Let_def)
  show "activeSubs (heap s' c) = activeSubs (heap s c) + 1 \<and> max_subs s' = max_subs s \<and> subs_countable c s'"
    if "takeSub c s = Some s'"
  proof -
    from that i have s': "s' = addSubs 1 c s" "activeSubs (heap s c) + 1 \<le> max_subs s"
      by (auto simp: takeSub_def enterSub_def addSubs_def Let_def split: if_splits)
    then show ?thesis using v i by (simp add: addSubs_def max_subs_def subs_countable_def)
  qed
  show "activeSubs (heap (leaveSub c s) c) = activeSubs (heap s c) - 1
      \<and> max_subs (leaveSub c s) = max_subs s \<and> subs_countable c (leaveSub c s)"
    if "0 < activeSubs (heap s c)"
  proof -
    have "to_int32 (activeSubs (heap s c) - 1) = activeSubs (heap s c) - 1"
      using v that by (intro to_int32_id) (auto simp: subs_countable_def max_def split: if_splits)
    then show ?thesis using v that by (simp add: leaveSub_def addSubs_def max_subs_def subs_countable_def)
  qed
qed

section \<open>The registry\<close>

text \<open>
  A subscription gets the next number of its connection; the number also names the context that
  its cancel function ends.
\<close>

definition sub_id :: "nat \<Rightarrow> string" where
  "sub_id n = ''sub_'' @ show_nat n"

definition registerSub :: "client_ref \<Rightarrow> WSBridge \<Rightarrow> nat \<times> WSBridge" where
  "registerSub c b =
     (let n = (subCounter (heap b c) + 1) mod 2 ^ 64 in
      (n, upd_client c (\<lambda>w. w\<lparr>subCounter := n, subscriptions := gm_put (sub_id n) n (subscriptions w)\<rparr>) b))"

definition unregisterSub :: "client_ref \<Rightarrow> nat \<Rightarrow> WSBridge \<Rightarrow> WSBridge" where
  "unregisterSub c n b =
     upd_client c (\<lambda>w. w\<lparr>subscriptions := gm_del (sub_id n) (subscriptions w)\<rparr>) b"

text \<open>The deferred calls of a subscription handler, in their order.\<close>

definition endSub :: "client_ref \<Rightarrow> nat \<Rightarrow> WSBridge \<Rightarrow> WSBridge" where
  "endSub c n b = leaveSub c (unregisterSub c n b)"

text \<open>\<open>subscribe.unsubscribe\<close>; the last component is the context that is cancelled.\<close>

record unsub_params =
  up_subscription_id :: string

definition unsub_fields :: "(string \<times> unsub_params setter) list" where
  "unsub_fields = [(''subscription_id'', string_field (\<lambda>s p. p\<lparr>up_subscription_id := s\<rparr>))]"

definition handleUnsubscribe :: "client_ref \<Rightarrow> WSRequest \<Rightarrow> WSBridge \<Rightarrow> outcome \<times> nat option" where
  "handleUnsubscribe c req b =
     (case unmarshal unsub_fields (req_params req) \<lparr>up_subscription_id = []\<rparr> of
        Inl e \<Rightarrow> ((b, reply_to c req (bad (Wrap ''invalid params: '' e))), None)
      | Inr prm \<Rightarrow>
         (let i = up_subscription_id prm in
          case gm_get (subscriptions (heap b c)) i of
            None \<Rightarrow> ((b, reply_to c req (bad (Lit (''subscription not found: '' @ i)))), None)
          | Some n \<Rightarrow>
              ((upd_client c (\<lambda>w. w\<lparr>subscriptions := gm_del i (subscriptions w)\<rparr>) b,
                reply_to c req (Result (JObj [(''unsubscribed'', JBool True), (''subscription_id'', JStr i)]))),
               Some n)))"

section \<open>Opening a subscription\<close>

text \<open>
  The frame of every handler: take a slot, check the parameters, register, do what has to succeed
  before the confirmation, confirm and go into the loop. Each failure gives the slot back, and
  after the registration removes the entry as well. The last component is what keeps running: the
  number of the context and the state of the loop.
\<close>

definition too_many_subs :: reply where
  "too_many_subs = bad (Lit ''too many subscriptions'')"

definition too_many_subs_max :: "WSBridge \<Rightarrow> reply" where
  "too_many_subs_max b = bad (Lit (''too many subscriptions (max '' @ show_int (max_subs b) @ '')''))"

definition subscribing_with ::
  "reply \<Rightarrow> client_ref \<Rightarrow> WSRequest \<Rightarrow> 'a checked \<Rightarrow> ('a \<Rightarrow> string \<Rightarrow> effect list \<times> (json \<times> 'l) checked) \<Rightarrow>
   WSBridge \<Rightarrow> outcome \<times> (nat \<times> 'l) option" where
  "subscribing_with full c req checks opening b =
     (case enterSub c b of
        (b1, False) \<Rightarrow> ((b1, reply_to c req full), None)
      | (b1, True) \<Rightarrow>
         (case checks of
            Inl r \<Rightarrow> ((leaveSub c b1, reply_to c req r), None)
          | Inr x \<Rightarrow>
             (case registerSub c b1 of
                (n, b2) \<Rightarrow>
                  (case opening x (sub_id n) of
                     (es, Inl r) \<Rightarrow> ((endSub c n b2, es @ reply_to c req r), None)
                   | (es, Inr (res, l)) \<Rightarrow> ((b2, es @ reply_to c req (Result res)), Some (n, l))))))"

definition subscribing ::
  "reply \<Rightarrow> client_ref \<Rightarrow> WSRequest \<Rightarrow> 'a checked \<Rightarrow> ('a \<Rightarrow> string \<Rightarrow> (json \<times> 'l) checked) \<Rightarrow> WSBridge \<Rightarrow>
   outcome \<times> (nat \<times> 'l) option" where
  "subscribing full c req checks opening = subscribing_with full c req checks (\<lambda>x i. ([], opening x i))"

end
