(* ===== verification/TonClient.thy ===== *)
theory TonClient
  imports TonApi
begin

text \<open>
  The calls of \<open>ton.APIClientWrapped\<close> as a record of answers: one value of \<open>ton_api\<close> holds what
  the liteservers reply during one handler run or one iteration of a loop. The paging calls are
  numbered, so that two calls with the same arguments may differ.
\<close>

text \<open>\<open>ton.TransactionShortInfo\<close> and the cursor \<open>ID3\<close> made of it.\<close>

record tx_short =
  ts_Account :: bytes
  ts_LT :: nat
  ts_Hash :: bytes

type_synonym tx_cursor = "bytes \<times> nat"

definition ID3 :: "tx_short \<Rightarrow> tx_cursor" where
  "ID3 t = (ts_Account t, ts_LT t)"

record chain_config =
  cfg_Get :: "int \<Rightarrow> tvm_cell option"
  cfg_All :: "(int \<times> tvm_cell) list"
  cfg_Root :: tvm_cell

record ton_api =
  CurrentMasterchainInfo :: "block_id result"
  WaitMasterchainInfo :: "nat \<Rightarrow> block_id result"
  LookupBlock :: "int \<Rightarrow> int \<Rightarrow> nat \<Rightarrow> block_id result"
  GetBlockShardsInfo :: "block_id \<Rightarrow> (block_id list) result"
  GetAccount :: "block_id \<Rightarrow> ton_address \<Rightarrow> account result"
  GetBlockTransactionsV2 :: "nat \<Rightarrow> block_id \<Rightarrow> nat \<Rightarrow> tx_cursor option \<Rightarrow> (tx_short list \<times> bool) result"
  ListTransactions :: "nat \<Rightarrow> ton_address \<Rightarrow> nat \<Rightarrow> nat \<Rightarrow> bytes option \<Rightarrow> (transaction list) result"
  GetBlockchainConfig :: "block_id \<Rightarrow> int list \<Rightarrow> chain_config result"
  FindTxByInMsgHash :: "ton_address \<Rightarrow> bytes \<Rightarrow> int \<Rightarrow> transaction result"
  FindTxByOutMsgHash :: "ton_address \<Rightarrow> bytes \<Rightarrow> int \<Rightarrow> transaction result"
  GetTime :: "nat result"
  GetLibraries :: "bytes list \<Rightarrow> (tvm_cell option list) result"
  SendExternalMessage :: "message \<Rightarrow> goerr option"
  QuerySendMessage :: "bytes \<Rightarrow> int option result"
  RunGetMethod :: "block_id \<Rightarrow> ton_address \<Rightarrow> string \<Rightarrow> stack_value list \<Rightarrow> (stack_value list) result"
  GetBlockDataAsCell :: "block_id \<Rightarrow> tvm_cell result"
  GetBlockHeaderCell :: "block_id \<Rightarrow> tvm_cell result result"

text \<open>Sequence numbers are \<open>uint32\<close>.\<close>

definition next_seqno :: "nat \<Rightarrow> nat" where
  "next_seqno n = (n + 1) mod 2 ^ 32"

definition nextMasterchainBlock :: "ton_api \<Rightarrow> nat \<Rightarrow> block_id result" where
  "nextMasterchainBlock api lastSeqno =
     (case WaitMasterchainInfo api (next_seqno lastSeqno) of
        Inl e \<Rightarrow> Inl e
      | Inr tip \<Rightarrow> LookupBlock api (Workchain tip) (Shard tip) (next_seqno lastSeqno))"

text \<open>The current last transaction of an account when it can be read, and otherwise no change.\<close>

definition resume_lt :: "ton_api \<Rightarrow> ton_address \<Rightarrow> nat \<Rightarrow> nat" where
  "resume_lt api addr lastLT =
     (if lastLT \<noteq> 0 then lastLT
      else (case CurrentMasterchainInfo api of
              Inl _ \<Rightarrow> 0
            | Inr blk \<Rightarrow> (case GetAccount api blk addr of Inl _ \<Rightarrow> 0 | Inr acc \<Rightarrow> LastTxLT acc)))"

text \<open>Frames are written in order until a write fails.\<close>

fun send_all :: "(nat \<Rightarrow> bool) \<Rightarrow> nat \<Rightarrow> effect list \<Rightarrow> effect list \<times> bool" where
  "send_all sent i [] = ([], True)"
| "send_all sent i (e # es) =
     (if sent i then (case send_all sent (Suc i) es of (fs, done) \<Rightarrow> (e # fs, done)) else ([e], False))"

lemma send_all_ok: "(\<forall>j \<ge> i. sent j) \<Longrightarrow> send_all sent i es = (es, True)"
  by (induction es arbitrary: i) auto

lemma send_all_prefix:
  "\<exists>k. fst (send_all sent i es) = take k es \<and> (snd (send_all sent i es) \<longrightarrow> k = length es)"
proof (induction es arbitrary: i)
  case (Cons e es)
  obtain k where "fst (send_all sent (Suc i) es) = take k es \<and>
      (snd (send_all sent (Suc i) es) \<longrightarrow> k = length es)" using Cons.IH by blast
  then show ?case
    by (cases "send_all sent (Suc i) es") (auto intro: exI [of _ "Suc k"] exI [of _ 1])
qed simp

lemma send_all_done: "send_all sent i es = (fs, True) \<Longrightarrow> fs = es"
  using send_all_prefix [of sent i es] by auto

section \<open>All transactions of a block\<close>

text \<open>
  \<open>collectBlockTransactions\<close>: pages of 256 until the liteserver says the list is complete. The
  loop has no bound of its own, so it is a partial function: \<open>None\<close> is a run that never ends.
\<close>

type_synonym page_source = "nat \<Rightarrow> tx_cursor option \<Rightarrow> (tx_short list \<times> bool) result"

partial_function (option) collect_pages ::
  "page_source \<Rightarrow> nat \<Rightarrow> tx_cursor option \<Rightarrow> tx_short list \<Rightarrow> (tx_short list) result option" where
  "collect_pages fetch i after acc =
     (case fetch i after of
        Inl e \<Rightarrow> Some (Inl e)
      | Inr (page, incomplete) \<Rightarrow>
          if \<not> incomplete then Some (Inr (acc @ page))
          else if page = [] then Some (Inl (ErrMsg ''incomplete block transaction page is empty''))
          else if after = Some (ID3 (last page))
          then Some (Inl (ErrMsg ''block transaction cursor did not advance''))
          else collect_pages fetch (Suc i) (Some (ID3 (last page))) (acc @ page))"

definition collectBlockTransactions :: "ton_api \<Rightarrow> block_id \<Rightarrow> (tx_short list) result option" where
  "collectBlockTransactions api blk =
     collect_pages (\<lambda>i. GetBlockTransactionsV2 api i blk 256) 0 None []"

section \<open>A small network\<close>

text \<open>Concrete libraries and answers, for the examples at the end of the other theories.\<close>

definition demo_lib :: ton_lib where
  "demo_lib =
     \<lparr>ParseAddr = (\<lambda>s. if s = [] then Inl (ErrLib 0) else Inr (Address (length s))),
      addr_String = (\<lambda>a. case a of Address n \<Rightarrow> replicate n CHR ''a''),
      IsAddrNone = (\<lambda>_. False), cell_Hash = (\<lambda>c. case c of Cell n \<Rightarrow> [of_nat n]),
      ToBOC = (\<lambda>c. case c of Cell n \<Rightarrow> [of_nat n]), FromBOC = (\<lambda>_. Inr (Cell 0)),
      BeginParse = (\<lambda>c. case c of Cell n \<Rightarrow> Inr (Slice n)),
      slice_ToCell = (\<lambda>s. case s of Slice n \<Rightarrow> Inr (Cell n)),
      LoadUInt = (\<lambda>_ s. case s of Slice n \<Rightarrow> Inr (n, s)),
      LoadRefCell = (\<lambda>s. case s of Slice n \<Rightarrow> if n = 0 then Inl (ErrLib 1) else Inr (Cell (n - 1), s)),
      cell_is_empty = (\<lambda>c. c = Cell 0), LoadMessage = (\<lambda>_. Inl (ErrLib 3)),
      LoadExternalMessage = (\<lambda>_. Inl (ErrLib 4))\<rparr>"

definition demo_block :: "nat \<Rightarrow> block_id" where
  "demo_block n = \<lparr>Workchain = - 1, Shard = - (2 ^ 63), SeqNo = n, RootHash = [], FileHash = []\<rparr>"

definition demo_message :: message where
  "demo_message = \<lparr>MsgType = InternalMsg, msg_ToCell = Inr (Cell 7), SenderAddr = Some (Address 1),
     DestAddr = Some (Address 2), Amount = 5, Payload = Some (Cell 9), StateInit = None\<rparr>"

definition demo_tx :: transaction where
  "demo_tx = \<lparr>tx_Hash = [1], tx_LT = 10, tx_Now = 0, TotalFees = 0, PrevTxLT = 0, PrevTxHash = [],
     tx_In = None, tx_Out = Some (Inr [demo_message]), Description = None\<rparr>"

definition demo_account :: "nat \<Rightarrow> account" where
  "demo_account lt = \<lparr>AccState = None, LastTxLT = lt, LastTxHash = Some [1], acc_Code = None, acc_Data = None\<rparr>"

text \<open>A chain that has reached the block it is asked for, with one transaction per block.\<close>

definition demo_short :: tx_short where
  "demo_short = \<lparr>ts_Account = [3], ts_LT = 4, ts_Hash = [5]\<rparr>"

definition demo_api :: ton_api where
  "demo_api =
     \<lparr>CurrentMasterchainInfo = Inr (demo_block 1), WaitMasterchainInfo = (\<lambda>n. Inr (demo_block n)),
      LookupBlock = (\<lambda>_ _ n. Inr (demo_block n)), GetBlockShardsInfo = (\<lambda>_. Inr []),
      GetAccount = (\<lambda>blk _. Inr (demo_account (SeqNo blk))),
      GetBlockTransactionsV2 = (\<lambda>_ _ _ _. Inr ([demo_short], False)),
      ListTransactions = (\<lambda>_ _ _ _ _. Inr [demo_tx]),
      GetBlockchainConfig = (\<lambda>_ _. Inr \<lparr>cfg_Get = (\<lambda>_. Some (Cell 3)), cfg_All = [], cfg_Root = Cell 0\<rparr>),
      FindTxByInMsgHash = (\<lambda>_ _ _. Inr demo_tx), FindTxByOutMsgHash = (\<lambda>_ _ _. Inl (ErrLib 2)),
      GetTime = Inr 0, GetLibraries = (\<lambda>hs. Inr (map (\<lambda>_. None) hs)), SendExternalMessage = (\<lambda>_. None),
      QuerySendMessage = (\<lambda>_. Inr (Some 1)), RunGetMethod = (\<lambda>_ _ _ _. Inr []),
      GetBlockDataAsCell = (\<lambda>_. Inr (Cell 0)), GetBlockHeaderCell = (\<lambda>_. Inr (Inr (Cell 0)))\<rparr>"

end
