(* ===== verification/Subscribe.thy ===== *)
theory Subscribe
  imports SubSlots TonClient
begin

text \<open>
  The subscriptions of wsbridge/subscribe.go. A handler opens its subscription with
  \<open>subscribing\<close> and leaves a loop; an iteration of a loop takes the answers of the liteservers,
  the next item of its channel and the outcomes of its writes, and gives the frames it writes and
  how it goes on.
\<close>

section \<open>Parameters\<close>

record account_entry =
  ae_address :: string
  ae_last_lt :: string
  ae_operations :: "nat list"

record sub_params =
  sp_address :: string
  sp_last_lt :: string
  sp_operations :: "nat list"
  sp_params :: "int list"
  sp_accounts :: "account_entry list"
  sp_max_depth :: int
  sp_msg_timeout_sec :: int

definition zero_sub_params :: sub_params where
  "zero_sub_params = \<lparr>sp_address = [], sp_last_lt = [], sp_operations = [], sp_params = [],
     sp_accounts = [], sp_max_depth = 0, sp_msg_timeout_sec = 0\<rparr>"

definition operations_field :: "(nat list \<Rightarrow> 'p \<Rightarrow> 'p) \<Rightarrow> 'p setter" where
  "operations_field = list_field (uint_field 32 (\<lambda>n _. n)) 0"

definition entry_fields :: "(string \<times> account_entry setter) list" where
  "entry_fields =
    [(''address'', string_field (\<lambda>s p. p\<lparr>ae_address := s\<rparr>)),
     (''last_lt'', string_field (\<lambda>s p. p\<lparr>ae_last_lt := s\<rparr>)),
     (''operations'', operations_field (\<lambda>xs p. p\<lparr>ae_operations := xs\<rparr>))]"

definition s_address :: "string \<times> sub_params setter" where
  "s_address = (''address'', string_field (\<lambda>s p. p\<lparr>sp_address := s\<rparr>))"
definition s_last_lt :: "string \<times> sub_params setter" where
  "s_last_lt = (''last_lt'', string_field (\<lambda>s p. p\<lparr>sp_last_lt := s\<rparr>))"
definition s_operations :: "string \<times> sub_params setter" where
  "s_operations = (''operations'', operations_field (\<lambda>xs p. p\<lparr>sp_operations := xs\<rparr>))"
definition s_params :: "string \<times> sub_params setter" where
  "s_params = (''params'', list_field (int_field 32 (\<lambda>n _. n)) 0 (\<lambda>xs p. p\<lparr>sp_params := xs\<rparr>))"
definition s_accounts :: "string \<times> sub_params setter" where
  "s_accounts = (''accounts'', list_field (struct_setter entry_fields)
     \<lparr>ae_address = [], ae_last_lt = [], ae_operations = []\<rparr> (\<lambda>xs p. p\<lparr>sp_accounts := xs\<rparr>))"
definition s_max_depth :: "string \<times> sub_params setter" where
  "s_max_depth = (''max_depth'', int_field 64 (\<lambda>n p. p\<lparr>sp_max_depth := n\<rparr>))"
definition s_msg_timeout :: "string \<times> sub_params setter" where
  "s_msg_timeout = (''msg_timeout_sec'', int_field 64 (\<lambda>n p. p\<lparr>sp_msg_timeout_sec := n\<rparr>))"

definition with_sub_params ::
  "(string \<times> sub_params setter) list \<Rightarrow> WSRequest \<Rightarrow> (sub_params \<Rightarrow> 'b checked) \<Rightarrow> 'b checked" where
  "with_sub_params fs req k =
     attempt (unmarshal fs (req_params req) zero_sub_params) (\<lambda>e. bad (Wrap ''invalid params: '' e)) k"

text \<open>A missing logical time and the literal \<open>0\<close> both mean zero.\<close>

definition parse_last_lt :: "string \<Rightarrow> nat result" where
  "parse_last_lt s = (if s = [] \<or> s = ''0'' then Inr 0 else parse_uint 10 s)"

definition with_address :: "ton_lib \<Rightarrow> string \<Rightarrow> (ton_address \<Rightarrow> 'b checked) \<Rightarrow> 'b checked" where
  "with_address tlib raw k = attempt (parseAddress tlib raw) (\<lambda>e. bad (Wrap ''invalid address: '' e)) k"

definition with_master :: "ton_api \<Rightarrow> (block_id \<Rightarrow> 'b checked) \<Rightarrow> 'b checked" where
  "with_master api k =
     attempt (CurrentMasterchainInfo api) (\<lambda>e. failed (Wrap ''failed to get masterchain info: '' e)) k"

definition with_account :: "ton_api \<Rightarrow> block_id \<Rightarrow> ton_address \<Rightarrow> (account \<Rightarrow> 'b checked) \<Rightarrow> 'b checked" where
  "with_account api blk addr k =
     attempt (GetAccount api blk addr) (\<lambda>e. failed (Wrap ''failed to get account: '' e)) k"

section \<open>Loops\<close>

record trace_limits =
  tl_maxDepth :: int
  tl_msgTimeout :: int

text \<open>The variables a loop keeps between iterations.\<close>

datatype sub_loop =
    TxLoop ton_address nat "nat list"
  | BlockLoop nat
  | AccountLoop ton_address string nat nat
  | NewTxLoop nat
  | ConfigLoop nat "int list" "(int, bytes) gomap"
  | MultiLoop "(ton_address \<times> nat \<times> nat list \<times> bool) list"
  | TraceLoop ton_address nat trace_limits
  | WatchLoop bytes message ton_address block_id account

text \<open>
  One iteration: the answers of the API, whether the context has ended when the code asks for
  \<open>ctx.Err()\<close> after a failed call, the text of that error, the outcomes of the checks of \<open>ctx.Err()\<close> in
  the loop conditions of the watch, the goroutine whose turn it is, the item of its channel
  (\<open>None\<close> when closed) and which writes succeed.
\<close>

record loop_input =
  in_api :: ton_api
  in_ctx_err :: bool
  in_reason :: string
  in_alive :: "nat \<Rightarrow> bool"
  in_index :: nat
  in_tx :: "transaction option"
  in_sent :: "nat \<Rightarrow> bool"

datatype next_step = Continue sub_loop | Stop | CancelAll sub_loop

text \<open>An event, and the next step when its write succeeds.\<close>

definition send_then :: "loop_input \<Rightarrow> effect list \<Rightarrow> next_step \<Rightarrow> effect list \<times> next_step" where
  "send_then i es nx = (case send_all (in_sent i) 0 es of (fs, done) \<Rightarrow> (fs, if done then nx else Stop))"

definition retry :: "loop_input \<Rightarrow> sub_loop \<Rightarrow> effect list \<times> next_step" where
  "retry i l = ([], if in_ctx_err i then Stop else Continue l)"

subsection \<open>subscribe.transactions\<close>

definition tx_checks :: "ton_lib \<Rightarrow> WSRequest \<Rightarrow> (ton_address \<times> nat \<times> nat list) checked" where
  "tx_checks tlib req =
     with_sub_params [s_address, s_last_lt, s_operations] req (\<lambda>prm.
     with_address tlib (sp_address prm) (\<lambda>addr.
     attempt (parse_last_lt (sp_last_lt prm)) (\<lambda>e. bad (Wrap ''invalid last_lt: '' e)) (\<lambda>lt.
     Inr (addr, lt, sp_operations prm))))"

definition subscribed_fields :: "string \<Rightarrow> (string \<times> json) list \<Rightarrow> json" where
  "subscribed_fields i extra = JObj ([(''subscribed'', JBool True)] @ extra @ [(''subscription_id'', JStr i)])"

definition handleSubscribeTransactions ::
  "ton_lib \<Rightarrow> client_ref \<Rightarrow> WSRequest \<Rightarrow> WSBridge \<Rightarrow> outcome \<times> (nat \<times> sub_loop) option" where
  "handleSubscribeTransactions tlib c req b =
     subscribing too_many_subs c req (tx_checks tlib req) (\<lambda>(addr, lt, ops) i.
       Inr (subscribed_fields i [(''address'', JStr (addr_String tlib addr))], TxLoop addr lt ops)) b"

definition tx_step :: "ton_lib \<Rightarrow> client_ref \<Rightarrow> ton_address \<Rightarrow> nat \<Rightarrow> nat list \<Rightarrow> loop_input \<Rightarrow> effect list \<times> next_step" where
  "tx_step tlib c addr lt ops i =
     (case in_tx i of
        None \<Rightarrow> ([], Stop)
      | Some tx \<Rightarrow>
          if \<not> passes_filter tlib ops tx then ([], Continue (TxLoop addr lt ops))
          else send_then i (sendEvent c ''transaction'' (serializeTransaction tlib tx))
                 (Continue (TxLoop addr lt ops)))"

subsection \<open>subscribe.blocks\<close>

definition start_seqno :: "block_id \<Rightarrow> string \<Rightarrow> json" where
  "start_seqno master i = subscribed_fields i [(''start_seqno'', jnat (SeqNo master))]"

definition handleSubscribeBlocks ::
  "ton_api \<Rightarrow> client_ref \<Rightarrow> WSRequest \<Rightarrow> WSBridge \<Rightarrow> outcome \<times> (nat \<times> sub_loop) option" where
  "handleSubscribeBlocks api c req b =
     subscribing too_many_subs c req (Inr ()) (\<lambda>_ i.
       with_master api (\<lambda>master. Inr (start_seqno master i, BlockLoop (SeqNo master)))) b"

definition shard_json :: "block_id \<Rightarrow> json" where
  "shard_json s = JObj
     [(''workchain'', jint (Workchain s)), (''shard'', JStr (shard_hex (Shard s))), (''seqno'', jnat (SeqNo s))]"

definition block_event :: "block_id \<Rightarrow> block_id list \<Rightarrow> json" where
  "block_event blk shards = JObj
     [(''seqno'', jnat (SeqNo blk)), (''workchain'', jint (Workchain blk)),
      (''shard'', JStr (shard_hex (Shard blk))), (''root_hash'', jhex (RootHash blk)),
      (''file_hash'', jhex (FileHash blk)), (''shards'', JArr (map shard_json shards))]"

definition block_step :: "client_ref \<Rightarrow> nat \<Rightarrow> loop_input \<Rightarrow> effect list \<times> next_step" where
  "block_step c lastSeqno i =
     (case nextMasterchainBlock (in_api i) lastSeqno of
        Inl _ \<Rightarrow> retry i (BlockLoop lastSeqno)
      | Inr blk \<Rightarrow>
         (case GetBlockShardsInfo (in_api i) blk of
            Inl _ \<Rightarrow> ([], Continue (BlockLoop lastSeqno))
          | Inr shards \<Rightarrow>
              send_then i (sendEvent c ''block'' (block_event blk shards)) (Continue (BlockLoop (SeqNo blk)))))"

subsection \<open>subscribe.accountState\<close>

definition balance_text :: "account \<Rightarrow> string" where
  "balance_text acc = show_nat (account_balance acc)"

definition handleSubscribeAccountState ::
  "ton_lib \<Rightarrow> ton_api \<Rightarrow> client_ref \<Rightarrow> WSRequest \<Rightarrow> WSBridge \<Rightarrow> outcome \<times> (nat \<times> sub_loop) option" where
  "handleSubscribeAccountState tlib api c req b =
     subscribing too_many_subs c req
       (with_sub_params [s_address] req (\<lambda>prm. with_address tlib (sp_address prm) (\<lambda>addr. Inr addr)))
       (\<lambda>addr i.
          with_master api (\<lambda>blk.
          with_account api blk addr (\<lambda>acc.
          Inr (subscribed_fields i
                 [(''address'', JStr (addr_String tlib addr)), (''balance'', JStr (balance_text acc)),
                  (''last_tx_lt'', jdec (LastTxLT acc))],
               AccountLoop addr (balance_text acc) (LastTxLT acc) (SeqNo blk))))) b"

definition hash_or_empty :: "bytes option \<Rightarrow> bytes" where
  "hash_or_empty h = (case h of None \<Rightarrow> [] | Some x \<Rightarrow> x)"

definition account_event :: "ton_lib \<Rightarrow> ton_address \<Rightarrow> account \<Rightarrow> block_id \<Rightarrow> json" where
  "account_event tlib addr acc blk = JObj
     [(''address'', JStr (addr_String tlib addr)), (''balance'', JStr (balance_text acc)),
      (''status'', JStr (account_status acc)), (''last_tx_lt'', jdec (LastTxLT acc)),
      (''last_tx_hash'', jhex (hash_or_empty (LastTxHash acc))), (''block_seqno'', jnat (SeqNo blk))]"

definition account_step ::
  "ton_lib \<Rightarrow> client_ref \<Rightarrow> ton_address \<Rightarrow> string \<Rightarrow> nat \<Rightarrow> nat \<Rightarrow> loop_input \<Rightarrow> effect list \<times> next_step" where
  "account_step tlib c addr lastBalance lastTxLT lastSeqno i =
     (case WaitMasterchainInfo (in_api i) (next_seqno lastSeqno) of
        Inl _ \<Rightarrow> retry i (AccountLoop addr lastBalance lastTxLT lastSeqno)
      | Inr blk \<Rightarrow>
         (case GetAccount (in_api i) blk addr of
            Inl _ \<Rightarrow> ([], Continue (AccountLoop addr lastBalance lastTxLT (SeqNo blk)))
          | Inr acc \<Rightarrow>
              if balance_text acc = lastBalance \<and> LastTxLT acc = lastTxLT
              then ([], Continue (AccountLoop addr lastBalance lastTxLT (SeqNo blk)))
              else send_then i (sendEvent c ''account_state'' (account_event tlib addr acc blk))
                     (Continue (AccountLoop addr (balance_text acc) (LastTxLT acc) (SeqNo blk)))))"

subsection \<open>subscribe.newTransactions\<close>

definition handleSubscribeNewTransactions ::
  "ton_api \<Rightarrow> client_ref \<Rightarrow> WSRequest \<Rightarrow> WSBridge \<Rightarrow> outcome \<times> (nat \<times> sub_loop) option" where
  "handleSubscribeNewTransactions api c req b =
     subscribing too_many_subs c req (Inr ()) (\<lambda>_ i.
       with_master api (\<lambda>master. Inr (start_seqno master i, NewTxLoop (SeqNo master)))) b"

definition new_tx_event :: "client_ref \<Rightarrow> block_id \<Rightarrow> tx_short \<Rightarrow> effect" where
  "new_tx_event c blk t = Event c ''new_transaction'' (JObj
     [(''account'', jhex (ts_Account t)), (''lt'', jdec (ts_LT t)), (''hash'', jhex (ts_Hash t)),
      (''block_workchain'', jint (Workchain blk)), (''block_shard'', JStr (shard_hex (Shard blk))),
      (''block_seqno'', jnat (SeqNo blk))])"

text \<open>The first failure stops the collection; \<open>None\<close> is a collection that never ends.\<close>

fun collect_blocks :: "ton_api \<Rightarrow> block_id list \<Rightarrow> (block_id \<times> tx_short list) list result option" where
  "collect_blocks api [] = Some (Inr [])"
| "collect_blocks api (blk # blks) =
     (case collectBlockTransactions api blk of
        None \<Rightarrow> None
      | Some (Inl e) \<Rightarrow> Some (Inl e)
      | Some (Inr txs) \<Rightarrow>
          (case collect_blocks api blks of
             None \<Rightarrow> None
           | Some (Inl e) \<Rightarrow> Some (Inl e)
           | Some (Inr rest) \<Rightarrow> Some (Inr ((blk, txs) # rest))))"

definition new_tx_step :: "client_ref \<Rightarrow> nat \<Rightarrow> loop_input \<Rightarrow> (effect list \<times> next_step) option" where
  "new_tx_step c lastSeqno i =
     (case nextMasterchainBlock (in_api i) lastSeqno of
        Inl _ \<Rightarrow> Some (retry i (NewTxLoop lastSeqno))
      | Inr blk \<Rightarrow>
         (case GetBlockShardsInfo (in_api i) blk of
            Inl _ \<Rightarrow> Some ([], Continue (NewTxLoop lastSeqno))
          | Inr shards \<Rightarrow>
             (case collect_blocks (in_api i) (blk # shards) of
                None \<Rightarrow> None
              | Some (Inl _) \<Rightarrow> Some ([], Continue (NewTxLoop lastSeqno))
              | Some (Inr coll) \<Rightarrow>
                  Some (send_then i (concat (map (\<lambda>(bk, txs). map (new_tx_event c bk) txs) coll))
                          (Continue (NewTxLoop (SeqNo blk)))))))"

subsection \<open>subscribe.configChanges\<close>

definition boc_of :: "ton_lib \<Rightarrow> tvm_cell option \<Rightarrow> bytes" where
  "boc_of tlib c = (case c of None \<Rightarrow> [] | Some x \<Rightarrow> ToBOC tlib x)"

definition cached :: "(int, bytes) gomap \<Rightarrow> int \<Rightarrow> bytes" where
  "cached m k = (case gm_get m k of None \<Rightarrow> [] | Some v \<Rightarrow> v)"

fun fill_cache :: "ton_lib \<Rightarrow> chain_config \<Rightarrow> int list \<Rightarrow> (int, bytes) gomap \<Rightarrow> (int, bytes) gomap" where
  "fill_cache tlib cf [] m = m"
| "fill_cache tlib cf (k # ks) m =
     fill_cache tlib cf ks (case cfg_Get cf k of None \<Rightarrow> m | Some x \<Rightarrow> gm_put k (ToBOC tlib x) m)"

definition handleSubscribeConfigChanges ::
  "ton_lib \<Rightarrow> ton_api \<Rightarrow> client_ref \<Rightarrow> WSRequest \<Rightarrow> WSBridge \<Rightarrow> outcome \<times> (nat \<times> sub_loop) option" where
  "handleSubscribeConfigChanges tlib api c req b =
     (let limit = MaxConfigParams (Subscribe (Namespaces (cfg b))) in
      subscribing too_many_subs c req
       (with_sub_params [s_params] req (\<lambda>prm.
        require (sp_params prm \<noteq> []) (bad (Lit ''params list must not be empty'')) (
        require (int (length (sp_params prm)) \<le> limit)
          (bad (Lit (''too many params (max '' @ show_int limit @ '')''))) (Inr (sp_params prm)))))
       (\<lambda>ids i.
          with_master api (\<lambda>master.
          attempt (GetBlockchainConfig api master ids)
            (\<lambda>e. failed (Wrap ''failed to get blockchain config: '' e)) (\<lambda>cf.
          Inr (start_seqno master i, ConfigLoop (SeqNo master) ids (fill_cache tlib cf ids gm_empty))))) b)"

definition config_event :: "client_ref \<Rightarrow> int \<Rightarrow> block_id \<Rightarrow> bytes \<Rightarrow> bytes \<Rightarrow> effect" where
  "config_event c k blk old new = Event c ''config_changed'' (JObj
     [(''param_id'', jint k), (''block_seqno'', jnat (SeqNo blk)), (''old_value'', jbytes old), (''new_value'', jbytes new)])"

text \<open>The inner loop over the watched parameters, which ends early when a write fails.\<close>

fun config_changes ::
  "ton_lib \<Rightarrow> client_ref \<Rightarrow> block_id \<Rightarrow> chain_config \<Rightarrow> (nat \<Rightarrow> bool) \<Rightarrow> nat \<Rightarrow> int list \<Rightarrow> (int, bytes) gomap \<Rightarrow>
   effect list \<times> (int, bytes) gomap option" where
  "config_changes tlib c blk cf sent i [] m = ([], Some m)"
| "config_changes tlib c blk cf sent i (k # ks) m =
     (let new = boc_of tlib (cfg_Get cf k); old = cached m k in
      if old = new then config_changes tlib c blk cf sent i ks m
      else if \<not> sent i then ([config_event c k blk old new], None)
      else (case config_changes tlib c blk cf sent (Suc i) ks (gm_put k new m) of
              (es, r) \<Rightarrow> (config_event c k blk old new # es, r)))"

definition config_step ::
  "ton_lib \<Rightarrow> client_ref \<Rightarrow> nat \<Rightarrow> int list \<Rightarrow> (int, bytes) gomap \<Rightarrow> loop_input \<Rightarrow> effect list \<times> next_step" where
  "config_step tlib c lastSeqno ids m i =
     (case WaitMasterchainInfo (in_api i) (next_seqno lastSeqno) of
        Inl _ \<Rightarrow> retry i (ConfigLoop lastSeqno ids m)
      | Inr blk \<Rightarrow>
         (case GetBlockchainConfig (in_api i) blk ids of
            Inl _ \<Rightarrow> ([], Continue (ConfigLoop (SeqNo blk) ids m))
          | Inr cf \<Rightarrow>
             (case config_changes tlib c blk cf (in_sent i) 0 ids m of
                (es, None) \<Rightarrow> (es, Stop)
              | (es, Some m') \<Rightarrow> (es, Continue (ConfigLoop (SeqNo blk) ids m')))))"

subsection \<open>subscribe.multiAccount\<close>

fun multi_entries ::
  "ton_lib \<Rightarrow> nat \<Rightarrow> account_entry list \<Rightarrow> ((ton_address \<times> nat \<times> nat list) list) checked" where
  "multi_entries tlib i [] = Inr []"
| "multi_entries tlib i (e # es) =
     attempt (parseAddress tlib (ae_address e))
       (\<lambda>er. bad (Wrap (''invalid address at index '' @ show_nat i @ '': '') er)) (\<lambda>addr.
     attempt (parse_last_lt (ae_last_lt e))
       (\<lambda>er. bad (Wrap (''invalid last_lt at index '' @ show_nat i @ '': '') er)) (\<lambda>lt.
     (case multi_entries tlib (Suc i) es of
        Inl r \<Rightarrow> Inl r
      | Inr rest \<Rightarrow> Inr ((addr, lt, ae_operations e) # rest))))"

definition multi_params :: "WSBridge \<Rightarrow> WSRequest \<Rightarrow> (account_entry list) checked" where
  "multi_params b req =
     (let limit = MaxMultiAccounts (Subscribe (Namespaces (cfg b))) in
      with_sub_params [s_accounts] req (\<lambda>prm.
      require (sp_accounts prm \<noteq> []) (bad (Lit ''accounts list must not be empty'')) (
      require (int (length (sp_accounts prm)) \<le> limit)
        (bad (Lit (''too many accounts (max '' @ show_int limit @ '')''))) (Inr (sp_accounts prm)))))"

text \<open>The list is bounded before the slot is taken, the addresses are parsed after it.\<close>

definition handleSubscribeMultiAccount ::
  "ton_lib \<Rightarrow> ton_api \<Rightarrow> client_ref \<Rightarrow> WSRequest \<Rightarrow> WSBridge \<Rightarrow> outcome \<times> (nat \<times> sub_loop) option" where
  "handleSubscribeMultiAccount tlib api c req b =
     (case multi_params b req of
        Inl r \<Rightarrow> ((b, reply_to c req r), None)
      | Inr accounts \<Rightarrow>
          subscribing too_many_subs c req (multi_entries tlib 0 accounts) (\<lambda>entries i.
            Inr (subscribed_fields i [(''account_count'', jnat (length accounts))],
                 MultiLoop (map (\<lambda>(addr, lt, ops). (addr, resume_lt api addr lt, ops, True)) entries))) b)"

definition multi_running :: "(ton_address \<times> nat \<times> nat list \<times> bool) list \<Rightarrow> next_step" where
  "multi_running es = (if list_ex (\<lambda>(_, _, _, alive). alive) es then Continue (MultiLoop es) else Stop)"

text \<open>
  A turn of the goroutine number \<open>in_index\<close>. It ends with its channel, or when a write fails,
  and then it cancels the whole subscription; the handler returns when every goroutine has ended.
\<close>

definition multi_step ::
  "ton_lib \<Rightarrow> client_ref \<Rightarrow> (ton_address \<times> nat \<times> nat list \<times> bool) list \<Rightarrow> loop_input \<Rightarrow> effect list \<times> next_step" where
  "multi_step tlib c es i =
     (if in_index i < length es then
        (case es ! in_index i of
           (addr, lt, ops, alive) \<Rightarrow>
             let ended = es[in_index i := (addr, lt, ops, False)] in
             if \<not> alive then ([], multi_running es)
             else
              (case in_tx i of
                 None \<Rightarrow> ([], multi_running ended)
               | Some tx \<Rightarrow>
                   if \<not> passes_filter tlib ops tx then ([], Continue (MultiLoop es))
                   else
                    ([Event c ''transaction'' (JObj (tx_fields tlib tx @ [(''address'', JStr (addr_String tlib addr))]))],
                     if in_sent i 0 then Continue (MultiLoop es)
                     else if list_ex (\<lambda>(_, _, _, al). al) ended then CancelAll (MultiLoop ended) else Stop)))
      else ([], multi_running es))"

end
