(* ===== verification/Trace.thy ===== *)
theory Trace
  imports Subscribe
begin

text \<open>
  \<open>subscribe.trace\<close> (wsbridge/trace.go): the messages a transaction sends, the resolver of one
  message, and the coordinator that spawns resolvers and decides when a trace is complete. The
  coordinator and its goroutines are a step relation; every step is an action of one goroutine.
\<close>

section \<open>Messages to follow\<close>

record pendingMsg =
  pm_destAddr :: ton_address
  pm_msgHash :: bytes
  pm_bodyHash :: bytes
  pm_after :: int
  pm_depth :: int

definition out_msg :: "ton_lib \<Rightarrow> transaction \<Rightarrow> int \<Rightarrow> message \<Rightarrow> pendingMsg option" where
  "out_msg tlib tx depth m =
     (if MsgType m \<noteq> InternalMsg then None
      else (case (DestAddr m, Payload m, msg_ToCell m) of
              (Some dst, Some body, Inr mc) \<Rightarrow>
                Some \<lparr>pm_destAddr = dst, pm_msgHash = cell_Hash tlib mc, pm_bodyHash = cell_Hash tlib body,
                      pm_after = int (tx_Now tx), pm_depth = depth\<rparr>
            | _ \<Rightarrow> None))"

definition extractInternalOutMsgs :: "ton_lib \<Rightarrow> transaction \<Rightarrow> int \<Rightarrow> pendingMsg list" where
  "extractInternalOutMsgs tlib tx depth =
     (case tx_Out tx of
        Some (Inr ms) \<Rightarrow> List.map_filter (out_msg tlib tx depth) ms
      | _ \<Rightarrow> [])"

section \<open>Opening a trace subscription\<close>

definition trace_limits_of :: "TraceRuntimeConfig \<Rightarrow> int \<Rightarrow> int \<Rightarrow> trace_limits" where
  "trace_limits_of ns depth timeoutSec =
     (let d = (if depth \<le> 0 then DefaultDepth ns else depth);
          t0 = to_int64 (timeoutSec * second);
          t = (if t0 \<le> 0 then DefaultMsgTimeout ns else t0)
      in \<lparr>tl_maxDepth = min d (MaxDepth ns), tl_msgTimeout = min t (MaxMsgTimeout ns)\<rparr>)"

definition trace_checks :: "ton_lib \<Rightarrow> TraceRuntimeConfig \<Rightarrow> WSRequest \<Rightarrow> (ton_address \<times> nat \<times> trace_limits) checked" where
  "trace_checks tlib ns req =
     with_sub_params [s_address, s_last_lt, s_max_depth, s_msg_timeout] req (\<lambda>prm.
     with_address tlib (sp_address prm) (\<lambda>addr.
     attempt (parse_last_lt (sp_last_lt prm)) (\<lambda>e. bad (Wrap ''invalid last_lt: '' e)) (\<lambda>lt.
     Inr (addr, lt, trace_limits_of ns (sp_max_depth prm) (sp_msg_timeout_sec prm)))))"

definition handleSubscribeTrace ::
  "ton_lib \<Rightarrow> ton_api \<Rightarrow> client_ref \<Rightarrow> WSRequest \<Rightarrow> WSBridge \<Rightarrow> outcome \<times> (nat \<times> sub_loop) option" where
  "handleSubscribeTrace tlib api c req b =
     subscribing (too_many_subs_max b) c req (trace_checks tlib (SubscribeTrace (Namespaces (cfg b))) req)
       (\<lambda>(addr, lt, lim) i.
          Inr (subscribed_fields i [(''address'', JStr (addr_String tlib addr))],
               TraceLoop addr (resume_lt api addr lt) lim)) b"

section \<open>The resolver of one message\<close>

record trace_env =
  te_lib :: ton_lib
  te_client :: client_ref
  te_traceID :: string
  te_limits :: trace_limits
  te_maxResolvers :: int

text \<open>Before the first answer, and between polls with the last time and block it has seen.\<close>

datatype resolve_state = RStart | RPoll nat nat

datatype resolve_result =
    Polling resolve_state
  | Resolved "effect list" "pendingMsg list"
  | TimedOut "effect list"

definition trace_timeout :: "trace_env \<Rightarrow> pendingMsg \<Rightarrow> effect list" where
  "trace_timeout te m = sendEvent (te_client te) ''trace_timeout'' (JObj
     [(''trace_id'', JStr (te_traceID te)), (''address'', JStr (addr_String (te_lib te) (pm_destAddr m))),
      (''message_hash'', jhex (pm_msgHash m)), (''body_hash'', jhex (pm_bodyHash m)),
      (''depth'', jint (pm_depth m))])"

definition trace_tx_event :: "trace_env \<Rightarrow> pendingMsg \<Rightarrow> transaction \<Rightarrow> effect" where
  "trace_tx_event te m tx =
     (let addr = JStr (addr_String (te_lib te) (pm_destAddr m)) in
      Event (te_client te) ''trace_tx'' (JObj
        [(''trace_id'', JStr (te_traceID te)),
         (''transaction'', JObj (tx_fields (te_lib te) tx @ [(''address'', addr)])),
         (''depth'', jint (pm_depth m)), (''address'', addr)]))"

text \<open>\<open>None\<close>: not found yet. Otherwise the event and the children, which only a sent event has.\<close>

definition scanForMatch :: "trace_env \<Rightarrow> loop_input \<Rightarrow> pendingMsg \<Rightarrow> (effect list \<times> pendingMsg list) option" where
  "scanForMatch te i m =
     (case FindTxByInMsgHash (in_api i) (pm_destAddr m) (pm_msgHash m) (pm_after m) of
        Inl _ \<Rightarrow> None
      | Inr tx \<Rightarrow> Some
          ([trace_tx_event te m tx],
           if in_sent i 0 \<and> pm_depth m < tl_maxDepth (te_limits te)
           then extractInternalOutMsgs (te_lib te) tx (pm_depth m + 1) else []))"

definition scan_or :: "trace_env \<Rightarrow> loop_input \<Rightarrow> pendingMsg \<Rightarrow> resolve_state \<Rightarrow> resolve_result" where
  "scan_or te i m r =
     (case scanForMatch te i m of Some (es, children) \<Rightarrow> Resolved es children | None \<Rightarrow> Polling r)"

text \<open>\<open>expired\<close> is the select at the head of the poll loop.\<close>

definition resolveMessage :: "trace_env \<Rightarrow> bool \<Rightarrow> loop_input \<Rightarrow> pendingMsg \<Rightarrow> resolve_state \<Rightarrow> resolve_result" where
  "resolveMessage te expired i m r =
     (case r of
        RStart \<Rightarrow>
         (case CurrentMasterchainInfo (in_api i) of
            Inl _ \<Rightarrow> TimedOut (trace_timeout te m)
          | Inr blk \<Rightarrow>
             (case GetAccount (in_api i) blk (pm_destAddr m) of
                Inl _ \<Rightarrow> TimedOut (trace_timeout te m)
              | Inr acc \<Rightarrow>
                  let r' = RPoll (LastTxLT acc) (SeqNo blk) in
                  if LastTxLT acc > 0 \<and> LastTxHash acc \<noteq> None then scan_or te i m r' else Polling r'))
      | RPoll lastLT lastSeqno \<Rightarrow>
          if expired then TimedOut (trace_timeout te m)
          else
           (case WaitMasterchainInfo (in_api i) (next_seqno lastSeqno) of
              Inl _ \<Rightarrow> if in_ctx_err i then TimedOut (trace_timeout te m) else Polling r
            | Inr blk \<Rightarrow>
               (case GetAccount (in_api i) blk (pm_destAddr m) of
                  Inl _ \<Rightarrow> Polling (RPoll lastLT (SeqNo blk))
                | Inr acc \<Rightarrow>
                    if LastTxLT acc = lastLT then Polling (RPoll lastLT (SeqNo blk))
                    else scan_or te i m (RPoll (LastTxLT acc) (SeqNo blk)))))"

section \<open>The coordinator\<close>

text \<open>
  A resolver goroutine waits for a token of the semaphore, resolves its message, writes the
  children to the channel and ends. The goroutine that waits for the group of resolvers has not
  called \<open>Wait\<close> yet, is blocked in it, has been released because the count reached zero, is about
  to close the done channel, or has closed it.
\<close>

datatype resolver = Waiting pendingMsg | Resolving pendingMsg resolve_state | Pushing "pendingMsg list"

datatype waiter = Starting | Blocked | Released | Closing | Closed

datatype coord_phase = Selecting | Draining | Leaving | Finished | ChanClosed | Crashed

text \<open>
  \<open>co_raced\<close> is a history variable: the coordinator has spawned a resolver after the count had
  reached zero and before it noticed.
\<close>

record coord =
  co_resolvers :: "resolver list"
  co_chan :: "pendingMsg list"
  co_waiter :: waiter
  co_phase :: coord_phase
  co_total :: nat
  co_maxReached :: int
  co_timedOut :: nat
  co_raced :: bool

definition chan_cap :: nat where
  "chan_cap = 64"

definition holds_token :: "resolver \<Rightarrow> bool" where
  "holds_token r \<longleftrightarrow> (case r of Waiting _ \<Rightarrow> False | _ \<Rightarrow> True)"

definition tokens :: "coord \<Rightarrow> nat" where
  "tokens s = length (filter holds_token (co_resolvers s))"

definition spawnResolver :: "pendingMsg \<Rightarrow> coord \<Rightarrow> coord" where
  "spawnResolver m s = s\<lparr>co_resolvers := co_resolvers s @ [Waiting m]\<rparr>"

definition coord_start :: "trace_env \<Rightarrow> transaction \<Rightarrow> coord" where
  "coord_start te tx = fold spawnResolver (extractInternalOutMsgs (te_lib te) tx 1)
     \<lparr>co_resolvers = [], co_chan = [], co_waiter = Starting, co_phase = Selecting,
      co_total = 0, co_maxReached = 0, co_timedOut = 0, co_raced = False\<rparr>"

text \<open>A message taken from the channel counts, and a resolver is spawned for it.\<close>

definition receive :: "pendingMsg \<Rightarrow> pendingMsg list \<Rightarrow> coord \<Rightarrow> coord" where
  "receive m ms s = spawnResolver m
     (s\<lparr>co_chan := ms, co_total := co_total s + 1, co_maxReached := max (co_maxReached s) (pm_depth m)\<rparr>)"

definition late :: "waiter \<Rightarrow> bool" where
  "late w \<longleftrightarrow> w \<in> {Released, Closing, Closed}"

definition trace_complete :: "trace_env \<Rightarrow> coord \<Rightarrow> effect list" where
  "trace_complete te s = sendEvent (te_client te) ''trace_complete'' (JObj
     [(''trace_id'', JStr (te_traceID te)), (''total_txs'', jnat (co_total s)),
      (''max_depth_reached'', jint (co_maxReached s)), (''timed_out_count'', jnat (co_timedOut s))])"

definition end_resolver :: "nat \<Rightarrow> coord \<Rightarrow> coord" where
  "end_resolver k s =
     (let rs = take k (co_resolvers s) @ drop (Suc k) (co_resolvers s) in
      s\<lparr>co_resolvers := rs,
        co_waiter := (if rs = [] \<and> co_waiter s = Blocked then Released else co_waiter s)\<rparr>)"

inductive coord_step :: "trace_env \<Rightarrow> coord \<Rightarrow> effect list \<Rightarrow> coord \<Rightarrow> bool" for te where
  acquire: "k < length (co_resolvers s) \<Longrightarrow> co_resolvers s ! k = Waiting m \<Longrightarrow>
    int (tokens s) < te_maxResolvers te \<Longrightarrow>
    coord_step te s [] (s\<lparr>co_resolvers := (co_resolvers s)[k := Resolving m RStart]\<rparr>)"
| poll: "k < length (co_resolvers s) \<Longrightarrow> co_resolvers s ! k = Resolving m r \<Longrightarrow>
    resolveMessage te expired i m r = Polling r' \<Longrightarrow>
    coord_step te s [] (s\<lparr>co_resolvers := (co_resolvers s)[k := Resolving m r']\<rparr>)"
| resolved: "k < length (co_resolvers s) \<Longrightarrow> co_resolvers s ! k = Resolving m r \<Longrightarrow>
    resolveMessage te expired i m r = Resolved es children \<Longrightarrow>
    coord_step te s es (s\<lparr>co_resolvers := (co_resolvers s)[k := Pushing children]\<rparr>)"
| timed_out: "k < length (co_resolvers s) \<Longrightarrow> co_resolvers s ! k = Resolving m r \<Longrightarrow>
    resolveMessage te expired i m r = TimedOut es \<Longrightarrow>
    coord_step te s es (s\<lparr>co_resolvers := (co_resolvers s)[k := Pushing []], co_timedOut := co_timedOut s + 1\<rparr>)"
| push: "k < length (co_resolvers s) \<Longrightarrow> co_resolvers s ! k = Pushing (m # ms) \<Longrightarrow>
    length (co_chan s) < chan_cap \<Longrightarrow> co_phase s \<noteq> ChanClosed \<Longrightarrow>
    coord_step te s [] (s\<lparr>co_resolvers := (co_resolvers s)[k := Pushing ms], co_chan := co_chan s @ [m]\<rparr>)"
| push_closed: "k < length (co_resolvers s) \<Longrightarrow> co_resolvers s ! k = Pushing (m # ms) \<Longrightarrow>
    co_phase s = ChanClosed \<Longrightarrow> coord_step te s [] (s\<lparr>co_phase := Crashed\<rparr>)"
| finish: "k < length (co_resolvers s) \<Longrightarrow> co_resolvers s ! k = Pushing [] \<Longrightarrow>
    coord_step te s [] (end_resolver k s)"
| wait: "co_waiter s = Starting \<Longrightarrow>
    coord_step te s [] (s\<lparr>co_waiter := (if co_resolvers s = [] then Closing else Blocked)\<rparr>)"
| woken: "co_waiter s = Released \<Longrightarrow> co_resolvers s = [] \<Longrightarrow> coord_step te s [] (s\<lparr>co_waiter := Closing\<rparr>)"
| reused: "co_waiter s = Released \<Longrightarrow> co_resolvers s \<noteq> [] \<Longrightarrow> coord_step te s [] (s\<lparr>co_phase := Crashed\<rparr>)"
| close_done: "co_waiter s = Closing \<Longrightarrow> coord_step te s [] (s\<lparr>co_waiter := Closed\<rparr>)"
| recv: "co_phase s = Selecting \<Longrightarrow> co_chan s = m # ms \<Longrightarrow>
    coord_step te s [] ((receive m ms s)\<lparr>co_raced := co_raced s \<or> late (co_waiter s)\<rparr>)"
| all_done: "co_phase s = Selecting \<Longrightarrow> co_waiter s = Closed \<Longrightarrow> coord_step te s [] (s\<lparr>co_phase := Draining\<rparr>)"
| drain: "co_phase s = Draining \<Longrightarrow> co_chan s = m # ms \<Longrightarrow>
    coord_step te s [] ((receive m ms s)\<lparr>co_waiter := Starting, co_phase := Selecting\<rparr>)"
| complete: "co_phase s = Draining \<Longrightarrow> co_chan s = [] \<Longrightarrow>
    coord_step te s (trace_complete te s) (s\<lparr>co_phase := Finished\<rparr>)"
| cancelled: "co_phase s = Selecting \<Longrightarrow> coord_step te s [] (s\<lparr>co_phase := Leaving\<rparr>)"
| discard: "co_phase s = Leaving \<Longrightarrow> co_chan s = m # ms \<Longrightarrow> coord_step te s [] (s\<lparr>co_chan := ms\<rparr>)"
| left: "co_phase s = Leaving \<Longrightarrow> co_waiter s = Closed \<Longrightarrow> coord_step te s [] (s\<lparr>co_phase := ChanClosed\<rparr>)"

text \<open>
  \<open>reused\<close> is the panic of a wait group that is added to before a released \<open>Wait\<close> returns, and
  \<open>push_closed\<close> the panic of a send on a closed channel. Both end the process.
\<close>

inductive traceCoordinator :: "trace_env \<Rightarrow> coord \<Rightarrow> effect list \<Rightarrow> coord \<Rightarrow> bool" for te s where
  start: "traceCoordinator te s [] s"
| further: "traceCoordinator te s es t \<Longrightarrow> coord_step te t fs u \<Longrightarrow> traceCoordinator te s (es @ fs) u"

text \<open>One root transaction: it is announced, and when that frame is written it is traced.\<close>

definition trace_started :: "ton_lib \<Rightarrow> client_ref \<Rightarrow> string \<Rightarrow> string \<Rightarrow> transaction \<Rightarrow> effect list" where
  "trace_started tlib c i traceID tx = sendEvent c ''trace_started'' (JObj
     [(''trace_id'', JStr traceID), (''root_tx'', serializeTransaction tlib tx), (''subscription_id'', JStr i)])"

definition trace_env_of :: "ton_lib \<Rightarrow> client_ref \<Rightarrow> WSBridge \<Rightarrow> trace_limits \<Rightarrow> transaction \<Rightarrow> trace_env" where
  "trace_env_of tlib c b lim tx =
     \<lparr>te_lib = tlib, te_client = c, te_traceID = hex_encode (tx_Hash tx), te_limits = lim,
      te_maxResolvers = MaxResolvers (SubscribeTrace (Namespaces (cfg b)))\<rparr>"

inductive trace_iteration ::
  "ton_lib \<Rightarrow> client_ref \<Rightarrow> nat \<Rightarrow> WSBridge \<Rightarrow> sub_loop \<Rightarrow> loop_input \<Rightarrow> effect list \<Rightarrow> next_step \<Rightarrow> bool" for tlib c n b where
  closed: "in_tx i = None \<Longrightarrow> trace_iteration tlib c n b (TraceLoop addr lt lim) i [] Stop"
| unsent: "in_tx i = Some tx \<Longrightarrow> \<not> in_sent i 0 \<Longrightarrow>
    trace_iteration tlib c n b (TraceLoop addr lt lim) i
      (trace_started tlib c (sub_id n) (hex_encode (tx_Hash tx)) tx) Stop"
| traced: "in_tx i = Some tx \<Longrightarrow> in_sent i 0 \<Longrightarrow> te = trace_env_of tlib c b lim tx \<Longrightarrow>
    traceCoordinator te (coord_start te tx) es s \<Longrightarrow> co_phase s \<in> {Finished, ChanClosed} \<Longrightarrow>
    trace_iteration tlib c n b (TraceLoop addr lt lim) i
      (trace_started tlib c (sub_id n) (hex_encode (tx_Hash tx)) tx @ es) (Continue (TraceLoop addr lt lim))"

end
