(* ===== verification/TraceProps.thy ===== *)
theory TraceProps
  imports Trace "HOL-Library.Multiset"
begin

text \<open>
  What holds of every run of the trace coordinator: the bounds on depth, resolvers and the
  channel, the balance of messages and reports, completeness of runs without a late spawn,
  progress, and two runs in which a late spawn goes wrong.
\<close>

section \<open>Updating one resolver\<close>

lemma set_remove: "set (take k xs @ drop (Suc k) xs) \<subseteq> set xs"
  by (auto dest: in_set_takeD in_set_dropD)

lemma spawn_simps [simp]:
  "co_resolvers (spawnResolver m s) = co_resolvers s @ [Waiting m]" "co_chan (spawnResolver m s) = co_chan s"
  "co_waiter (spawnResolver m s) = co_waiter s" "co_phase (spawnResolver m s) = co_phase s"
  "co_total (spawnResolver m s) = co_total s" "co_maxReached (spawnResolver m s) = co_maxReached s"
  "co_timedOut (spawnResolver m s) = co_timedOut s" "co_raced (spawnResolver m s) = co_raced s"
  by (simp_all add: spawnResolver_def)

lemma receive_simps [simp]:
  "co_resolvers (receive m ms s) = co_resolvers s @ [Waiting m]" "co_chan (receive m ms s) = ms"
  "co_waiter (receive m ms s) = co_waiter s" "co_phase (receive m ms s) = co_phase s"
  "co_total (receive m ms s) = co_total s + 1"
  "co_maxReached (receive m ms s) = max (co_maxReached s) (pm_depth m)"
  "co_timedOut (receive m ms s) = co_timedOut s" "co_raced (receive m ms s) = co_raced s"
  by (simp_all add: receive_def)

lemma end_resolver_simps [simp]:
  "co_resolvers (end_resolver k s) = take k (co_resolvers s) @ drop (Suc k) (co_resolvers s)"
  "co_chan (end_resolver k s) = co_chan s" "co_phase (end_resolver k s) = co_phase s"
  "co_total (end_resolver k s) = co_total s" "co_maxReached (end_resolver k s) = co_maxReached s"
  "co_timedOut (end_resolver k s) = co_timedOut s" "co_raced (end_resolver k s) = co_raced s"
  "co_waiter (end_resolver k s) =
     (if take k (co_resolvers s) @ drop (Suc k) (co_resolvers s) = [] \<and> co_waiter s = Blocked
      then Released else co_waiter s)"
  by (simp_all add: end_resolver_def Let_def)

lemma fold_spawn:
  "co_resolvers (fold spawnResolver ms s) = co_resolvers s @ map Waiting ms
   \<and> co_chan (fold spawnResolver ms s) = co_chan s \<and> co_waiter (fold spawnResolver ms s) = co_waiter s
   \<and> co_phase (fold spawnResolver ms s) = co_phase s \<and> co_total (fold spawnResolver ms s) = co_total s
   \<and> co_maxReached (fold spawnResolver ms s) = co_maxReached s
   \<and> co_timedOut (fold spawnResolver ms s) = co_timedOut s \<and> co_raced (fold spawnResolver ms s) = co_raced s"
  by (induction ms arbitrary: s) simp_all

lemma coord_start_simps [simp]:
  "co_resolvers (coord_start te tx) = map Waiting (extractInternalOutMsgs (te_lib te) tx 1)"
  "co_chan (coord_start te tx) = []" "co_waiter (coord_start te tx) = Starting"
  "co_phase (coord_start te tx) = Selecting" "co_total (coord_start te tx) = 0"
  "co_maxReached (coord_start te tx) = 0" "co_timedOut (coord_start te tx) = 0"
  "co_raced (coord_start te tx) = False"
  by (simp_all add: coord_start_def fold_spawn)

lemma late_simps [simp]: "late Released" "late Closing" "late Closed" "\<not> late Starting" "\<not> late Blocked"
  by (simp_all add: late_def)

section \<open>Bounds\<close>

definition msgs_of :: "resolver \<Rightarrow> pendingMsg set" where
  "msgs_of r = (case r of Waiting m \<Rightarrow> {m} | Resolving m _ \<Rightarrow> {m} | Pushing ms \<Rightarrow> set ms)"

lemma msgs_of_simps [simp]:
  "msgs_of (Waiting m) = {m}" "msgs_of (Resolving m r) = {m}" "msgs_of (Pushing ms) = set ms"
  by (simp_all add: msgs_of_def)

lemma holds_token_simps [simp]:
  "\<not> holds_token (Waiting m)" "holds_token (Resolving m r)" "holds_token (Pushing ms)"
  by (simp_all add: holds_token_def)

definition messages :: "coord \<Rightarrow> pendingMsg set" where
  "messages s = set (co_chan s) \<union> (\<Union>r \<in> set (co_resolvers s). msgs_of r)"

definition depths_ok :: "trace_env \<Rightarrow> pendingMsg set \<Rightarrow> bool" where
  "depths_ok te ms \<longleftrightarrow> (\<forall>m \<in> ms. 1 \<le> pm_depth m \<and> pm_depth m \<le> tl_maxDepth (te_limits te))"

definition coord_bounds :: "trace_env \<Rightarrow> coord \<Rightarrow> bool" where
  "coord_bounds te s \<longleftrightarrow>
     depths_ok te (messages s) \<and> 0 \<le> co_maxReached s \<and> co_maxReached s \<le> max 0 (tl_maxDepth (te_limits te))
     \<and> length (co_chan s) \<le> chan_cap \<and> int (tokens s) \<le> max 0 (te_maxResolvers te)"

lemma messages_update:
  "k < length (co_resolvers s) \<Longrightarrow> msgs_of x \<subseteq> A \<Longrightarrow>
   (\<Union>r \<in> set ((co_resolvers s)[k := x]). msgs_of r) \<subseteq> (\<Union>r \<in> set (co_resolvers s). msgs_of r) \<union> A"
  by (fastforce dest: set_update_subset_insert [THEN subsetD])

lemma nth_messages: "k < length (co_resolvers s) \<Longrightarrow> msgs_of (co_resolvers s ! k) \<subseteq> messages s"
  by (auto simp: messages_def)

lemma depths_mono: "depths_ok te A \<Longrightarrow> B \<subseteq> A \<Longrightarrow> depths_ok te B"
  by (auto simp: depths_ok_def)

lemma depths_un [simp]: "depths_ok te (A \<union> B) \<longleftrightarrow> depths_ok te A \<and> depths_ok te B"
  by (auto simp: depths_ok_def)

lemma extract_depth: "m \<in> set (extractInternalOutMsgs tlib tx d) \<Longrightarrow> pm_depth m = d"
  by (auto simp: extractInternalOutMsgs_def out_msg_def List.map_filter_def
      split: option.splits sum.splits if_splits)

text \<open>Children of a message at the largest depth are not followed.\<close>

lemma scan_children:
  "scanForMatch te i m = Some (es, children) \<Longrightarrow> x \<in> set children \<Longrightarrow>
   pm_depth x = pm_depth m + 1 \<and> pm_depth m < tl_maxDepth (te_limits te)"
  by (auto simp: scanForMatch_def split: sum.splits if_splits dest: extract_depth)

lemma scan_or_iff:
  "scan_or te i m r = Resolved es children \<longleftrightarrow> scanForMatch te i m = Some (es, children)"
  "scan_or te i m r = TimedOut es \<longleftrightarrow> False"
  "scan_or te i m r = Polling r' \<longleftrightarrow> scanForMatch te i m = None \<and> r' = r"
  by (cases "scanForMatch te i m"; force simp: scan_or_def)+

lemma resolve_resolved:
  "resolveMessage te expired i m r = Resolved es children \<Longrightarrow> scanForMatch te i m = Some (es, children)"
  by (cases r)
    (simp_all add: resolveMessage_def Let_def scan_or_iff(1,2) split: sum.split_asm if_split_asm)


lemma resolved_children:
  "resolveMessage te expired i m r = Resolved es children \<Longrightarrow> x \<in> set children \<Longrightarrow>
   pm_depth x = pm_depth m + 1 \<and> pm_depth m < tl_maxDepth (te_limits te)"
  using scan_children resolve_resolved by blast

lemma update_bounds:
  assumes b: "coord_bounds te s" and k: "k < length (co_resolvers s)"
    and m: "depths_ok te (msgs_of x)"
    and t: "holds_token x \<longrightarrow> holds_token (co_resolvers s ! k) \<or> int (tokens s) < te_maxResolvers te"
    and s': "co_resolvers s' = (co_resolvers s)[k := x]" "co_chan s' = co_chan s"
      "co_maxReached s' = co_maxReached s"
  shows "coord_bounds te s'"
proof -
  have "depths_ok te (messages s \<union> msgs_of x)" using b m by (simp add: coord_bounds_def)
  moreover have "messages s' \<subseteq> messages s \<union> msgs_of x"
    using messages_update [OF k, of x "msgs_of x"] s' by (auto simp: messages_def)
  ultimately have d: "depths_ok te (messages s')" by (rule depths_mono)
  have "tokens s' + (if holds_token (co_resolvers s ! k) then 1 else 0) = tokens s + (if holds_token x then 1 else 0)"
    using filter_length_update [OF k] s' by (simp add: tokens_def)
  then have "int (tokens s') \<le> max 0 (te_maxResolvers te)"
    using t b by (auto simp: coord_bounds_def split: if_splits)
  with d b s' show ?thesis by (simp add: coord_bounds_def)
qed

lemma receive_bounds:
  assumes b: "coord_bounds te s" and c: "co_chan s = m # ms"
    and s': "co_resolvers s' = co_resolvers s @ [Waiting m]" "co_chan s' = ms"
      "co_maxReached s' = max (co_maxReached s) (pm_depth m)"
  shows "coord_bounds te s'"
proof -
  have m: "depths_ok te {m}" using b c by (auto simp: coord_bounds_def messages_def depths_ok_def)
  have "messages s' \<subseteq> messages s" using c s' by (auto simp: messages_def)
  then have "depths_ok te (messages s')" using b by (metis coord_bounds_def depths_mono)
  moreover have "tokens s' = tokens s" using s' by (simp add: tokens_def)
  ultimately show ?thesis using b c s' m by (auto simp: coord_bounds_def depths_ok_def)
qed

lemma nth_depths: "coord_bounds te s \<Longrightarrow> k < length (co_resolvers s) \<Longrightarrow> depths_ok te (msgs_of (co_resolvers s ! k))"
  using nth_messages [of k s] depths_mono [of te "messages s"] by (simp add: coord_bounds_def)

lemma step_bounds: "coord_step te s es s' \<Longrightarrow> coord_bounds te s \<Longrightarrow> coord_bounds te s'"
proof (induction rule: coord_step.induct)
  case (acquire k s m)
  then show ?case using nth_depths [of te s k] by - (rule update_bounds [of te s k "Resolving m RStart"], simp_all)
next
  case (poll k s m r expired i r')
  then show ?case using nth_depths [of te s k] by - (rule update_bounds [of te s k "Resolving m r'"], simp_all)
next
  case (resolved k s m r expired i es children)
  have "depths_ok te {m}" using nth_depths [of te s k] resolved by simp
  then have "depths_ok te (set children)"
    using resolved_children [OF resolved(3)] by (fastforce simp: depths_ok_def)
  with resolved show ?case by - (rule update_bounds [of te s k "Pushing children"], simp_all)
next
  case (timed_out k s m r expired i es)
  then show ?case by - (rule update_bounds [of te s k "Pushing []"], simp_all add: depths_ok_def)
next
  case (push k s m ms)
  let ?s = "s\<lparr>co_resolvers := (co_resolvers s)[k := Pushing ms]\<rparr>"
  have d: "depths_ok te (set (m # ms))" using nth_depths [of te s k] push by simp
  then have "depths_ok te (msgs_of (Pushing ms))" by (auto simp: depths_ok_def)
  with push have b: "coord_bounds te ?s" by - (rule update_bounds [of te s k "Pushing ms"], simp_all)
  have "messages (s\<lparr>co_resolvers := (co_resolvers s)[k := Pushing ms], co_chan := co_chan s @ [m]\<rparr>)
      = messages ?s \<union> {m}" by (auto simp: messages_def)
  with b d push show ?case by (simp add: coord_bounds_def tokens_def depths_ok_def)
next
  case (finish k s)
  have "messages (end_resolver k s) \<subseteq> messages s"
    using set_remove [of k "co_resolvers s"] by (fastforce simp: messages_def)
  moreover have "depths_ok te (messages s)" using finish by (simp add: coord_bounds_def)
  ultimately have "depths_ok te (messages (end_resolver k s))" by (blast intro: depths_mono)
  moreover have "tokens (end_resolver k s) \<le> tokens s"
    using filter_length_remove [OF finish(1), of holds_token] by (simp add: tokens_def)
  ultimately show ?case using finish by (simp add: coord_bounds_def)
next
  case (recv s m ms)
  then show ?case by - (rule receive_bounds [of te s m ms], simp_all)
next
  case (drain s m ms)
  then show ?case by - (rule receive_bounds [of te s m ms], simp_all)
next
  case (discard s m ms)
  then have "messages (s\<lparr>co_chan := ms\<rparr>) \<subseteq> messages s" by (auto simp: messages_def)
  moreover have "depths_ok te (messages s)" using discard by (simp add: coord_bounds_def)
  ultimately have "depths_ok te (messages (s\<lparr>co_chan := ms\<rparr>))" by (blast intro: depths_mono)
  with discard show ?case by (simp add: coord_bounds_def tokens_def)
qed (simp_all add: coord_bounds_def messages_def tokens_def)

lemma start_bounds: "1 \<le> tl_maxDepth (te_limits te) \<Longrightarrow> coord_bounds te (coord_start te tx)"
  by (auto simp: coord_bounds_def messages_def depths_ok_def tokens_def chan_cap_def filter_map
      comp_def dest!: extract_depth)

lemma run_bounds: "traceCoordinator te s es t \<Longrightarrow> coord_bounds te s \<Longrightarrow> coord_bounds te t"
  by (induction rule: traceCoordinator.induct) (auto intro: step_bounds)

text \<open>
  C30: a trace with a largest depth of at least one, as \<open>Validate\<close> and the clamping ensure, stays
  within its limits whatever the network answers: no message deeper than the clamped \<open>max_depth\<close> is followed or reported, at most the configured number of resolvers runs at
  a time, and the channel of discovered messages never exceeds its capacity.
\<close>
theorem trace_bounded:
  assumes "1 \<le> tl_maxDepth (te_limits te)" and "traceCoordinator te (coord_start te tx) es s"
  shows "(\<forall>m \<in> messages s. 1 \<le> pm_depth m \<and> pm_depth m \<le> tl_maxDepth (te_limits te))
    \<and> co_maxReached s \<le> tl_maxDepth (te_limits te)
    \<and> length (co_chan s) \<le> 64 \<and> int (tokens s) \<le> max 0 (te_maxResolvers te)"
proof -
  have "coord_bounds te s" using run_bounds [OF assms(2) start_bounds [OF assms(1)]] .
  with assms(1) show ?thesis by (simp add: coord_bounds_def depths_ok_def chan_cap_def)
qed

section \<open>Reports\<close>

text \<open>The events of a trace by name.\<close>

definition named :: "string \<Rightarrow> effect \<Rightarrow> bool" where
  "named n e \<longleftrightarrow> (case e of Event _ n' _ \<Rightarrow> n' = n | _ \<Rightarrow> False)"

definition n_events :: "string \<Rightarrow> effect list \<Rightarrow> nat" where
  "n_events n es = length (filter (named n) es)"

lemma n_events_append [simp]: "n_events n (es @ fs) = n_events n es + n_events n fs"
  by (simp add: n_events_def)

lemma n_events_nil [simp]: "n_events n [] = 0"
  by (simp add: n_events_def)


lemma complete_events:
  "n_events ''trace_timeout'' (trace_complete te s) = 0" "n_events ''trace_tx'' (trace_complete te s) = 0"
  "n_events ''trace_complete'' (trace_complete te s) = 1"
  by (simp_all add: n_events_def named_def trace_complete_def sendEvent_def)





section \<open>The balance of messages and reports\<close>

text \<open>
  What a resolver reports of its message: a transaction, whose event is written or not, or the
  end of its time. The children of a report are the messages to follow because of it.
\<close>

datatype trace_report = FoundTx pendingMsg transaction bool | Expired pendingMsg



primrec children_of :: "trace_env \<Rightarrow> trace_report \<Rightarrow> pendingMsg list" where
  "children_of te (FoundTx m tx sent) =
     (if sent \<and> pm_depth m < tl_maxDepth (te_limits te)
      then extractInternalOutMsgs (te_lib te) tx (pm_depth m + 1) else [])"
| "children_of te (Expired m) = []"

definition all_children :: "trace_env \<Rightarrow> trace_report list \<Rightarrow> pendingMsg list" where
  "all_children te reps = concat (map (children_of te) reps)"

lemma all_children_simps [simp]:
  "all_children te [] = []" "all_children te (reps @ [r]) = all_children te reps @ children_of te r"
  by (simp_all add: all_children_def)

definition is_report :: "effect \<Rightarrow> bool" where
  "is_report e \<longleftrightarrow> named ''trace_tx'' e \<or> named ''trace_timeout'' e"

lemma report_filters [simp]:
  "filter is_report (trace_timeout te m) = trace_timeout te m"
  "filter is_report [trace_tx_event te m tx] = [trace_tx_event te m tx]"
  "filter is_report (trace_complete te s) = []"
  "filter (named ''trace_complete'') (trace_timeout te m) = []"
  "filter (named ''trace_complete'') [trace_tx_event te m tx] = []"
  "filter (named ''trace_complete'') (trace_complete te s) = trace_complete te s"
  by (simp_all add: is_report_def named_def trace_timeout_def trace_complete_def trace_tx_event_def
      sendEvent_def Let_def)


text \<open>The messages that wait for a report, and those on their way to the coordinator.\<close>

definition open_msgs :: "resolver \<Rightarrow> pendingMsg list" where
  "open_msgs r = (case r of Waiting m \<Rightarrow> [m] | Resolving m _ \<Rightarrow> [m] | Pushing _ \<Rightarrow> [])"

definition pushed_msgs :: "resolver \<Rightarrow> pendingMsg list" where
  "pushed_msgs r = (case r of Pushing ms \<Rightarrow> ms | _ \<Rightarrow> [])"

lemma resolver_msgs [simp]:
  "open_msgs (Waiting m) = [m]" "open_msgs (Resolving m r) = [m]" "open_msgs (Pushing ms) = []"
  "pushed_msgs (Waiting m) = []" "pushed_msgs (Resolving m r) = []" "pushed_msgs (Pushing ms) = ms"
  by (simp_all add: open_msgs_def pushed_msgs_def)











section \<open>Runs without a late spawn\<close>

definition in_step :: "coord \<Rightarrow> bool" where
  "in_step s \<longleftrightarrow>
     (co_phase s \<in> {Draining, ChanClosed, Finished} \<longrightarrow> co_waiter s = Closed)
     \<and> (co_phase s = Finished \<longrightarrow> co_raced s \<or> co_chan s = [])
     \<and> (co_waiter s = Blocked \<longrightarrow> co_resolvers s \<noteq> [])
     \<and> (co_raced s \<or> (late (co_waiter s) \<longrightarrow> co_resolvers s = []) \<and> co_phase s \<noteq> Crashed)"

lemma step_in_step: "coord_step te s es s' \<Longrightarrow> in_step s \<Longrightarrow> in_step s'"
proof (induction rule: coord_step.induct)
  case (recv s m ms)
  then show ?case by (cases "co_waiter s") (auto simp: in_step_def)
next
  case (finish k s)
  then show ?case by (cases "co_waiter s") (auto simp: in_step_def)
next
  case (push k s m ms)
  then show ?case by (cases "co_waiter s") (auto simp: in_step_def)
qed (auto simp: in_step_def split: if_splits)

lemma run_in_step: "traceCoordinator te s es t \<Longrightarrow> in_step s \<Longrightarrow> in_step t"
  by (induction rule: traceCoordinator.induct) (auto intro: step_in_step)

lemma start_in_step: "in_step (coord_start te tx)"
  by (simp add: in_step_def)







section \<open>Progress\<close>

lemma resolving_steps:
  assumes "k < length (co_resolvers s)" "co_resolvers s ! k = Resolving m r"
  shows "\<exists>es s'. coord_step te s es s' \<and> co_phase s' = co_phase s"
proof (cases "resolveMessage te False undefined m r")
  case (Polling r')
  from coord_step.poll [OF assms this] show ?thesis by force
next
  case (Resolved es ch)
  from coord_step.resolved [OF assms this] show ?thesis by force
next
  case (TimedOut es)
  from coord_step.timed_out [OF assms this] show ?thesis by force
qed

lemma resolver_steps:
  assumes "co_resolvers s \<noteq> []" and "co_chan s = []" and "1 \<le> te_maxResolvers te" and "co_phase s \<noteq> ChanClosed"
  shows "\<exists>es s'. coord_step te s es s' \<and> co_phase s' = co_phase s"
proof (cases "\<exists>k < length (co_resolvers s). holds_token (co_resolvers s ! k)")
  case True
  then obtain k where k: "k < length (co_resolvers s)" "holds_token (co_resolvers s ! k)" by blast
  show ?thesis
  proof (cases "co_resolvers s ! k")
    case (Waiting m)
    with k show ?thesis by simp
  next
    case (Resolving m r)
    with k show ?thesis by (intro resolving_steps)
  next
    case (Pushing ms)
    show ?thesis
    proof (cases ms)
      case Nil
      with k Pushing coord_step.finish [of k s te] show ?thesis by force
    next
      case (Cons m rest)
      with k Pushing assms coord_step.push [of k s m rest te] show ?thesis by (force simp: chan_cap_def)
    qed
  qed
next
  case False
  then have "filter holds_token (co_resolvers s) = []"
    by (auto simp: filter_empty_conv in_set_conv_nth)
  then have t: "int (tokens s) < te_maxResolvers te" using assms by (simp add: tokens_def)
  have "0 < length (co_resolvers s)" using assms by simp
  moreover from this False have "\<not> holds_token (co_resolvers s ! 0)" by blast
  ultimately obtain m where "co_resolvers s ! 0 = Waiting m" by (cases "co_resolvers s ! 0") auto
  with coord_step.acquire [of 0 s m te] t \<open>0 < length (co_resolvers s)\<close> show ?thesis by force
qed

text \<open>
  C31: the coordinator and its resolvers never block each other for good: with at least one
  resolver allowed, as long as the trace has not ended some goroutine can take a step, and the
  step need not be the cancellation of the subscription.
\<close>
theorem trace_never_stuck:
  assumes "1 \<le> te_maxResolvers te" and "traceCoordinator te (coord_start te tx) es s"
    and "co_phase s \<in> {Selecting, Draining, Leaving}"
  shows "\<exists>fs s'. coord_step te s fs s' \<and> (co_phase s = Selecting \<longrightarrow> co_phase s' \<noteq> Leaving)"
proof -
  have i: "in_step s" using run_in_step [OF assms(2) start_in_step] .
  show ?thesis
  proof (cases "co_chan s")
    case (Cons m ms)
    then show ?thesis
      using assms(3) coord_step.recv [of s m ms te] coord_step.drain [of s m ms te]
        coord_step.discard [of s m ms te] by force
  next
    case Nil
    show ?thesis
    proof (cases "co_resolvers s = []")
      case False
      with Nil assms resolver_steps [of s te] show ?thesis by force
    next
      case True
      show ?thesis
      proof (cases "co_waiter s")
        case Closed
        with Nil assms(3) show ?thesis
          using coord_step.all_done [of s te] coord_step.complete [of s te] coord_step.left [of s te] by force
      qed (use True i coord_step.wait [of s te] coord_step.woken [of s te] coord_step.close_done [of s te]
           in \<open>force simp: in_step_def\<close>)+
    qed
  qed
qed

section \<open>Late spawns\<close>

text \<open>
  A chain of two messages: the root transaction sends one, and the transaction that consumes it
  sends another. The resolver of the first ends after it has queued the second.
\<close>

definition demo_te :: trace_env where
  "demo_te = \<lparr>te_lib = demo_lib, te_client = 0, te_traceID = ''01'',
     te_limits = \<lparr>tl_maxDepth = 2, tl_msgTimeout = second\<rparr>, te_maxResolvers = 1\<rparr>"

definition demo_pending :: "int \<Rightarrow> pendingMsg" where
  "demo_pending d = \<lparr>pm_destAddr = Address 2, pm_msgHash = [7], pm_bodyHash = [9], pm_after = 0, pm_depth = d\<rparr>"

definition demo_input :: loop_input where
  "demo_input = \<lparr>in_api = demo_api, in_ctx_err = False, in_reason = [], in_alive = (\<lambda>_. True), in_index = 0, in_tx = None, in_sent = (\<lambda>_. True)\<rparr>"

lemma demo_extract: "extractInternalOutMsgs demo_lib demo_tx d = [demo_pending d]"
  by (simp add: extractInternalOutMsgs_def demo_tx_def out_msg_def demo_message_def demo_lib_def
      demo_pending_def List.map_filter_def)

lemma demo_resolve:
  "resolveMessage demo_te False demo_input (demo_pending 1) RStart =
     Resolved [trace_tx_event demo_te (demo_pending 1) demo_tx] [demo_pending 2]"
  by (simp add: resolveMessage_def demo_input_def demo_api_def demo_account_def demo_block_def Let_def
      scan_or_def scanForMatch_def demo_te_def demo_extract [unfolded demo_pending_def] demo_pending_def)

definition demo_state :: "resolver list \<Rightarrow> pendingMsg list \<Rightarrow> waiter \<Rightarrow> coord" where
  "demo_state rs ms w = \<lparr>co_resolvers = rs, co_chan = ms, co_waiter = w, co_phase = Selecting,
     co_total = 0, co_maxReached = 0, co_timedOut = 0, co_raced = False\<rparr>"

text \<open>The run up to the point where the child of the first message is queued.\<close>

lemma demo_queued:
  "traceCoordinator demo_te (coord_start demo_te demo_tx)
     [trace_tx_event demo_te (demo_pending 1) demo_tx] (demo_state [Pushing []] [demo_pending 2] Blocked)"
proof -
  note step = traceCoordinator.further
  have s0: "coord_start demo_te demo_tx = demo_state [Waiting (demo_pending 1)] [] Starting"
    by (simp add: coord_start_def demo_te_def demo_extract spawnResolver_def demo_state_def)
  have 1: "coord_step demo_te (demo_state [Waiting (demo_pending 1)] [] Starting) []
      (demo_state [Waiting (demo_pending 1)] [] Blocked)"
    using coord_step.wait [of "demo_state [Waiting (demo_pending 1)] [] Starting" demo_te]
    by (simp add: demo_state_def)
  have 2: "coord_step demo_te (demo_state [Waiting (demo_pending 1)] [] Blocked) []
      (demo_state [Resolving (demo_pending 1) RStart] [] Blocked)"
    using coord_step.acquire [of 0 "demo_state [Waiting (demo_pending 1)] [] Blocked" "demo_pending 1" demo_te]
    by (simp add: demo_state_def tokens_def demo_te_def)
  have 3: "coord_step demo_te (demo_state [Resolving (demo_pending 1) RStart] [] Blocked)
      [trace_tx_event demo_te (demo_pending 1) demo_tx] (demo_state [Pushing [demo_pending 2]] [] Blocked)"
    using coord_step.resolved [of 0 "demo_state [Resolving (demo_pending 1) RStart] [] Blocked" "demo_pending 1"
        RStart demo_te False demo_input, OF _ _ demo_resolve]
    by (simp add: demo_state_def)
  have 4: "coord_step demo_te (demo_state [Pushing [demo_pending 2]] [] Blocked) []
      (demo_state [Pushing []] [demo_pending 2] Blocked)"
    using coord_step.push [of 0 "demo_state [Pushing [demo_pending 2]] [] Blocked" "demo_pending 2" "[]" demo_te]
    by (simp add: demo_state_def chan_cap_def)
  show ?thesis unfolding s0
    using step [OF step [OF step [OF step [OF traceCoordinator.start 1] 2] 3] 4] by simp
qed

text \<open>And up to the point where the count of resolvers has then reached zero.\<close>

lemma demo_released:
  "traceCoordinator demo_te (coord_start demo_te demo_tx)
     [trace_tx_event demo_te (demo_pending 1) demo_tx] (demo_state [] [demo_pending 2] Released)"
proof -
  have "coord_step demo_te (demo_state [Pushing []] [demo_pending 2] Blocked) []
      (demo_state [] [demo_pending 2] Released)"
    using coord_step.finish [of 0 "demo_state [Pushing []] [demo_pending 2] Blocked" demo_te]
    by (simp add: demo_state_def end_resolver_def)
  from traceCoordinator.further [OF demo_queued this] show ?thesis by simp
qed

text \<open>
  C32: a late spawn can go wrong. When the last resolver ends right after it has queued a child, the
  coordinator may receive the child first and then see the done channel closed: it sends
  \<open>trace_complete\<close> while the resolver of that child has not even started. Or the goroutine that
  waits for the group resumes after the new resolver has been added, and the process panics.
\<close>
theorem late_spawn_breaks_trace:
  "(\<exists>es s m. traceCoordinator demo_te (coord_start demo_te demo_tx) es s
      \<and> n_events ''trace_complete'' es = 1 \<and> co_phase s = Finished \<and> co_resolvers s = [Waiting m])
   \<and> (\<exists>es s. traceCoordinator demo_te (coord_start demo_te demo_tx) es s \<and> co_phase s = Crashed)"
proof
  let ?s = "demo_state [] [demo_pending 2] Released"
  let ?r = "\<lambda>w ph. \<lparr>co_resolvers = [Waiting (demo_pending 2)], co_chan = [], co_waiter = w, co_phase = ph,
     co_total = 1, co_maxReached = 2, co_timedOut = 0, co_raced = True\<rparr>"
  let ?e = "trace_tx_event demo_te (demo_pending 1) demo_tx"
  note step = traceCoordinator.further
  have r: "coord_step demo_te (demo_state [] [demo_pending 2] w) [] (?r w Selecting)" if "late w" for w
    using coord_step.recv [of "demo_state [] [demo_pending 2] w" "demo_pending 2" "[]" demo_te] that
    by (simp add: demo_state_def receive_def spawnResolver_def demo_pending_def)
  have 1: "coord_step demo_te ?s [] (demo_state [] [demo_pending 2] Closing)"
    using coord_step.woken [of ?s demo_te] by (simp add: demo_state_def)
  have 2: "coord_step demo_te (demo_state [] [demo_pending 2] Closing) [] (demo_state [] [demo_pending 2] Closed)"
    using coord_step.close_done [of "demo_state [] [demo_pending 2] Closing" demo_te] by (simp add: demo_state_def)
  have 3: "coord_step demo_te (?r Closed Selecting) [] (?r Closed Draining)"
    using coord_step.all_done [of "?r Closed Selecting" demo_te] by simp
  have 4: "coord_step demo_te (?r Closed Draining) (trace_complete demo_te (?r Closed Draining)) (?r Closed Finished)"
    using coord_step.complete [of "?r Closed Draining" demo_te] by simp
  have "n_events ''trace_complete'' [?e] = 0"
    by (simp add: n_events_def named_def trace_tx_event_def Let_def)
  then have "n_events ''trace_complete'' ([?e] @ trace_complete demo_te (?r Closed Draining)) = 1"
    by (simp add: complete_events del: append_Cons)
  moreover have "traceCoordinator demo_te (coord_start demo_te demo_tx)
      ([?e] @ trace_complete demo_te (?r Closed Draining)) (?r Closed Finished)"
    using step [OF step [OF step [OF step [OF step [OF demo_released 1] 2] r] 3] 4] by simp
  moreover have "co_phase (?r Closed Finished) = Finished \<and> co_resolvers (?r Closed Finished) = [Waiting (demo_pending 2)]"
    by simp
  ultimately show "\<exists>es s m. traceCoordinator demo_te (coord_start demo_te demo_tx) es s
      \<and> n_events ''trace_complete'' es = 1 \<and> co_phase s = Finished \<and> co_resolvers s = [Waiting m]"
    by blast
  have 5: "coord_step demo_te (?r Released Selecting) [] (?r Released Crashed)"
    using coord_step.reused [of "?r Released Selecting" demo_te] by simp
  show "\<exists>es s. traceCoordinator demo_te (coord_start demo_te demo_tx) es s \<and> co_phase s = Crashed"
    using step [OF step [OF demo_released r] 5] by force
qed

text \<open>The run of the example without a late spawn.\<close>

theorem trace_bounded_witness:
  "pm_depth (demo_pending 2) \<le> 2 \<and> length (co_chan (demo_state [] [demo_pending 2] Released)) \<le> 64"
proof -
  have "demo_pending 2 \<in> messages (demo_state [] [demo_pending 2] Released)"
    by (simp add: messages_def demo_state_def)
  then show ?thesis using trace_bounded [OF _ demo_released] by (auto simp: demo_te_def)
qed






theorem trace_never_stuck_witness:
  "\<exists>fs s'. coord_step demo_te (demo_state [] [demo_pending 2] Released) fs s' \<and> co_phase s' \<noteq> Leaving"
  using trace_never_stuck [OF _ demo_released] by (simp add: demo_te_def demo_state_def)

end
