(* ===== verification/JsonNumber.thy ===== *)
theory JsonNumber
  imports GoDuration JsonRpc
begin

text \<open>
  JSON numbers decoded into \<open>any\<close>, which Go makes a \<open>float64\<close>, and the decimal parser of
  \<open>big.Int\<close>. \<open>lite.runMethod\<close> meets both.
\<close>

section \<open>Decimal digits\<close>

definition digits_value :: "string \<Rightarrow> nat" where
  "digits_value s = foldl (\<lambda>a c. a * 10 + (char_code c - 48)) 0 s"

lemma digit_props: "n < 10 \<Longrightarrow> char_code (hex_digit n) - 48 = n \<and> dur_digit (hex_digit n)"
  by (auto simp: hex_digit_def dur_digit_def char_code_def)

lemma show_nat_value: "digits_value (show_nat n) = n \<and> list_all dur_digit (show_nat n)"
proof (induction n rule: show_nat.induct)
  case (1 n)
  show ?case
  proof (cases "n < 10")
    case True
    then show ?thesis by (subst (1 2) show_nat.simps) (simp add: digits_value_def digit_props)
  next
    case False
    with 1 have "digits_value (show_nat (n div 10)) = n div 10 \<and> list_all dur_digit (show_nat (n div 10))"
      by blast
    with False show ?thesis
      by (subst (1 2) show_nat.simps) (simp add: digits_value_def digit_props)
  qed
qed

text \<open>\<open>SetString(s, 10)\<close>: an optional sign and at least one digit.\<close>

definition SetString10 :: "string \<Rightarrow> int option" where
  "SetString10 s =
     (let neg = (s \<noteq> [] \<and> hd s = CHR ''-''); pos = (s \<noteq> [] \<and> hd s = CHR ''+'');
          body = (if neg \<or> pos then tl s else s)
      in if body = [] \<or> \<not> list_all dur_digit body then None
         else Some (if neg then - int (digits_value body) else int (digits_value body)))"

lemma dur_digit_sign: "\<not> dur_digit CHR ''-''" "\<not> dur_digit CHR ''+''" "\<not> dur_digit CHR ''e''"
  "\<not> dur_digit CHR ''E''" "\<not> dur_digit CHR ''.''"
  by (simp_all add: dur_digit_def char_code_def)

lemma SetString10_show: "SetString10 (show_int n) = Some n"
proof (cases "n < 0")
  case True
  then show ?thesis using show_nat_value [of "nat (- n)"] show_nat_nonempty [of "nat (- n)"]
    by (simp add: SetString10_def show_int_def)
next
  case False
  obtain c s where cs: "show_nat (nat n) = c # s" using show_nat_nonempty by (cases "show_nat (nat n)") auto
  with show_nat_value [of "nat n"] have "dur_digit c" by simp
  then have "c \<noteq> CHR ''-''" "c \<noteq> CHR ''+''" using dur_digit_sign by auto
  with False cs show ?thesis using show_nat_value [of "nat n"]
    by (simp add: SetString10_def show_int_def)
qed

section \<open>float64 literals\<close>

text \<open>A literal of the JSON grammar: sign, digits, fraction and exponent.\<close>

definition is_exp :: "char \<Rightarrow> bool" where
  "is_exp c \<longleftrightarrow> c = CHR ''e'' \<or> c = CHR ''E''"

definition exponent_value :: "string \<Rightarrow> int" where
  "exponent_value s =
     (if s \<noteq> [] \<and> hd s = CHR ''-'' then - int (digits_value (tl s))
      else if s \<noteq> [] \<and> hd s = CHR ''+'' then int (digits_value (tl s))
      else int (digits_value s))"

definition literal_ratio :: "string \<Rightarrow> nat \<times> nat" where
  "literal_ratio body =
     (let mant = takeWhile (\<lambda>c. \<not> is_exp c) body;
          whole = takeWhile (\<lambda>c. c \<noteq> CHR ''.'') mant;
          frac = drop (Suc (length whole)) mant;
          k = exponent_value (drop (Suc (length mant)) body) - int (length frac);
          d = digits_value (whole @ frac)
      in if 0 \<le> k then (d * 10 ^ nat k, 1) else (d, 10 ^ nat (- k)))"

text \<open>
  \<open>None\<close> is an overflow, which fails the decoding. Up to half of the smallest subnormal number the
  result is zero; the other subnormal numbers lie below one, where only the rounding to zero
  matters here.
\<close>

definition parse_float :: "string \<Rightarrow> (bool \<times> f64) option" where
  "parse_float s =
     (let neg = (s \<noteq> [] \<and> hd s = CHR ''-''); (a, b) = literal_ratio (if neg then tl s else s) in
      if (2 ^ 1024 - 2 ^ 970) * b \<le> a then None
      else if a * 2 ^ 1075 \<le> b then Some (neg, (0, 0))
      else Some (neg, f64_ratio a b))"

text \<open>\<open>math.Trunc(v) == v\<close> and the integer.\<close>

definition f64_integer :: "f64 \<Rightarrow> nat option" where
  "f64_integer x =
     (if 0 \<le> snd x then Some (fst x * 2 ^ nat (snd x))
      else if fst x mod 2 ^ nat (- snd x) = 0 then Some (fst x div 2 ^ nat (- snd x))
      else None)"

section \<open>Integers as float64\<close>

lemma bit_len_bounds: "0 < n \<Longrightarrow> 2 ^ (bit_len n - 1) \<le> n \<and> n < 2 ^ bit_len n \<and> 0 < bit_len n"
proof (induction n rule: bit_len.induct)
  case (1 n)
  show ?case
  proof (cases "n div 2 = 0")
    case True
    with "1.prems" have "n = 1" by simp
    then show ?thesis by (simp add: bit_len.simps)
  next
    case False
    with 1 have i: "2 ^ (bit_len (n div 2) - 1) \<le> n div 2 \<and> n div 2 < 2 ^ bit_len (n div 2) \<and> 0 < bit_len (n div 2)"
      by simp
    obtain k where k: "bit_len (n div 2) = Suc k" using i gr0_implies_Suc by blast
    have "bit_len n = Suc (Suc k)" using "1.prems" k by (subst bit_len.simps) simp
    with i k show ?thesis by auto
  qed
qed

lemma bit_len_1 [simp]: "bit_len (Suc 0) = 1" "bit_len 1 = 1"
  by (simp_all add: bit_len.simps)

lemma round_div_1 [simp]: "round_div a (Suc 0) = a"
  by (simp add: round_div_def)

lemma round_div_ge: "q \<le> a div b \<Longrightarrow> q \<le> round_div a b"
  by (simp add: round_div_def Let_def)

text \<open>Below \<open>2^53\<close> every natural number is a float.\<close>

lemma f64_small:
  assumes "0 < n" and "n < 2 ^ 53"
  shows "f64_ratio n 1 = (n * 2 ^ (53 - bit_len n), int (bit_len n) - 53) \<and> bit_len n \<le> 53"
proof -
  have bl: "2 ^ (bit_len n - 1) \<le> n" "0 < bit_len n" using bit_len_bounds [OF assms(1)] by auto
  have le: "bit_len n \<le> 53"
  proof (rule ccontr)
    assume "\<not> bit_len n \<le> 53"
    then have "(2::nat) ^ 53 \<le> 2 ^ (bit_len n - 1)" by (intro power_increasing) auto
    with bl assms show False by linarith
  qed
  have "(2::nat) ^ 53 = 2 ^ (bit_len n - 1) * 2 ^ (54 - bit_len n)"
    using le bl by (simp flip: power_add)
  also have "\<dots> \<le> n * 2 ^ (54 - bit_len n)" using bl by simp
  finally have ge: "2 ^ 53 \<le> n * 2 ^ (54 - bit_len n)" .
  have e: "nat (- (int (bit_len n) - 54)) = 54 - bit_len n" "nat (- (int (bit_len n) - 53)) = 53 - bit_len n"
    using le by auto
  from assms le ge e show ?thesis
    by (cases "bit_len n = 53") (simp_all add: f64_ratio_def scale_ratio_def Let_def)
qed

lemma f64_small_integer: "n < 2 ^ 53 \<Longrightarrow> f64_integer (f64_ratio n 1) = Some n"
proof (cases "n = 0")
  case False
  assume a: "n < 2 ^ 53"
  have "nat (- (int (bit_len n) - 53)) = 53 - bit_len n" by auto
  with f64_small [OF _ a] False show ?thesis by (cases "bit_len n = 53") (simp_all add: f64_integer_def)
qed (simp add: f64_ratio_def f64_integer_def)

text \<open>From \<open>2^53\<close> on the mantissa loses bits.\<close>

lemma f64_large:
  assumes "2 ^ 53 \<le> n"
  shows "f64_ratio n 1 = (round_div n (2 ^ (bit_len n - 53)), int (bit_len n) - 53) \<and> 54 \<le> bit_len n"
proof -
  have pos: "0 < n" using assms by (metis gr0I not_le power_not_zero zero_neq_numeral le_zero_eq)
  have bl: "2 ^ (bit_len n - 1) \<le> n" "n < 2 ^ bit_len n" "0 < bit_len n" using bit_len_bounds [OF pos] by auto
  have ge: "54 \<le> bit_len n"
  proof (rule ccontr)
    assume "\<not> 54 \<le> bit_len n"
    then have "(2::nat) ^ bit_len n \<le> 2 ^ 53" by (intro power_increasing) auto
    with bl assms show False by linarith
  qed
  have "bit_len n - 1 = 53 + (bit_len n - 54)" using ge by linarith
  then have "(2::nat) ^ 53 * 2 ^ (bit_len n - 54) = 2 ^ (bit_len n - 1)" by (simp only: power_add)
  then have "2 ^ 53 * 2 ^ (bit_len n - 54) \<le> n" using bl by linarith
  moreover have "nat (int (bit_len n) - 54) = bit_len n - 54" "nat (int (bit_len n) - 53) = bit_len n - 53"
    using ge by auto
  ultimately show ?thesis using ge pos by (simp add: f64_ratio_def scale_ratio_def Let_def)
qed

lemma f64_boundary: "f64_integer (f64_ratio (2 ^ 53) 1) = Some (2 ^ 53)"
  "f64_integer (f64_ratio (2 ^ 53 + 1) 1) = Some (2 ^ 53)"
proof -
  have b: "bit_len (2 ^ 53) = 54" "bit_len (2 ^ 53 + 1) = 54"
    by (simp_all add: bit_len.simps)
  show "f64_integer (f64_ratio (2 ^ 53) 1) = Some (2 ^ 53)"
    using f64_large [of "2 ^ 53"] b by (simp add: f64_integer_def round_div_def)
  show "f64_integer (f64_ratio (2 ^ 53 + 1) 1) = Some (2 ^ 53)"
    using f64_large [of "2 ^ 53 + 1"] b by (simp add: f64_integer_def round_div_def)
qed

lemma f64_beyond:
  assumes "2 ^ 53 + 2 \<le> n"
  shows "\<exists>v. f64_integer (f64_ratio n 1) = Some v \<and> 2 ^ 53 < v"
proof -
  have l: "f64_ratio n 1 = (round_div n (2 ^ (bit_len n - 53)), int (bit_len n) - 53)" "54 \<le> bit_len n"
    using f64_large [of n] assms by auto
  define k where "k = bit_len n - 53"
  have v: "f64_integer (f64_ratio n 1) = Some (round_div n (2 ^ k) * 2 ^ k)"
    using l by (simp add: f64_integer_def k_def nat_diff_distrib)
  have "2 ^ 53 < round_div n (2 ^ k) * 2 ^ k"
  proof (cases "k = 1")
    case True
    have "2 ^ 52 + 1 \<le> n div 2" using assms by simp
    then have "2 ^ 52 + 1 \<le> round_div n 2" by (rule round_div_ge)
    with True show ?thesis by simp
  next
    case False
    with l k_def have k2: "2 \<le> k" by linarith
    have "0 < n" using assms by linarith
    then have "2 ^ (bit_len n - 1) \<le> n" using bit_len_bounds by blast
    moreover have "bit_len n - 1 = 52 + k" using l k_def by linarith
    ultimately have "2 ^ 52 * 2 ^ k \<le> n" by (simp add: power_add)
    then have "2 ^ 52 \<le> n div 2 ^ k" by (simp add: less_eq_div_iff_mult_less_eq)
    then have "2 ^ 52 \<le> round_div n (2 ^ k)" by (rule round_div_ge)
    then have "2 ^ 52 * 2 ^ 2 \<le> round_div n (2 ^ k) * 2 ^ k"
      using k2 by (intro mult_mono power_increasing) auto
    then show ?thesis by simp
  qed
  with v show ?thesis by blast
qed

subsection \<open>Integer literals\<close>

lemma digits_no_exp: "list_all dur_digit s \<Longrightarrow> takeWhile (\<lambda>c. \<not> is_exp c) s = s"
  by (induction s) (use dur_digit_sign in \<open>auto simp: is_exp_def\<close>)

lemma digits_no_dot: "list_all dur_digit s \<Longrightarrow> takeWhile (\<lambda>c. c \<noteq> CHR ''.'') s = s"
  by (induction s) (use dur_digit_sign in auto)

lemma literal_ratio_digits: "literal_ratio (show_nat n) = (n, 1)"
  using show_nat_value [of n]
  by (simp add: literal_ratio_def Let_def digits_no_exp digits_no_dot exponent_value_def digits_value_def)

lemma parse_float_show:
  assumes "nat \<bar>n\<bar> < 2 ^ 1024 - 2 ^ 970"
  shows "parse_float (show_int n) = Some (n < 0, f64_ratio (nat \<bar>n\<bar>) 1)"
proof -
  have z: "f64_ratio 0 (Suc 0) = (0, 0)" by (simp add: f64_ratio_def)
  have big: "\<not> m * 2 ^ 1075 \<le> Suc 0" if "0 < m" for m :: nat
  proof -
    have "Suc 0 * 2 ^ 1075 \<le> m * 2 ^ 1075" using that by (intro mult_right_mono) auto
    moreover have "(1::nat) < 2 ^ 1075" by (rule one_less_power) simp_all
    ultimately show ?thesis by simp
  qed
  show ?thesis
  proof (cases "n < 0")
    case True
    then have "nat \<bar>n\<bar> = nat (- n)" by simp
    with True assms show ?thesis
      using big [of "nat (- n)"]
      by (simp add: parse_float_def show_int_def literal_ratio_digits Let_def not_le del: power_numeral)
  next
    case False
    have "hd (show_nat (nat n)) \<noteq> CHR ''-''" by (rule show_nat_no_minus)
    with False assms show ?thesis
      using big [of "nat n"] z
      by (cases "nat n = 0")
        (simp_all add: parse_float_def show_int_def literal_ratio_digits Let_def not_le del: power_numeral)
  qed
qed

end
