(* ===== verification/Lite.thy ===== *)
theory Lite
  imports Subscribe JsonNumber
begin

text \<open>
  The lite namespace (wsbridge/lite.go): reading blocks, accounts and transactions, running get
  methods and sending messages. The handlers do not touch the state of the bridge, so each is the
  reply it sends; a handler that walks the history of an account may not end by itself, and then
  it is a partial function.
\<close>

text \<open>A chain of checks that ends in a reply either way.\<close>

definition finish_with :: "reply checked \<Rightarrow> reply" where
  "finish_with x = (case x of Inl r \<Rightarrow> r | Inr r \<Rightarrow> r)"

lemma finish_with_simps [simp]: "finish_with (Inl r) = r" "finish_with (Inr r) = r"
  by (simp_all add: finish_with_def)

section \<open>Parameters\<close>

record after_params =
  af_account :: string
  af_lt :: string

record lite_params =
  lp_address :: string
  lp_method :: string
  lp_args :: "json list"
  lp_boc :: string
  lp_type :: string
  lp_amount :: string
  lp_ignore_chksig :: bool
  lp_limit :: nat
  lp_last_lt :: string
  lp_last_hash :: string
  lp_workchain :: int
  lp_shard :: string
  lp_seqno :: nat
  lp_count :: nat
  lp_after :: "after_params option"
  lp_config_params :: "int list"
  lp_lt :: string
  lp_msg_hash :: string
  lp_hashes :: "string list"

definition zero_lite_params :: lite_params where
  "zero_lite_params = \<lparr>lp_address = [], lp_method = [], lp_args = [], lp_boc = [], lp_type = [], lp_amount = [],
     lp_ignore_chksig = False, lp_limit = 0, lp_last_lt = [], lp_last_hash = [], lp_workchain = 0,
     lp_shard = [], lp_seqno = 0, lp_count = 0, lp_after = None, lp_config_params = [], lp_lt = [],
     lp_msg_hash = [], lp_hashes = []\<rparr>"

text \<open>A value of type \<open>any\<close>; only a number can fail to decode, when it is too large.\<close>

fun any_ok :: "json \<Rightarrow> bool" where
  "any_ok (JNum s) = (parse_float s \<noteq> None)"
| "any_ok (JArr vs) = list_all any_ok vs"
| "any_ok (JObj es) = list_all (\<lambda>e. any_ok (snd e)) es"
| "any_ok _ = True"

definition after_fields :: "(string \<times> after_params setter) list" where
  "after_fields =
    [(''account'', string_field (\<lambda>s p. p\<lparr>af_account := s\<rparr>)), (''lt'', string_field (\<lambda>s p. p\<lparr>af_lt := s\<rparr>))]"

text \<open>A pointer to a struct: \<open>null\<close> makes it nil, an object fills the struct it points to.\<close>

definition after_field :: "lite_params setter" where
  "after_field v p =
     (case v of
        JNull \<Rightarrow> Some (p\<lparr>lp_after := None\<rparr>)
      | JObj es \<Rightarrow> map_option (\<lambda>x. p\<lparr>lp_after := Some x\<rparr>)
          (unmarshal_entries after_fields es
             (case lp_after p of None \<Rightarrow> \<lparr>af_account = [], af_lt = []\<rparr> | Some x \<Rightarrow> x))
      | _ \<Rightarrow> None)"

definition l_address :: "string \<times> lite_params setter" where
  "l_address = (''address'', string_field (\<lambda>s p. p\<lparr>lp_address := s\<rparr>))"
definition l_method :: "string \<times> lite_params setter" where
  "l_method = (''method'', string_field (\<lambda>s p. p\<lparr>lp_method := s\<rparr>))"
definition l_args :: "string \<times> lite_params setter" where
  "l_args = (''params'', list_field (\<lambda>v _. if any_ok v then Some v else None) JNull (\<lambda>xs p. p\<lparr>lp_args := xs\<rparr>))"
definition l_boc :: "string \<times> lite_params setter" where
  "l_boc = (''boc'', string_field (\<lambda>s p. p\<lparr>lp_boc := s\<rparr>))"
definition l_type :: "string \<times> lite_params setter" where
  "l_type = (''type'', string_field (\<lambda>s p. p\<lparr>lp_type := s\<rparr>))"
definition l_amount :: "string \<times> lite_params setter" where
  "l_amount = (''amount'', string_field (\<lambda>s p. p\<lparr>lp_amount := s\<rparr>))"
definition l_ignore_chksig :: "string \<times> lite_params setter" where
  "l_ignore_chksig = (''ignore_chksig'', bool_field (\<lambda>x p. p\<lparr>lp_ignore_chksig := x\<rparr>))"
definition l_limit :: "string \<times> lite_params setter" where
  "l_limit = (''limit'', uint_field 32 (\<lambda>n p. p\<lparr>lp_limit := n\<rparr>))"
definition l_last_lt :: "string \<times> lite_params setter" where
  "l_last_lt = (''last_lt'', string_field (\<lambda>s p. p\<lparr>lp_last_lt := s\<rparr>))"
definition l_last_hash :: "string \<times> lite_params setter" where
  "l_last_hash = (''last_hash'', string_field (\<lambda>s p. p\<lparr>lp_last_hash := s\<rparr>))"
definition l_workchain :: "string \<times> lite_params setter" where
  "l_workchain = (''workchain'', int_field 32 (\<lambda>n p. p\<lparr>lp_workchain := n\<rparr>))"
definition l_shard :: "string \<times> lite_params setter" where
  "l_shard = (''shard'', string_field (\<lambda>s p. p\<lparr>lp_shard := s\<rparr>))"
definition l_seqno :: "string \<times> lite_params setter" where
  "l_seqno = (''seqno'', uint_field 32 (\<lambda>n p. p\<lparr>lp_seqno := n\<rparr>))"
definition l_count :: "string \<times> lite_params setter" where
  "l_count = (''count'', uint_field 32 (\<lambda>n p. p\<lparr>lp_count := n\<rparr>))"
definition l_after :: "string \<times> lite_params setter" where
  "l_after = (''after'', after_field)"
definition l_config_params :: "string \<times> lite_params setter" where
  "l_config_params = (''params'', list_field (int_field 32 (\<lambda>n _. n)) 0 (\<lambda>xs p. p\<lparr>lp_config_params := xs\<rparr>))"
definition l_lt :: "string \<times> lite_params setter" where
  "l_lt = (''lt'', string_field (\<lambda>s p. p\<lparr>lp_lt := s\<rparr>))"
definition l_msg_hash :: "string \<times> lite_params setter" where
  "l_msg_hash = (''msg_hash'', string_field (\<lambda>s p. p\<lparr>lp_msg_hash := s\<rparr>))"
definition l_hashes :: "string \<times> lite_params setter" where
  "l_hashes = (''hashes'', list_field (string_field (\<lambda>s _. s)) [] (\<lambda>xs p. p\<lparr>lp_hashes := xs\<rparr>))"

lemmas lite_fields_defs = l_address_def l_method_def l_args_def l_boc_def l_type_def l_amount_def
  l_ignore_chksig_def l_limit_def l_last_lt_def l_last_hash_def l_workchain_def l_shard_def
  l_seqno_def l_count_def l_after_def l_config_params_def l_lt_def l_msg_hash_def l_hashes_def

definition with_lite_params ::
  "(string \<times> lite_params setter) list \<Rightarrow> WSRequest \<Rightarrow> (lite_params \<Rightarrow> 'b checked) \<Rightarrow> 'b checked" where
  "with_lite_params fs req k =
     attempt (unmarshal fs (req_params req) zero_lite_params) (\<lambda>e. bad (Wrap ''invalid params: '' e)) k"

definition with_boc :: "ton_lib \<Rightarrow> string \<Rightarrow> (bytes \<Rightarrow> tvm_cell \<Rightarrow> 'b checked) \<Rightarrow> 'b checked" where
  "with_boc tlib s k =
     with_base64 ''boc'' s (\<lambda>d.
     attempt (FromBOC tlib d) (\<lambda>e. bad (Wrap ''invalid BOC: '' e)) (k d))"

text \<open>A shard arrives as unsigned hexadecimal and becomes an \<open>int64\<close>.\<close>

definition with_shard :: "string \<Rightarrow> (int \<Rightarrow> 'b checked) \<Rightarrow> 'b checked" where
  "with_shard s k =
     attempt (parse_uint 16 s) (\<lambda>e. bad (Wrap ''invalid shard hex: '' e)) (\<lambda>u. k (to_int64 (int u)))"

definition with_msg_hash :: "string \<Rightarrow> (bytes \<Rightarrow> 'b checked) \<Rightarrow> 'b checked" where
  "with_msg_hash s k =
     attempt (hex_decode s) (\<lambda>e. bad (Wrap ''invalid msg_hash hex: '' e)) (\<lambda>h.
     require (length h = 32) (bad (Lit ''msg_hash must be 32 bytes'')) (k h))"

section \<open>Blocks\<close>

definition block_fields :: "block_id \<Rightarrow> (string \<times> json) list" where
  "block_fields blk =
     [(''seqno'', jnat (SeqNo blk)), (''workchain'', jint (Workchain blk)), (''shard'', JStr (shard_hex (Shard blk))),
      (''root_hash'', jhex (RootHash blk)), (''file_hash'', jhex (FileHash blk))]"

definition handleGetMasterchainInfo :: "ton_api \<Rightarrow> reply" where
  "handleGetMasterchainInfo api =
     finish_with (with_master api (\<lambda>blk. Inr (Result (JObj (block_fields blk)))))"

definition handleGetTime :: "ton_api \<Rightarrow> reply" where
  "handleGetTime api =
     finish_with (attempt (GetTime api) (\<lambda>e. failed (Wrap ''failed to get time: '' e))
       (\<lambda>t. Inr (Result (JObj [(''time'', jnat t)]))))"

text \<open>The head of the three methods that name a block by workchain, shard and number.\<close>

definition with_block :: "ton_api \<Rightarrow> lite_params \<Rightarrow> (block_id \<Rightarrow> 'b checked) \<Rightarrow> 'b checked" where
  "with_block api prm k =
     with_shard (lp_shard prm) (\<lambda>shard.
     attempt (LookupBlock api (lp_workchain prm) shard (lp_seqno prm))
       (\<lambda>e. failed (Wrap ''lookup block failed: '' e)) k)"

definition handleLookupBlock :: "ton_api \<Rightarrow> WSRequest \<Rightarrow> reply" where
  "handleLookupBlock api req =
     finish_with (with_lite_params [l_workchain, l_shard, l_seqno] req (\<lambda>prm.
       with_block api prm (\<lambda>blk. Inr (Result (JObj (block_fields blk))))))"

definition handleGetBlockData :: "ton_lib \<Rightarrow> ton_api \<Rightarrow> WSRequest \<Rightarrow> reply" where
  "handleGetBlockData tlib api req =
     finish_with (with_lite_params [l_workchain, l_shard, l_seqno] req (\<lambda>prm.
       with_block api prm (\<lambda>blk.
       attempt (GetBlockDataAsCell api blk) (\<lambda>e. failed (Wrap ''get block data failed: '' e)) (\<lambda>cl.
       Inr (Result (JObj [(''boc'', jboc tlib cl)]))))))"

definition handleGetBlockHeader :: "ton_lib \<Rightarrow> ton_api \<Rightarrow> WSRequest \<Rightarrow> reply" where
  "handleGetBlockHeader tlib api req =
     finish_with (with_lite_params [l_workchain, l_shard, l_seqno] req (\<lambda>prm.
       with_block api prm (\<lambda>blk.
       attempt (GetBlockHeaderCell api blk) (\<lambda>e. failed (Wrap ''get block header failed: '' e)) (\<lambda>hd.
       attempt hd (\<lambda>e. failed (Wrap ''failed to serialize verified block header: '' e)) (\<lambda>cl.
       Inr (Result (JObj (block_fields blk @ [(''header_boc'', jboc tlib cl)]))))))))"

definition handleGetShards :: "ton_api \<Rightarrow> reply" where
  "handleGetShards api =
     finish_with (with_master api (\<lambda>master.
       attempt (GetBlockShardsInfo api master) (\<lambda>e. failed (Wrap ''failed to get shards info: '' e)) (\<lambda>shards.
       Inr (Result (JObj [(''shards'', JArr (map shard_json shards))])))))"

subsection \<open>Transactions of a block\<close>

definition clamp_count :: "nat \<Rightarrow> nat \<Rightarrow> nat" where
  "clamp_count limit n = (if n = 0 \<or> n > limit then limit else n)"

definition short_fields :: "tx_short \<Rightarrow> (string \<times> json) list" where
  "short_fields t = [(''account'', jhex (ts_Account t)), (''lt'', jdec (ts_LT t))]"

definition short_json :: "tx_short \<Rightarrow> json" where
  "short_json t = JObj (short_fields t @ [(''hash'', jhex (ts_Hash t))])"

text \<open>Where the next page starts; \<open>null\<close> after the last one.\<close>

definition next_after :: "tx_short list \<Rightarrow> bool \<Rightarrow> json" where
  "next_after txs incomplete = (if incomplete \<and> txs \<noteq> [] then JObj (short_fields (last txs)) else JNull)"

definition with_after :: "after_params option \<Rightarrow> (tx_cursor option \<Rightarrow> 'b checked) \<Rightarrow> 'b checked" where
  "with_after a k =
     (case a of
        None \<Rightarrow> k None
      | Some x \<Rightarrow>
         (case hex_decode (af_account x) of
            Inl _ \<Rightarrow> Inl (bad (Lit ''invalid after.account: expected 32-byte hex''))
          | Inr acc \<Rightarrow>
              require (length acc = 32) (bad (Lit ''invalid after.account: expected 32-byte hex'')) (
              attempt (parse_uint 10 (af_lt x)) (\<lambda>e. bad (Wrap ''invalid after.lt: '' e)) (\<lambda>lt. k (Some (acc, lt))))))"

definition handleGetBlockTransactions :: "ton_api \<Rightarrow> WSRequest \<Rightarrow> reply" where
  "handleGetBlockTransactions api req =
     finish_with (with_lite_params [l_workchain, l_shard, l_seqno, l_count, l_after] req (\<lambda>prm.
       with_block api prm (\<lambda>blk.
       with_after (lp_after prm) (\<lambda>after.
       attempt (GetBlockTransactionsV2 api 0 blk (clamp_count 256 (lp_count prm)) after)
         (\<lambda>e. failed (Wrap ''get block transactions failed: '' e)) (\<lambda>(txs, incomplete).
       Inr (Result (JObj [(''transactions'', JArr (map short_json txs)), (''incomplete'', JBool incomplete),
                          (''next_after'', next_after txs incomplete)])))))))"

section \<open>Accounts\<close>

definition handleGetAccountState :: "ton_lib \<Rightarrow> ton_api \<Rightarrow> WSRequest \<Rightarrow> reply" where
  "handleGetAccountState tlib api req =
     finish_with (with_lite_params [l_address] req (\<lambda>prm.
       with_address tlib (lp_address prm) (\<lambda>addr.
       with_master api (\<lambda>blk.
       with_account api blk addr (\<lambda>acc.
       Inr (Result (JObj
         ([(''status'', JStr (account_status acc)), (''last_tx_lt'', jdec (LastTxLT acc)),
           (''last_tx_hash'', jhex (hash_or_empty (LastTxHash acc))),
           (''has_code'', JBool (acc_Code acc \<noteq> None)), (''has_data'', JBool (acc_Data acc \<noteq> None)),
           (''balance'', JStr (balance_text acc))] @
          (case acc_Code acc of None \<Rightarrow> [] | Some x \<Rightarrow> [(''code'', jboc tlib x)]) @
          (case acc_Data acc of None \<Rightarrow> [] | Some x \<Rightarrow> [(''data'', jboc tlib x)])))))))))"

subsection \<open>Running a get method\<close>

text \<open>A decoded object is a Go map, in which the last of equal keys wins.\<close>

definition any_string :: "string \<Rightarrow> (string \<times> json) list \<Rightarrow> string" where
  "any_string k es = (case map_of (rev es) k of Some (JStr s) \<Rightarrow> s | _ \<Rightarrow> [])"

definition convert_number :: "string \<Rightarrow> stack_value result" where
  "convert_number s =
     (let err = Inl (ErrMsg ''JSON number must be a safe integer; use a decimal string for larger values'') in
      case parse_float s of
        None \<Rightarrow> err
      | Some (neg, x) \<Rightarrow>
         (case f64_integer x of
            None \<Rightarrow> err
          | Some v \<Rightarrow> if v > 2 ^ 53 then err else Inr (SInt (Some (if neg then - int v else int v)))))"

definition quoted :: "string \<Rightarrow> string" where
  "quoted s = [CHR 0x27] @ s @ [CHR 0x27]"

definition convert_boc :: "ton_lib \<Rightarrow> (string \<times> json) list \<Rightarrow> stack_value result" where
  "convert_boc tlib es =
     (let kind = any_string ''type'' es; boc = any_string ''boc'' es in
      if boc = [] \<or> (kind \<noteq> ''slice'' \<and> kind \<noteq> ''cell'')
      then Inl (ErrMsg (''expected {type:'' @ quoted ''slice'' @ ''|'' @ quoted ''cell'' @ '', boc:<base64>}''))
      else (case decodeBase64 boc of
              Inl e \<Rightarrow> Inl (ErrWrap ''invalid base64 BOC: '' e)
            | Inr d \<Rightarrow>
               (case FromBOC tlib d of
                  Inl e \<Rightarrow> Inl (ErrWrap ''invalid BOC: '' e)
                | Inr c \<Rightarrow>
                    if kind = ''cell'' then Inr (SCell (Some c))
                    else (case BeginParse tlib c of
                            Inl e \<Rightarrow> Inl (ErrWrap ''invalid slice: '' e)
                          | Inr s \<Rightarrow> Inr (SSlice (Some s))))))"

fun convertRunMethodParam :: "ton_lib \<Rightarrow> json \<Rightarrow> stack_value result"
and convert_items :: "ton_lib \<Rightarrow> nat \<Rightarrow> json list \<Rightarrow> (stack_value list) result" where
  "convertRunMethodParam tlib JNull = Inr SNil"
| "convertRunMethodParam tlib (JNum s) = convert_number s"
| "convertRunMethodParam tlib (JStr s) =
     (case SetString10 s of
        None \<Rightarrow> Inl (ErrMsg ''string is not a valid decimal integer'')
      | Some n \<Rightarrow> Inr (SInt (Some n)))"
| "convertRunMethodParam tlib (JArr vs) =
     (case convert_items tlib 0 vs of Inl e \<Rightarrow> Inl e | Inr xs \<Rightarrow> Inr (SList xs))"
| "convertRunMethodParam tlib (JObj es) = convert_boc tlib es"
| "convertRunMethodParam tlib (JBool _) = Inl (ErrMsg ''unsupported type bool'')"
| "convert_items tlib i [] = Inr []"
| "convert_items tlib i (v # vs) =
     (case convertRunMethodParam tlib v of
        Inl e \<Rightarrow> Inl (ErrWrap (''tuple item '' @ show_nat i @ '': '') e)
      | Inr x \<Rightarrow> (case convert_items tlib (Suc i) vs of Inl e \<Rightarrow> Inl e | Inr xs \<Rightarrow> Inr (x # xs)))"

fun convert_args :: "ton_lib \<Rightarrow> nat \<Rightarrow> json list \<Rightarrow> (stack_value list) checked" where
  "convert_args tlib i [] = Inr []"
| "convert_args tlib i (v # vs) =
     attempt (convertRunMethodParam tlib v)
       (\<lambda>e. bad (Wrap (''unsupported param at index '' @ show_nat i @ '': '') e)) (\<lambda>x.
     (case convert_args tlib (Suc i) vs of Inl r \<Rightarrow> Inl r | Inr xs \<Rightarrow> Inr (x # xs)))"

definition handleRunMethod :: "ton_lib \<Rightarrow> ton_api \<Rightarrow> WSRequest \<Rightarrow> reply" where
  "handleRunMethod tlib api req =
     finish_with (with_lite_params [l_address, l_method, l_args] req (\<lambda>prm.
       with_address tlib (lp_address prm) (\<lambda>addr.
       with_master api (\<lambda>blk.
       (case convert_args tlib 0 (lp_args prm) of
          Inl r \<Rightarrow> Inl r
        | Inr args \<Rightarrow>
            attempt (RunGetMethod api blk addr (lp_method prm) args)
              (\<lambda>e. failed (Wrap ''run method failed: '' e)) (\<lambda>stack.
            Inr (Result (JObj [(''exit_code'', jint 0), (''stack'', serializeStack tlib stack)]))))))))"

section \<open>Sending\<close>

definition send_checks :: "ton_lib \<Rightarrow> WSRequest \<Rightarrow> (bytes \<times> tvm_cell) checked" where
  "send_checks tlib req =
     with_lite_params [l_boc] req (\<lambda>prm. with_boc tlib (lp_boc prm) (\<lambda>d cl. Inr (d, cl)))"

text \<open>The status stays zero when the liteserver answers with anything but a status.\<close>

definition send_boc :: "ton_lib \<Rightarrow> ton_api \<Rightarrow> client_ref \<Rightarrow> WSRequest \<Rightarrow> effect list" where
  "send_boc tlib api c req =
     (case send_checks tlib req of
        Inl r \<Rightarrow> reply_to c req r
      | Inr (d, cl) \<Rightarrow>
          SubmitBOC d # reply_to c req
            (case QuerySendMessage api d of
               Inl e \<Rightarrow> failed (Wrap ''send message failed: '' e)
             | Inr st \<Rightarrow> Result (JObj [(''hash'', jhex (cell_Hash tlib cl)),
                 (''status'', jint (case st of None \<Rightarrow> 0 | Some s \<Rightarrow> s))])))"

definition handleSendMessage :: "ton_lib \<Rightarrow> ton_api \<Rightarrow> client_ref \<Rightarrow> WSRequest \<Rightarrow> effect list" where
  "handleSendMessage = send_boc"

definition handleSendMessageWait :: "ton_lib \<Rightarrow> ton_api \<Rightarrow> client_ref \<Rightarrow> WSRequest \<Rightarrow> effect list" where
  "handleSendMessageWait = send_boc"

section \<open>Transactions of an account\<close>

text \<open>Where a listing starts: at the given transaction, at the last one, or nowhere.\<close>

definition list_start ::
  "ton_api \<Rightarrow> ton_address \<Rightarrow> lite_params \<Rightarrow> ((nat \<times> bytes option) option) checked" where
  "list_start api addr prm =
     require ((lp_last_lt prm = []) = (lp_last_hash prm = []))
       (bad (Lit ''last_lt and last_hash must be provided together'')) (
     if lp_last_lt prm \<noteq> [] then
       attempt (parse_uint 10 (lp_last_lt prm)) (\<lambda>e. bad (Wrap ''invalid last_lt: '' e)) (\<lambda>lt.
       attempt (hex_decode (lp_last_hash prm)) (\<lambda>e. bad (Wrap ''invalid last_hash hex: '' e)) (\<lambda>h.
       require (length h = 32) (bad (Lit ''last_hash must be 32 bytes'')) (Inr (Some (lt, Some h)))))
     else
       with_master api (\<lambda>blk.
       with_account api blk addr (\<lambda>acc.
       Inr (if LastTxLT acc = 0 then None else Some (LastTxLT acc, LastTxHash acc)))))"

definition handleGetTransactions :: "ton_lib \<Rightarrow> ton_api \<Rightarrow> WSRequest \<Rightarrow> reply" where
  "handleGetTransactions tlib api req =
     finish_with (with_lite_params [l_address, l_limit, l_last_lt, l_last_hash] req (\<lambda>prm.
       with_address tlib (lp_address prm) (\<lambda>addr.
       (case list_start api addr prm of
          Inl r \<Rightarrow> Inl r
        | Inr None \<Rightarrow> Inr (Result (JObj [(''transactions'', JArr [])]))
        | Inr (Some (lt, h)) \<Rightarrow>
            attempt (ListTransactions api 0 addr (clamp_count 100 (lp_limit prm)) lt h)
              (\<lambda>e. failed (Wrap ''failed to list transactions: '' e)) (\<lambda>txs.
            Inr (Result (JObj [(''transactions'', JArr (map (serializeTransaction tlib) txs))])))))))"

text \<open>
  \<open>lite.getTransaction\<close> walks back through the history in pages, oldest transaction first in each.
  The walk has no bound but the request context.
\<close>

type_synonym tx_pages = "nat \<Rightarrow> nat \<Rightarrow> bytes option \<Rightarrow> (transaction list) result"

partial_function (option) find_lt ::
  "tx_pages \<Rightarrow> nat \<Rightarrow> nat \<Rightarrow> nat \<Rightarrow> bytes option \<Rightarrow> (transaction option) result option" where
  "find_lt pages lt i currentLT currentHash =
     (if currentLT = 0 then Some (Inr None)
      else (case pages i currentLT currentHash of
              Inl e \<Rightarrow> Some (Inl e)
            | Inr txs \<Rightarrow>
               (case find (\<lambda>tx. tx_LT tx = lt) txs of
                  Some tx \<Rightarrow> Some (Inr (Some tx))
                | None \<Rightarrow>
                    if txs = [] then Some (Inr None)
                    else find_lt pages lt (Suc i) (PrevTxLT (hd txs)) (Some (PrevTxHash (hd txs))))))"

definition get_tx_checks :: "ton_lib \<Rightarrow> ton_api \<Rightarrow> WSRequest \<Rightarrow> (ton_address \<times> nat \<times> string \<times> account) checked" where
  "get_tx_checks tlib api req =
     with_lite_params [l_address, l_lt] req (\<lambda>prm.
     with_address tlib (lp_address prm) (\<lambda>addr.
     attempt (parse_uint 10 (lp_lt prm)) (\<lambda>e. bad (Wrap ''invalid lt: '' e)) (\<lambda>lt.
     with_master api (\<lambda>blk.
     with_account api blk addr (\<lambda>acc. Inr (addr, lt, lp_lt prm, acc))))))"

definition handleGetTransaction :: "ton_lib \<Rightarrow> ton_api \<Rightarrow> WSRequest \<Rightarrow> reply option" where
  "handleGetTransaction tlib api req =
     (case get_tx_checks tlib api req of
        Inl r \<Rightarrow> Some r
      | Inr (addr, lt, text_lt, acc) \<Rightarrow>
         (case find_lt (\<lambda>i. ListTransactions api i addr 100) lt 0 (LastTxLT acc) (LastTxHash acc) of
            None \<Rightarrow> None
          | Some (Inl e) \<Rightarrow> Some (failed (Wrap ''failed to list transactions: '' e))
          | Some (Inr (Some tx)) \<Rightarrow> Some (Result (serializeTransaction tlib tx))
          | Some (Inr None) \<Rightarrow> Some (failed (Lit (''transaction not found for lt '' @ text_lt)))))"

text \<open>The zero time as lower bound: the whole history may be searched.\<close>

definition zero_time :: int where
  "zero_time = - 62135596800"

definition handleFindTxByInMsgHash :: "ton_lib \<Rightarrow> ton_api \<Rightarrow> WSRequest \<Rightarrow> reply" where
  "handleFindTxByInMsgHash tlib api req =
     finish_with (with_lite_params [l_address, l_msg_hash] req (\<lambda>prm.
       with_address tlib (lp_address prm) (\<lambda>addr.
       with_msg_hash (lp_msg_hash prm) (\<lambda>h.
       attempt (FindTxByInMsgHash api addr h zero_time)
         (\<lambda>e. failed (Wrap ''find tx by in msg hash failed: '' e)) (\<lambda>tx.
       Inr (Result (serializeTransaction tlib tx)))))))"

definition handleFindTxByOutMsgHash :: "ton_lib \<Rightarrow> ton_api \<Rightarrow> WSRequest \<Rightarrow> reply" where
  "handleFindTxByOutMsgHash tlib api req =
     finish_with (with_lite_params [l_address, l_msg_hash] req (\<lambda>prm.
       with_address tlib (lp_address prm) (\<lambda>addr.
       with_msg_hash (lp_msg_hash prm) (\<lambda>h.
       attempt (FindTxByOutMsgHash api addr h zero_time)
         (\<lambda>e. failed (Wrap ''find tx by out msg hash failed: '' e)) (\<lambda>tx.
       Inr (Result (serializeTransaction tlib tx)))))))"

section \<open>Configuration and libraries\<close>

text \<open>Parameters may be missing altogether; then all of the configuration is returned.\<close>

definition config_ids :: "WSRequest \<Rightarrow> (int list) checked" where
  "config_ids req =
     (case req_params req of
        None \<Rightarrow> Inr []
      | Some JNull \<Rightarrow> Inr []
      | Some _ \<Rightarrow> with_lite_params [l_config_params] req (\<lambda>prm. Inr (lp_config_params prm)))"

definition config_entry :: "ton_lib \<Rightarrow> chain_config \<Rightarrow> int \<Rightarrow> string \<times> json" where
  "config_entry tlib cf k = (show_int k, case cfg_Get cf k of None \<Rightarrow> JNull | Some x \<Rightarrow> jboc tlib x)"

definition handleGetBlockchainConfig :: "ton_lib \<Rightarrow> ton_api \<Rightarrow> WSRequest \<Rightarrow> reply" where
  "handleGetBlockchainConfig tlib api req =
     finish_with (case config_ids req of
        Inl r \<Rightarrow> Inl r
      | Inr ids \<Rightarrow>
         with_master api (\<lambda>blk.
         attempt (GetBlockchainConfig api blk ids) (\<lambda>e. failed (Wrap ''failed to get blockchain config: '' e)) (\<lambda>cf.
         Inr (Result (JObj [(''params'', JObj
           (if ids \<noteq> [] then map (config_entry tlib cf) (remdups ids)
            else map (\<lambda>(k, x). (show_int k, jboc tlib x)) (cfg_All cf)))])))))"

fun decode_hashes :: "nat \<Rightarrow> string list \<Rightarrow> (bytes list) checked" where
  "decode_hashes i [] = Inr []"
| "decode_hashes i (h # hs) =
     attempt (hex_decode h) (\<lambda>e. bad (Wrap (''invalid hash at index '' @ show_nat i @ '': '') e)) (\<lambda>d.
     require (length d = 32) (bad (Lit (''invalid hash at index '' @ show_nat i @ '': expected 32 bytes''))) (
     (case decode_hashes (Suc i) hs of Inl r \<Rightarrow> Inl r | Inr ds \<Rightarrow> Inr (d # ds))))"

text \<open>
  The answer of the library pairs with the requested hashes by position. More cells than hashes
  would be an index out of range, a panic that the request loop turns into an internal error.
\<close>

definition library_json :: "ton_lib \<Rightarrow> string \<times> tvm_cell option \<Rightarrow> json" where
  "library_json tlib x =
     (case x of
        (_, None) \<Rightarrow> JNull
      | (h, Some cl) \<Rightarrow> JObj [(''hash'', JStr h), (''boc'', jboc tlib cl)])"

definition handleGetLibraries :: "ton_lib \<Rightarrow> ton_api \<Rightarrow> WSRequest \<Rightarrow> reply option" where
  "handleGetLibraries tlib api req =
     (case with_lite_params [l_hashes] req (\<lambda>prm. Inr (lp_hashes prm)) of
        Inl r \<Rightarrow> Some r
      | Inr hashes \<Rightarrow>
          if hashes = [] then Some (Result (JObj [(''libraries'', JArr [])]))
          else if length hashes > 256 then Some (bad (Lit ''too many hashes (max 256)''))
          else
           (case decode_hashes 0 hashes of
              Inl r \<Rightarrow> Some r
            | Inr ds \<Rightarrow>
               (case GetLibraries api ds of
                  Inl e \<Rightarrow> Some (failed (Wrap ''get libraries failed: '' e))
                | Inr cells \<Rightarrow>
                    if list_ex (\<lambda>x. x \<noteq> None) (drop (length hashes) cells) then None
                    else Some (Result (JObj [(''libraries'', JArr
                      (map (library_json tlib) (zip hashes cells) @
                       replicate (length cells - length hashes) JNull))])))))"

end
