(* ===== verification/Watch.thy ===== *)
theory Watch
  imports Lite
begin

text \<open>
  \<open>lite.sendAndWatch\<close> (wsbridge/lite.go): sending an external message and following the account
  until the transaction that consumes it is found or the time is over. It counts as a
  subscription and is cancelled like one.
\<close>

section \<open>Opening\<close>

definition watch_checks :: "ton_lib \<Rightarrow> WSRequest \<Rightarrow> (tvm_cell \<times> message \<times> ton_address) checked" where
  "watch_checks tlib req =
     with_lite_params [l_boc] req (\<lambda>prm.
     with_boc tlib (lp_boc prm) (\<lambda>_ cl.
     attempt (BeginParse tlib cl) (\<lambda>e. bad (Wrap ''invalid BOC: '' e)) (\<lambda>s.
     attempt (LoadExternalMessage tlib s) (\<lambda>e. failed (Wrap ''failed to parse external message: '' e)) (\<lambda>ext.
     (case (DestAddr ext, Payload ext) of
        (Some dst, Some _) \<Rightarrow> Inr (cl, ext, dst)
      | _ \<Rightarrow> Inl (bad (Lit ''external message must contain destination and body'')))))))"

definition open_watch ::
  "ton_lib \<Rightarrow> ton_api \<Rightarrow> tvm_cell \<Rightarrow> message \<Rightarrow> ton_address \<Rightarrow> string \<Rightarrow> effect list \<times> (json \<times> sub_loop) checked" where
  "open_watch tlib api cl ext dst i =
     (case CurrentMasterchainInfo api of
        Inl e \<Rightarrow> ([], Inl (failed (Wrap ''failed to get masterchain info: '' e)))
      | Inr blk \<Rightarrow>
         (case GetAccount api blk dst of
            Inl e \<Rightarrow> ([], Inl (failed (Wrap ''failed to get account state: '' e)))
          | Inr acc \<Rightarrow>
              ([SubmitMessage ext],
               case SendExternalMessage api ext of
                 Some e \<Rightarrow> Inl (failed (Wrap ''send message failed: '' e))
               | None \<Rightarrow> Inr
                   (JObj [(''watching'', JBool True), (''subscription_id'', JStr i),
                          (''msg_hash'', jhex (cell_Hash tlib cl))],
                    WatchLoop (cell_Hash tlib cl) ext dst blk acc))))"

definition handleSendAndWatch ::
  "ton_lib \<Rightarrow> ton_api \<Rightarrow> client_ref \<Rightarrow> WSRequest \<Rightarrow> WSBridge \<Rightarrow> outcome \<times> (nat \<times> sub_loop) option" where
  "handleSendAndWatch tlib api c req b =
     subscribing_with (too_many_subs_max b) c req (watch_checks tlib req)
       (\<lambda>(cl, ext, dst) i. open_watch tlib api cl ext dst i) b"

section \<open>Finding the transaction\<close>

text \<open>A sent state must reappear with the same code and data.\<close>

definition state_matches :: "(bytes option \<times> bytes option) option \<Rightarrow> (bytes option \<times> bytes option) option \<Rightarrow> bool" where
  "state_matches ext_state in_state =
     (case ext_state of
        None \<Rightarrow> True
      | Some (ec, ed) \<Rightarrow>
         (case in_state of
            None \<Rightarrow> False
          | Some (ic, idt) \<Rightarrow> ec \<noteq> None \<and> ed \<noteq> None \<and> ic = ec \<and> idt = ed))"

definition consumes :: "ton_lib \<Rightarrow> message \<Rightarrow> transaction \<Rightarrow> bool" where
  "consumes tlib ext tx =
     (case tx_In tx of
        None \<Rightarrow> False
      | Some m \<Rightarrow>
          MsgType m = ExternalIn \<and> state_matches (StateInit ext) (StateInit m)
          \<and> (case (Payload m, Payload ext) of
               (Some a, Some b) \<Rightarrow> cell_Hash tlib a = cell_Hash tlib b
             | _ \<Rightarrow> False))"

definition follows :: "account \<Rightarrow> transaction \<Rightarrow> bool" where
  "follows acc tx \<longleftrightarrow> PrevTxLT tx = LastTxLT acc \<and> PrevTxHash tx = hash_or_empty (LastTxHash acc)"

datatype scan = Found transaction | PageError | NotThere

text \<open>Back through the pages until the transactions seen before are reached.\<close>

partial_function (option) scan_history ::
  "(nat \<Rightarrow> bool) \<Rightarrow> tx_pages \<Rightarrow> (transaction \<Rightarrow> bool) \<Rightarrow> (transaction \<Rightarrow> bool) \<Rightarrow> nat \<Rightarrow> nat \<Rightarrow> bytes option \<Rightarrow> scan option" where
  "scan_history alive pages wanted known i lt h =
     (if \<not> alive i \<or> lt = 0 then Some NotThere
      else (case pages i lt h of
              Inl _ \<Rightarrow> Some PageError
            | Inr txs \<Rightarrow>
               (case find wanted txs of
                  Some tx \<Rightarrow> Some (Found tx)
                | None \<Rightarrow>
                    if list_ex known txs \<or> txs = [] then Some NotThere
                    else scan_history alive pages wanted known (Suc i)
                           (PrevTxLT (hd txs)) (Some (PrevTxHash (hd txs))))))"

definition tx_timeout :: "client_ref \<Rightarrow> bytes \<Rightarrow> string \<Rightarrow> effect list" where
  "tx_timeout c h reason =
     sendEvent c ''tx_timeout'' (JObj [(''msg_hash'', jhex h), (''reason'', JStr reason)])"

definition tx_confirmed :: "ton_lib \<Rightarrow> client_ref \<Rightarrow> bytes \<Rightarrow> transaction \<Rightarrow> block_id \<Rightarrow> effect list" where
  "tx_confirmed tlib c h tx blk = sendEvent c ''tx_confirmed'' (JObj
     [(''msg_hash'', jhex h), (''transaction'', serializeTransaction tlib tx),
      (''block'', JObj [(''seqno'', jnat (SeqNo blk)), (''workchain'', jint (Workchain blk)),
                        (''shard'', JStr (shard_hex (Shard blk)))])])"

text \<open>
  One round of \<open>waitForExternalMessage\<close>. While the account has no new transaction the message is
  sent again; a page that cannot be read leaves the account as it was known, so that the same
  transactions are searched in the next round.
\<close>

definition waitForExternalMessage ::
  "ton_lib \<Rightarrow> client_ref \<Rightarrow> bytes \<Rightarrow> message \<Rightarrow> ton_address \<Rightarrow> block_id \<Rightarrow> account \<Rightarrow> loop_input \<Rightarrow>
   (effect list \<times> next_step) option" where
  "waitForExternalMessage tlib c h ext dst blk acc i =
     (if \<not> in_alive i 0 then Some (tx_timeout c h (in_reason i), Stop)
      else (case WaitMasterchainInfo (in_api i) (next_seqno (SeqNo blk)) of
              Inl _ \<Rightarrow> Some ([], Continue (WatchLoop h ext dst blk acc))
            | Inr blk' \<Rightarrow>
               (case GetAccount (in_api i) blk' dst of
                  Inl _ \<Rightarrow> Some ([], Continue (WatchLoop h ext dst blk acc))
                | Inr acc' \<Rightarrow>
                    if LastTxLT acc' = LastTxLT acc
                    then Some ([SubmitMessage ext], Continue (WatchLoop h ext dst blk' acc))
                    else
                     (case scan_history (\<lambda>k. in_alive i (Suc k)) (\<lambda>k. ListTransactions (in_api i) k dst 20)
                             (consumes tlib ext) (follows acc) 0 (LastTxLT acc') (LastTxHash acc') of
                        None \<Rightarrow> None
                      | Some (Found tx) \<Rightarrow> Some (tx_confirmed tlib c h tx blk', Stop)
                      | Some PageError \<Rightarrow> Some ([], Continue (WatchLoop h ext dst blk' acc))
                      | Some NotThere \<Rightarrow> Some ([], Continue (WatchLoop h ext dst blk' acc'))))))"

end
