(* ===== verification/Emulate.thy ===== *)
theory Emulate
  imports Lite "HOL-Library.AList"
begin

text \<open>
  \<open>lite.emulateMessage\<close> and \<open>lite.emulateTransaction\<close> (wsbridge/lite.go): the checks and the
  reports around the emulator of tonutils-go, which is a parameter, and the decoder of the list
  of output actions.
\<close>

section \<open>Output actions\<close>

definition action_send_msg :: nat where
  "action_send_msg = 0x0ec3c86d"

definition message_entry :: "ton_lib \<Rightarrow> message \<Rightarrow> (string \<times> json) list" where
  "message_entry tlib m =
     (if MsgType m = InternalMsg then
        [(''type'', JStr ''internal'')] @
        (case DestAddr m of None \<Rightarrow> [] | Some a \<Rightarrow> [(''to'', JStr (addr_String tlib a))]) @
        [(''value'', jdec (Amount m))] @
        (case Payload m of None \<Rightarrow> [] | Some body \<Rightarrow> [(''body'', jboc tlib body)])
      else [(''type'', JStr ''external_out'')])"

text \<open>The mode and the message are read as far as they can be.\<close>

definition send_entry :: "ton_lib \<Rightarrow> tvm_slice \<Rightarrow> json" where
  "send_entry tlib s =
     (case (case LoadUInt tlib 8 s of Inl _ \<Rightarrow> ([], s) | Inr (mode, s') \<Rightarrow> ([(''mode'', jnat mode)], s')) of
        (fs, s') \<Rightarrow> JObj (fs @
          (case LoadRefCell tlib s' of
             Inl _ \<Rightarrow> []
           | Inr (r, _) \<Rightarrow>
              (case BeginParse tlib r of
                 Inl _ \<Rightarrow> []
               | Inr ms \<Rightarrow> (case LoadMessage tlib ms of Inl _ \<Rightarrow> [] | Inr m \<Rightarrow> message_entry tlib m)))))"

definition action_entry :: "ton_lib \<Rightarrow> nat \<Rightarrow> tvm_slice \<Rightarrow> json" where
  "action_entry tlib tag s =
     (if tag = action_send_msg then send_entry tlib s else JObj [(''type'', JStr ''other'')])"

text \<open>From the newest action along the references to the empty list.\<close>

partial_function (option) out_list :: "ton_lib \<Rightarrow> tvm_cell \<Rightarrow> json list \<Rightarrow> json list option" where
  "out_list tlib cur out =
     (if cell_is_empty tlib cur then Some out
      else (case BeginParse tlib cur of
              Inl _ \<Rightarrow> Some out
            | Inr s \<Rightarrow>
               (case LoadRefCell tlib s of
                  Inl _ \<Rightarrow> Some out
                | Inr (prev, s1) \<Rightarrow>
                   (case LoadUInt tlib 32 s1 of
                      Inl _ \<Rightarrow> Some out
                    | Inr (tag, s2) \<Rightarrow> out_list tlib prev (out @ [action_entry tlib tag s2])))))"

definition parseOutActions :: "ton_lib \<Rightarrow> tvm_cell \<Rightarrow> json list option" where
  "parseOutActions tlib actions = map_option rev (out_list tlib actions [])"

section \<open>The emulator\<close>

record em_config =
  ec_Address :: ton_address
  ec_Now :: nat
  ec_Balance :: nat
  ec_Config :: nat

record em_result =
  er_Accepted :: bool
  er_ExitCode :: int
  er_GasUsed :: int
  er_Steps :: int
  er_Committed :: bool
  er_Data :: "tvm_cell option"
  er_Actions :: "tvm_cell option"

text \<open>\<open>tr_Tx\<close> is \<open>None\<close> when there is no transaction, and otherwise the result of parsing it.\<close>

record tr_result =
  tr_Accepted :: bool
  tr_ExitCode :: int
  tr_GasUsed :: int
  tr_Tx :: "transaction result option"

record emulator =
  PrepareBlockchainConfig :: "tvm_cell \<Rightarrow> nat result"
  EmulateExternalMessage :: "tvm_cell \<Rightarrow> tvm_cell \<Rightarrow> message \<Rightarrow> em_config \<Rightarrow> em_result result"
  EmulateInternalMessage :: "tvm_cell \<Rightarrow> tvm_cell \<Rightarrow> tvm_cell \<Rightarrow> nat \<Rightarrow> em_config \<Rightarrow> em_result result"
  NewBlockContext :: "nat \<Rightarrow> nat \<Rightarrow> nat result"
  PrepareAccount :: "tvm_cell \<Rightarrow> bytes option \<Rightarrow> nat \<Rightarrow> ton_address \<Rightarrow> nat result"
  PrepareMessage :: "tvm_cell \<Rightarrow> nat result"
  EmulateTransaction :: "nat \<Rightarrow> nat \<Rightarrow> nat \<Rightarrow> bool \<Rightarrow> tr_result result"

definition with_network_time :: "ton_api \<Rightarrow> (nat \<Rightarrow> 'b checked) \<Rightarrow> 'b checked" where
  "with_network_time api k = attempt (GetTime api) (\<lambda>e. failed (Wrap ''failed to get network time: '' e)) k"

definition with_prepared_config :: "emulator \<Rightarrow> ton_api \<Rightarrow> block_id \<Rightarrow> (nat \<Rightarrow> 'b checked) \<Rightarrow> 'b checked" where
  "with_prepared_config em api blk k =
     attempt (GetBlockchainConfig api blk []) (\<lambda>e. failed (Wrap ''failed to get blockchain config: '' e)) (\<lambda>cf.
     attempt (PrepareBlockchainConfig em (cfg_Root cf))
       (\<lambda>e. failed (Wrap ''failed to prepare blockchain config: '' e)) k)"

subsection \<open>lite.emulateMessage\<close>

definition emulate_type :: "string \<Rightarrow> string" where
  "emulate_type t = (if t = [] then ''external'' else t)"

text \<open>The amount counts for internal messages only.\<close>

definition emulate_checks :: "ton_lib \<Rightarrow> WSRequest \<Rightarrow> (string \<times> ton_address \<times> tvm_cell \<times> nat) checked" where
  "emulate_checks tlib req =
     with_lite_params [l_address, l_boc, l_type, l_amount] req (\<lambda>prm.
     let t = emulate_type (lp_type prm) in
     require (t = ''external'' \<or> t = ''internal'')
       (bad (Lit (''invalid type: expected '' @ quoted ''external'' @ '' or '' @ quoted ''internal''))) (
     with_address tlib (lp_address prm) (\<lambda>addr.
     with_boc tlib (lp_boc prm) (\<lambda>_ cl.
     if t = ''internal'' then
       attempt (parse_uint 10 (lp_amount prm))
         (\<lambda>_. bad (Lit ''invalid amount: expected nano-TON integer string'')) (\<lambda>n. Inr (t, addr, cl, n))
     else Inr (t, addr, cl, 0)))))"

definition emulate_external ::
  "ton_lib \<Rightarrow> emulator \<Rightarrow> tvm_cell \<Rightarrow> tvm_cell \<Rightarrow> tvm_cell \<Rightarrow> em_config \<Rightarrow> (em_result result) checked" where
  "emulate_external tlib em code data cl ec =
     attempt (BeginParse tlib cl) (\<lambda>e. bad (Wrap ''invalid external message BOC: '' e)) (\<lambda>s.
     attempt (LoadExternalMessage tlib s) (\<lambda>e. bad (Wrap ''failed to parse external message: '' e)) (\<lambda>m.
     Inr (EmulateExternalMessage em code data m ec)))"

text \<open>\<open>None\<close> when the list of actions does not end.\<close>

definition emulation_report :: "ton_lib \<Rightarrow> em_result \<Rightarrow> json option" where
  "emulation_report tlib r =
     (case (case er_Actions r of None \<Rightarrow> Some [] | Some a \<Rightarrow> parseOutActions tlib a) of
        None \<Rightarrow> None
      | Some outs \<Rightarrow> Some (JObj
          [(''accepted'', JBool (er_Accepted r)), (''exit_code'', jint (er_ExitCode r)),
           (''gas_used'', jint (er_GasUsed r)), (''steps'', jint (er_Steps r)),
           (''committed'', JBool (er_Committed r)),
           (''new_data'', case er_Data r of None \<Rightarrow> JNull | Some d \<Rightarrow> if er_Committed r then jboc tlib d else JNull),
           (''actions'', case er_Actions r of None \<Rightarrow> JNull | Some a \<Rightarrow> jboc tlib a),
           (''out_messages'', JArr outs)]))"

definition run_emulation :: "ton_lib \<Rightarrow> emulator \<Rightarrow> ton_api \<Rightarrow> string \<times> ton_address \<times> tvm_cell \<times> nat \<Rightarrow> em_result checked" where
  "run_emulation tlib em api x =
     (case x of (t, addr, cl, amount) \<Rightarrow>
        with_master api (\<lambda>blk.
        with_network_time api (\<lambda>now.
        with_account api blk addr (\<lambda>acc.
        (case (acc_Code acc, acc_Data acc) of
           (Some code, Some data) \<Rightarrow>
             with_prepared_config em api blk (\<lambda>pc.
             let ec = \<lparr>ec_Address = addr, ec_Now = now, ec_Balance = account_balance acc, ec_Config = pc\<rparr> in
             (case (if t = ''external'' then emulate_external tlib em code data cl ec
                    else Inr (EmulateInternalMessage em code data cl amount ec)) of
                Inl r \<Rightarrow> Inl r
              | Inr res \<Rightarrow> attempt res (\<lambda>e. failed (Wrap ''emulation failed: '' e)) Inr))
         | _ \<Rightarrow> Inl (bad (Lit ''account is not initialized, cannot emulate'')))))))"

definition handleEmulateMessage :: "ton_lib \<Rightarrow> emulator \<Rightarrow> ton_api \<Rightarrow> WSRequest \<Rightarrow> reply option" where
  "handleEmulateMessage tlib em api req =
     (case emulate_checks tlib req of
        Inl r \<Rightarrow> Some r
      | Inr x \<Rightarrow>
         (case run_emulation tlib em api x of
            Inl r \<Rightarrow> Some r
          | Inr res \<Rightarrow> map_option Result (emulation_report tlib res)))"

subsection \<open>lite.emulateTransaction\<close>

text \<open>Assignments to the result map; a later one replaces an earlier one.\<close>

type_synonym json_map = "(string \<times> json) list"

abbreviation put :: "string \<Rightarrow> json \<Rightarrow> json_map \<Rightarrow> json_map" where
  "put \<equiv> AList.update"

definition fee_or_zero :: "nat option \<Rightarrow> json" where
  "fee_or_zero f = (case f of None \<Rightarrow> JStr ''0'' | Some n \<Rightarrow> jdec n)"

definition compute_ok :: "compute_phase \<Rightarrow> bool" where
  "compute_ok p = (case p of ComputeVM s _ _ _ \<Rightarrow> s | _ \<Rightarrow> False)"

definition compute_summary :: "compute_phase \<Rightarrow> json_map \<Rightarrow> json_map" where
  "compute_summary p out =
     (case p of
        ComputeVM _ _ ec gas \<Rightarrow>
          (let o1 = put ''exit_code'' (jint ec) out in
           case gas of None \<Rightarrow> o1 | Some g \<Rightarrow> put ''gas_used'' (jdec g) o1)
      | ComputeSkipped reason \<Rightarrow> put ''compute_skipped'' (JStr reason) out
      | ComputeOther \<Rightarrow> out)"

definition phase_fees :: "ordinary_desc \<Rightarrow> json" where
  "phase_fees d = JObj
     [(''storage_fee'', fee_or_zero (StoragePhase d)),
      (''gas_fee'', case ComputePhase d of ComputeVM _ g _ _ \<Rightarrow> jdec g | _ \<Rightarrow> JStr ''0''),
      (''fwd_fee'', fee_or_zero (Option.bind (ActionPhase d) ap_TotalFwdFees)),
      (''action_fee'', fee_or_zero (Option.bind (ActionPhase d) ap_TotalActionFees))]"

definition phases_succeed :: "ordinary_desc \<Rightarrow> bool" where
  "phases_succeed d \<longleftrightarrow>
     compute_ok (ComputePhase d) \<and> (case ActionPhase d of None \<Rightarrow> True | Some a \<Rightarrow> ap_Success a) \<and> \<not> Aborted d"

definition summarizeTxPhases :: "transaction \<Rightarrow> json_map \<Rightarrow> json_map" where
  "summarizeTxPhases tx out =
     (case Description tx of
        None \<Rightarrow> out
      | Some d \<Rightarrow>
          (let o1 = compute_summary (ComputePhase d) (put ''aborted'' (JBool (Aborted d)) out);
               o2 = (case ActionPhase d of
                       None \<Rightarrow> o1
                     | Some a \<Rightarrow> put ''action_result_code'' (jint (ap_ResultCode a)) o1)
           in put ''success'' (JBool (phases_succeed d)) (put ''fees'' (phase_fees d) o2)))"

definition accountStateForTransactionEmulation :: "account \<Rightarrow> account_state result" where
  "accountStateForTransactionEmulation acc =
     (case AccState acc of
        None \<Rightarrow> Inl (ErrMsg ''account does not exist, cannot emulate'')
      | Some s \<Rightarrow> if IsValid s then Inr s else Inl (ErrMsg ''account does not exist, cannot emulate''))"

definition transaction_report :: "ton_lib \<Rightarrow> tr_result \<Rightarrow> reply" where
  "transaction_report tlib r =
     (let base = [(''accepted'', JBool (tr_Accepted r)), (''success'', JBool False),
                  (''exit_code'', jint (tr_ExitCode r)), (''gas_used'', jint (tr_GasUsed r)),
                  (''total_fees'', JStr ''0'')]
      in case tr_Tx r of
           None \<Rightarrow> Result (JObj base)
         | Some (Inl e) \<Rightarrow> failed (Wrap ''failed to parse emulated transaction: '' e)
         | Some (Inr tx) \<Rightarrow> Result (JObj (summarizeTxPhases tx
             (put ''total_fees'' (jdec (TotalFees tx)) (put ''transaction'' (serializeTransaction tlib tx) base)))))"

definition handleEmulateTransaction :: "ton_lib \<Rightarrow> emulator \<Rightarrow> ton_api \<Rightarrow> WSRequest \<Rightarrow> reply" where
  "handleEmulateTransaction tlib em api req =
     finish_with (with_lite_params [l_address, l_boc, l_ignore_chksig] req (\<lambda>prm.
       with_address tlib (lp_address prm) (\<lambda>addr.
       with_boc tlib (lp_boc prm) (\<lambda>_ cl.
       with_master api (\<lambda>blk.
       with_network_time api (\<lambda>now.
       with_account api blk addr (\<lambda>acc.
       attempt (accountStateForTransactionEmulation acc)
         (\<lambda>_. bad (Lit ''account does not exist, cannot emulate'')) (\<lambda>st.
       attempt (state_ToCell st) (\<lambda>e. failed (Wrap ''failed to serialize verified account state: '' e)) (\<lambda>ac.
       with_prepared_config em api blk (\<lambda>pc.
       attempt (NewBlockContext em pc now) (\<lambda>e. failed (Wrap ''failed to prepare block context: '' e)) (\<lambda>bc.
       attempt (PrepareAccount em ac (LastTxHash acc) (LastTxLT acc) addr)
         (\<lambda>e. failed (Wrap ''failed to prepare account: '' e)) (\<lambda>pa.
       attempt (PrepareMessage em cl) (\<lambda>e. bad (Wrap ''failed to prepare message: '' e)) (\<lambda>pm.
       attempt (EmulateTransaction em bc pa pm (lp_ignore_chksig prm))
         (\<lambda>e. failed (Wrap ''emulation failed: '' e)) (\<lambda>r.
       Inr (transaction_report tlib r)))))))))))))))"

end
