(* ===== verification/Dht.thy ===== *)
theory Dht
  imports Subscribe
begin

text \<open>
  The dht namespace (wsbridge/dht.go): looking up addresses, overlay nodes and values, and
  publishing records, which the configuration has to allow.
\<close>

section \<open>The DHT client\<close>

record dht_node = overlay_node +
  node_Version :: int

type_synonym continuation = nat

record dht_api =
  dht_FindAddresses :: "bytes \<Rightarrow> (adnl_addr list \<times> bytes) result"
  FindOverlayNodes :: "nat \<Rightarrow> bytes \<Rightarrow> continuation option \<Rightarrow> ((dht_node list) option \<times> continuation option) result"
  FindValue :: "bytes \<Rightarrow> string \<Rightarrow> int \<Rightarrow> (bytes \<times> int) result"
  NewAddress :: "ip \<Rightarrow> int \<Rightarrow> adnl_addr result"
  dht_StoreAddress :: "adnl_addr list \<Rightarrow> int \<Rightarrow> (int \<times> bytes) result"
  dht_StoreOverlayNodes :: "bytes \<Rightarrow> signed_node list \<Rightarrow> int \<Rightarrow> (int \<times> bytes) result"
  ActiveNodesCount :: int

section \<open>Nodes\<close>

record overlayNodeInfo =
  oi_ID :: string
  oi_ADNLID :: string
  oi_Overlay :: string
  oi_Version :: int

record tunnelRelayInfo =
  tr_ID :: string
  tr_ADNLID :: string
  tr_Version :: int

definition overlayNodeToInfo :: "dht_node \<Rightarrow> overlayNodeInfo option" where
  "overlayNodeToInfo n =
     (case (node_key n, node_hash n) of
        (Some key, Inr h) \<Rightarrow> Some \<lparr>oi_ID = b64_encode key, oi_ADNLID = b64_encode h,
          oi_Overlay = b64_encode (node_overlay n), oi_Version = node_Version n\<rparr>
      | _ \<Rightarrow> None)"

definition overlayNodeToTunnelRelay :: "dht_node \<Rightarrow> tunnelRelayInfo option" where
  "overlayNodeToTunnelRelay n =
     (case overlayNodeToInfo n of
        None \<Rightarrow> None
      | Some i \<Rightarrow> Some \<lparr>tr_ID = oi_ID i, tr_ADNLID = oi_ADNLID i, tr_Version = oi_Version i\<rparr>)"

definition node_info_json :: "overlayNodeInfo \<Rightarrow> json" where
  "node_info_json i = JObj [(''id'', JStr (oi_ID i)), (''adnl_id'', JStr (oi_ADNLID i)),
     (''overlay'', JStr (oi_Overlay i)), (''version'', jint (oi_Version i))]"

definition relay_json :: "tunnelRelayInfo \<Rightarrow> json" where
  "relay_json r = JObj [(''id'', JStr (tr_ID r)), (''adnl_id'', JStr (tr_ADNLID r)), (''version'', jint (tr_Version r))]"

section \<open>Parameters\<close>

record addr_entry =
  ad_IP :: string
  ad_Port :: int

record node_entry =
  ne_ID :: string
  ne_Overlay :: string
  ne_Version :: int
  ne_Signature :: string

record dht_params =
  dp_key :: string
  dp_overlay_key :: string
  dp_key_id :: string
  dp_name :: string
  dp_index :: int
  dp_addresses :: "addr_entry list"
  dp_nodes :: "node_entry list"
  dp_ttl :: int
  dp_replicas :: int

definition zero_dht_params :: dht_params where
  "zero_dht_params = \<lparr>dp_key = [], dp_overlay_key = [], dp_key_id = [], dp_name = [], dp_index = 0,
     dp_addresses = [], dp_nodes = [], dp_ttl = 0, dp_replicas = 0\<rparr>"

definition addr_entry_fields :: "(string \<times> addr_entry setter) list" where
  "addr_entry_fields =
    [(''ip'', string_field (\<lambda>s p. p\<lparr>ad_IP := s\<rparr>)), (''port'', int_field 32 (\<lambda>n p. p\<lparr>ad_Port := n\<rparr>))]"

definition node_entry_fields :: "(string \<times> node_entry setter) list" where
  "node_entry_fields =
    [(''id'', string_field (\<lambda>s p. p\<lparr>ne_ID := s\<rparr>)), (''overlay'', string_field (\<lambda>s p. p\<lparr>ne_Overlay := s\<rparr>)),
     (''version'', int_field 32 (\<lambda>n p. p\<lparr>ne_Version := n\<rparr>)),
     (''signature'', string_field (\<lambda>s p. p\<lparr>ne_Signature := s\<rparr>))]"

definition d_key :: "string \<times> dht_params setter" where
  "d_key = (''key'', string_field (\<lambda>s p. p\<lparr>dp_key := s\<rparr>))"
definition d_overlay_key :: "string \<times> dht_params setter" where
  "d_overlay_key = (''overlay_key'', string_field (\<lambda>s p. p\<lparr>dp_overlay_key := s\<rparr>))"
definition d_key_id :: "string \<times> dht_params setter" where
  "d_key_id = (''key_id'', string_field (\<lambda>s p. p\<lparr>dp_key_id := s\<rparr>))"
definition d_name :: "string \<times> dht_params setter" where
  "d_name = (''name'', string_field (\<lambda>s p. p\<lparr>dp_name := s\<rparr>))"
definition d_index :: "string \<times> dht_params setter" where
  "d_index = (''index'', int_field 32 (\<lambda>n p. p\<lparr>dp_index := n\<rparr>))"
definition d_addresses :: "string \<times> dht_params setter" where
  "d_addresses = (''addresses'', list_field (struct_setter addr_entry_fields) \<lparr>ad_IP = [], ad_Port = 0\<rparr>
     (\<lambda>xs p. p\<lparr>dp_addresses := xs\<rparr>))"
definition d_nodes :: "string \<times> dht_params setter" where
  "d_nodes = (''nodes'', list_field (struct_setter node_entry_fields)
     \<lparr>ne_ID = [], ne_Overlay = [], ne_Version = 0, ne_Signature = []\<rparr> (\<lambda>xs p. p\<lparr>dp_nodes := xs\<rparr>))"
definition d_ttl :: "string \<times> dht_params setter" where
  "d_ttl = (''ttl'', int_field 64 (\<lambda>n p. p\<lparr>dp_ttl := n\<rparr>))"
definition d_replicas :: "string \<times> dht_params setter" where
  "d_replicas = (''replicas'', int_field 64 (\<lambda>n p. p\<lparr>dp_replicas := n\<rparr>))"

definition with_dht_params ::
  "(string \<times> dht_params setter) list \<Rightarrow> WSRequest \<Rightarrow> (dht_params \<Rightarrow> 'b checked) \<Rightarrow> 'b checked" where
  "with_dht_params fs req k =
     attempt (unmarshal fs (req_params req) zero_dht_params) (\<lambda>e. bad (Wrap ''invalid params: '' e)) k"

section \<open>Looking up\<close>

definition handleFindAddresses :: "dht_api \<Rightarrow> WSRequest \<Rightarrow> reply checked" where
  "handleFindAddresses dht req =
     with_dht_params [d_key] req (\<lambda>prm.
     with_base64 ''key'' (dp_key prm) (\<lambda>key.
     require (length key = 32) (bad (Lit ''key must be 32 bytes'')) (
     attempt (dht_FindAddresses dht key) (\<lambda>e. failed (Wrap ''dht lookup failed: '' e)) (\<lambda>(addrs, pub).
     Inr (Result (JObj
       [(''addresses'', JArr (map (\<lambda>a. JObj [(''ip'', JStr (show_ip (IPValue a))), (''port'', jint (PortValue a))]) addrs)),
        (''pubkey'', jbytes pub)]))))))"

definition with_overlay_key :: "string \<Rightarrow> string \<Rightarrow> (bytes \<Rightarrow> 'b checked) \<Rightarrow> 'b checked" where
  "with_overlay_key name s k =
     with_base64 name s (\<lambda>key.
     require (1 \<le> length key \<and> length key \<le> 256) (bad (Lit ''overlay_key must be between 1 and 256 bytes'')) (k key))"

definition handleFindOverlayNodes :: "dht_api \<Rightarrow> WSRequest \<Rightarrow> reply checked" where
  "handleFindOverlayNodes dht req =
     with_dht_params [d_overlay_key] req (\<lambda>prm.
     with_overlay_key ''key'' (dp_overlay_key prm) (\<lambda>key.
     attempt (FindOverlayNodes dht 0 key None) (\<lambda>e. failed (Wrap ''overlay lookup failed: '' e)) (\<lambda>(nodes, _).
     let infos = (case nodes of None \<Rightarrow> [] | Some ns \<Rightarrow> List.map_filter overlayNodeToInfo ns) in
     Inr (Result (JObj [(''nodes'', JArr (map node_info_json infos)), (''count'', jnat (length infos))])))))"

definition handleDHTFindValue :: "dht_api \<Rightarrow> WSRequest \<Rightarrow> reply checked" where
  "handleDHTFindValue dht req =
     with_dht_params [d_key_id, d_name, d_index] req (\<lambda>prm.
     with_base64 ''key_id'' (dp_key_id prm) (\<lambda>key.
     require (length key = 32) (bad (Lit ''key_id must be 32 bytes'')) (
     require (1 \<le> length (dp_name prm) \<and> length (dp_name prm) \<le> 127)
       (bad (Lit ''name must be between 1 and 127 bytes'')) (
     require (0 \<le> dp_index prm \<and> dp_index prm \<le> 15) (bad (Lit ''index must be between 0 and 15'')) (
     attempt (FindValue dht key (dp_name prm) (dp_index prm)) (\<lambda>e. failed (Wrap ''dht find value failed: '' e)) (\<lambda>(d, ttl).
     Inr (Result (JObj [(''data'', jbytes d), (''ttl'', jint ttl)]))))))))"

subsection \<open>Tunnel relays\<close>

text \<open>The key of the free relays; \<open>sha256\<close> is a parameter. The tag is stored little-endian.\<close>

definition tunnelOverlayKeyHash :: "(bytes \<Rightarrow> bytes) \<Rightarrow> bytes \<Rightarrow> bytes" where
  "tunnelOverlayKeyHash sha256 paymentNode =
     sha256 ([0xe9, 0x13, 0x93, 0xf5] @ take 32 (paymentNode @ replicate 32 0))"

definition add_relay :: "dht_node \<Rightarrow> tunnelRelayInfo list \<Rightarrow> tunnelRelayInfo list" where
  "add_relay n relays =
     (case overlayNodeToTunnelRelay n of
        None \<Rightarrow> relays
      | Some r \<Rightarrow> if tr_ID r \<in> tr_ID ` set relays then relays else relays @ [r])"

text \<open>
  The rounds of the search; \<open>left\<close> of the three are to go. An error counts only in the first.
\<close>

fun tunnel_rounds ::
  "(nat \<Rightarrow> continuation option \<Rightarrow> ((dht_node list) option \<times> continuation option) result) \<Rightarrow>
   nat \<Rightarrow> nat \<Rightarrow> continuation option \<Rightarrow> tunnelRelayInfo list \<Rightarrow> (tunnelRelayInfo list) result" where
  "tunnel_rounds query i 0 cont relays = Inr relays"
| "tunnel_rounds query i (Suc left) cont relays =
     (case query i cont of
        Inl e \<Rightarrow> if i = 0 then Inl e else Inr relays
      | Inr (nodes, c) \<Rightarrow>
          (let relays' = (case nodes of None \<Rightarrow> relays | Some ns \<Rightarrow> fold add_relay ns relays) in
           if c = None then Inr relays' else tunnel_rounds query (Suc i) left c relays'))"

definition handleFindTunnelNodes :: "(bytes \<Rightarrow> bytes) \<Rightarrow> dht_api \<Rightarrow> reply checked" where
  "handleFindTunnelNodes sha256 dht =
     attempt (tunnel_rounds (\<lambda>i. FindOverlayNodes dht i (tunnelOverlayKeyHash sha256 (replicate 32 0))) 0 3 None [])
       (\<lambda>e. failed (Wrap ''tunnel relay lookup failed: '' e)) (\<lambda>relays.
     Inr (Result (JObj [(''relays'', JArr (map relay_json relays)), (''count'', jnat (length relays))])))"

section \<open>Publishing\<close>

definition write_allowed :: "BridgeConfig \<Rightarrow> string \<Rightarrow> 'b checked \<Rightarrow> 'b checked" where
  "write_allowed cf name k =
     require (AllowWrite (DHT (Namespaces cf)))
       (failed (Lit (name @ '' is disabled (set namespaces.dht.allow_write in config)''))) k"

text \<open>A time to live in seconds; multiplying wraps at 64 bits.\<close>

definition store_ttl :: "int \<Rightarrow> int" where
  "store_ttl t = (if t > 0 then to_int64 (t * second) else 300 * second)"

fun store_addresses :: "BridgeConfig \<Rightarrow> dht_api \<Rightarrow> addr_entry list \<Rightarrow> (adnl_addr list) checked" where
  "store_addresses cf dht [] = Inr []"
| "store_addresses cf dht (a # as) =
     present (parse_ip (ad_IP a)) (bad (Lit (''invalid IP address: '' @ ad_IP a))) (\<lambda>ip.
     require (1 \<le> ad_Port a \<and> ad_Port a \<le> 65535) (bad (Lit ''port must be between 1 and 65535'')) (
     require (\<not> (SSRFProtection (ADNL (Namespaces cf)) \<and> isPrivateIP ip))
       (bad (Lit ''private/loopback addresses not allowed'')) (
     attempt (NewAddress dht ip (ad_Port a)) (\<lambda>e. bad (Wrap ''invalid ADNL address: '' e)) (\<lambda>x.
     (case store_addresses cf dht as of Inl r \<Rightarrow> Inl r | Inr xs \<Rightarrow> Inr (x # xs))))))"

definition store_address_checks :: "BridgeConfig \<Rightarrow> dht_api \<Rightarrow> WSRequest \<Rightarrow> (adnl_addr list \<times> int) checked" where
  "store_address_checks cf dht req =
     write_allowed cf ''dht.storeAddress'' (
     with_dht_params [d_addresses, d_ttl, d_replicas] req (\<lambda>prm.
     require (dp_addresses prm \<noteq> []) (bad (Lit ''addresses list must not be empty'')) (
     (case store_addresses cf dht (dp_addresses prm) of
        Inl r \<Rightarrow> Inl r
      | Inr xs \<Rightarrow> Inr (xs, store_ttl (dp_ttl prm))))))"

definition stored_result :: "string \<Rightarrow> int \<times> bytes \<Rightarrow> reply" where
  "stored_result name x = Result (JObj
     [(''stored'', JBool True), (''replicas'', jint (fst x)), (''id_key'', jbytes (snd x)), (name, jbytes (snd x))])"

definition handleDHTStoreAddress :: "dht_api \<Rightarrow> client_ref \<Rightarrow> WSRequest \<Rightarrow> WSBridge \<Rightarrow> outcome" where
  "handleDHTStoreAddress dht c req b =
     handler c req b (store_address_checks (cfg b) dht req) (\<lambda>(addrs, ttl).
       (b, StoreAddress addrs ttl # reply_to c req
             (case dht_StoreAddress dht addrs ttl of
                Inl e \<Rightarrow> failed (Wrap ''dht store address failed: '' e)
              | Inr x \<Rightarrow> stored_result ''adnl_id'' x)))"

fun store_nodes :: "node_entry list \<Rightarrow> (signed_node list) checked" where
  "store_nodes [] = Inr []"
| "store_nodes (n # ns) =
     with_base64 ''node id'' (ne_ID n) (\<lambda>i.
     require (length i = 32) (bad (Lit ''node id must be 32 bytes'')) (
     with_base64 ''node overlay'' (ne_Overlay n) (\<lambda>ov.
     require (length ov = 32) (bad (Lit ''node overlay must be 32 bytes'')) (
     with_base64 ''node signature'' (ne_Signature n) (\<lambda>sig.
     require (length sig = 64) (bad (Lit ''node signature must be 64 bytes'')) (
     (case store_nodes ns of
        Inl r \<Rightarrow> Inl r
      | Inr xs \<Rightarrow> Inr (\<lparr>sn_ID = i, sn_Overlay = ov, sn_Version = ne_Version n, sn_Signature = sig\<rparr> # xs))))))))"

definition store_nodes_checks :: "BridgeConfig \<Rightarrow> WSRequest \<Rightarrow> (bytes \<times> signed_node list \<times> int) checked" where
  "store_nodes_checks cf req =
     write_allowed cf ''dht.storeOverlayNodes'' (
     with_dht_params [d_overlay_key, d_nodes, d_ttl, d_replicas] req (\<lambda>prm.
     with_overlay_key ''overlay_key'' (dp_overlay_key prm) (\<lambda>key.
     require (dp_nodes prm \<noteq> []) (bad (Lit ''nodes list must not be empty'')) (
     (case store_nodes (dp_nodes prm) of
        Inl r \<Rightarrow> Inl r
      | Inr xs \<Rightarrow> Inr (key, xs, store_ttl (dp_ttl prm)))))))"

definition handleDHTStoreOverlayNodes :: "dht_api \<Rightarrow> client_ref \<Rightarrow> WSRequest \<Rightarrow> WSBridge \<Rightarrow> outcome" where
  "handleDHTStoreOverlayNodes dht c req b =
     handler c req b (store_nodes_checks (cfg b) req) (\<lambda>(key, nodes, ttl).
       (b, StoreOverlayNodes key nodes ttl # reply_to c req
             (case dht_StoreOverlayNodes dht key nodes ttl of
                Inl e \<Rightarrow> failed (Wrap ''dht store overlay nodes failed: '' e)
              | Inr x \<Rightarrow> stored_result ''overlay_id'' x)))"

end
