(* ===== verification/Tokens.thy ===== *)
theory Tokens
  imports Lite Dht
begin

text \<open>
  The jetton, nft, wallet, sbt, payment and network namespaces: getters of contracts, with the
  library calls as parameters and the reports as the code builds them.
\<close>

section \<open>The contract clients\<close>

record jetton_data =
  TotalSupply :: "int option"
  Mintable :: bool
  AdminAddr :: "ton_address option"
  jd_Content :: "content option"

record nft_data =
  Initialized :: bool
  nd_Index :: "int option"
  CollectionAddress :: "ton_address option"
  OwnerAddress :: "ton_address option"
  nd_Content :: "content option"

record collection_data =
  NextItemIndex :: "int option"
  cd_OwnerAddress :: "ton_address option"
  cd_Content :: "content option"

record royalty =
  Factor :: nat
  Base :: nat
  ro_Address :: "ton_address option"

record their_state =
  ConditionalsHash :: bytes
  ActionStatesHash :: bytes

record quarantine =
  q_Seqno :: nat
  QuarantineStarts :: nat
  CommittedByOwner :: bool
  OurSettlementFinalized :: bool
  ActionsToExecuteHash :: bytes
  TheirState :: "their_state option"

record channel =
  ch_Status :: int
  IsA :: bool
  ch_Initialized :: bool
  CommittedSeqno :: nat
  WalletSeqno :: nat
  KeyA :: bytes
  KeyB :: bytes
  ChannelID :: bytes
  PartyAddress :: "ton_address option"
  QuarantineDuration :: nat
  ConditionalCloseDuration :: nat
  ActionsDuration :: nat
  AttachAmount :: nat
  Quarantine :: "quarantine option"

record contracts =
  GetJettonData :: "ton_address \<Rightarrow> jetton_data result"
  GetJettonWallet :: "ton_address \<Rightarrow> ton_address \<Rightarrow> ton_address result"
  GetNFTData :: "ton_address \<Rightarrow> nft_data result"
  GetNFTContent :: "ton_address \<Rightarrow> int \<Rightarrow> content \<Rightarrow> (content option) result"
  GetCollectionData :: "ton_address \<Rightarrow> collection_data result"
  GetNFTAddressByIndex :: "ton_address \<Rightarrow> int \<Rightarrow> ton_address result"
  RoyaltyParams :: "ton_address \<Rightarrow> royalty result"
  ContentFromCell :: "tvm_cell \<Rightarrow> content result"
  GetPublicKey :: "ton_address \<Rightarrow> bytes result"
  GetChannel :: "ton_address \<Rightarrow> channel result"
  LoadAddr :: "tvm_slice \<Rightarrow> (ton_address option) result"

section \<open>Parameters\<close>

record token_params =
  tp_address :: string
  tp_jetton_master :: string
  tp_owner :: string
  tp_jetton_wallet :: string
  tp_collection :: string
  tp_index :: string
  tp_individual_content :: string

definition zero_token_params :: token_params where
  "zero_token_params = \<lparr>tp_address = [], tp_jetton_master = [], tp_owner = [], tp_jetton_wallet = [],
     tp_collection = [], tp_index = [], tp_individual_content = []\<rparr>"

definition t_address :: "string \<times> token_params setter" where
  "t_address = (''address'', string_field (\<lambda>s p. p\<lparr>tp_address := s\<rparr>))"
definition t_jetton_master :: "string \<times> token_params setter" where
  "t_jetton_master = (''jetton_master'', string_field (\<lambda>s p. p\<lparr>tp_jetton_master := s\<rparr>))"
definition t_owner :: "string \<times> token_params setter" where
  "t_owner = (''owner'', string_field (\<lambda>s p. p\<lparr>tp_owner := s\<rparr>))"
definition t_jetton_wallet :: "string \<times> token_params setter" where
  "t_jetton_wallet = (''jetton_wallet'', string_field (\<lambda>s p. p\<lparr>tp_jetton_wallet := s\<rparr>))"
definition t_collection :: "string \<times> token_params setter" where
  "t_collection = (''collection'', string_field (\<lambda>s p. p\<lparr>tp_collection := s\<rparr>))"
definition t_index :: "string \<times> token_params setter" where
  "t_index = (''index'', string_field (\<lambda>s p. p\<lparr>tp_index := s\<rparr>))"
definition t_individual_content :: "string \<times> token_params setter" where
  "t_individual_content = (''individual_content'', string_field (\<lambda>s p. p\<lparr>tp_individual_content := s\<rparr>))"

definition with_token_params ::
  "(string \<times> token_params setter) list \<Rightarrow> WSRequest \<Rightarrow> (token_params \<Rightarrow> 'b checked) \<Rightarrow> 'b checked" where
  "with_token_params fs req k =
     attempt (unmarshal fs (req_params req) zero_token_params) (\<lambda>e. bad (Wrap ''invalid params: '' e)) k"

text \<open>The head of the methods with a single address.\<close>

definition with_token_address :: "ton_lib \<Rightarrow> WSRequest \<Rightarrow> (ton_address \<Rightarrow> 'b checked) \<Rightarrow> 'b checked" where
  "with_token_address tlib req k =
     with_token_params [t_address] req (\<lambda>prm. with_address tlib (tp_address prm) k)"

definition named_address :: "ton_lib \<Rightarrow> string \<Rightarrow> string \<Rightarrow> (ton_address \<Rightarrow> 'b checked) \<Rightarrow> 'b checked" where
  "named_address tlib name raw k =
     attempt (parseAddress tlib raw) (\<lambda>e. bad (Wrap (''invalid '' @ name @ '' address: '') e)) k"

definition with_index :: "string \<Rightarrow> (int \<Rightarrow> 'b checked) \<Rightarrow> 'b checked" where
  "with_index s k =
     present (SetString10 s) (bad (Lit ''invalid index: must be a decimal integer'')) k"

definition int_or_zero :: "int option \<Rightarrow> json" where
  "int_or_zero n = JStr (case n of None \<Rightarrow> ''0'' | Some x \<Rightarrow> show_int x)"

text \<open>The head of the methods that run a get method without arguments.\<close>

definition run_getter ::
  "ton_api \<Rightarrow> ton_address \<Rightarrow> string \<Rightarrow> (stack_value list \<Rightarrow> 'b checked) \<Rightarrow> 'b checked" where
  "run_getter api addr name k =
     with_master api (\<lambda>blk.
     attempt (RunGetMethod api blk addr name []) (\<lambda>e. failed (Wrap (''run '' @ name @ '' failed: '') e)) k)"

section \<open>Jettons\<close>

definition handleJettonGetData :: "ton_lib \<Rightarrow> contracts \<Rightarrow> WSRequest \<Rightarrow> reply" where
  "handleJettonGetData tlib ct req =
     finish_with (with_token_address tlib req (\<lambda>addr.
       attempt (GetJettonData ct addr) (\<lambda>e. failed (Wrap ''get jetton data failed: '' e)) (\<lambda>d.
       Inr (Result (JObj
         [(''total_supply'', int_or_zero (TotalSupply d)), (''mintable'', JBool (Mintable d)),
          (''admin'', addressStringOrNil tlib (AdminAddr d)), (''content'', serializeJettonContent (jd_Content d))])))))"

definition handleJettonGetWalletAddress :: "ton_lib \<Rightarrow> contracts \<Rightarrow> WSRequest \<Rightarrow> reply" where
  "handleJettonGetWalletAddress tlib ct req =
     finish_with (with_token_params [t_jetton_master, t_owner] req (\<lambda>prm.
       named_address tlib ''jetton_master'' (tp_jetton_master prm) (\<lambda>master.
       named_address tlib ''owner'' (tp_owner prm) (\<lambda>owner.
       attempt (GetJettonWallet ct master owner) (\<lambda>e. failed (Wrap ''get jetton wallet failed: '' e)) (\<lambda>w.
       Inr (Result (JObj [(''wallet_address'', JStr (addr_String tlib w))])))))))"

text \<open>An item of the stack that should be an address; anything else leaves \<open>null\<close>.\<close>

definition stack_address :: "ton_lib \<Rightarrow> contracts \<Rightarrow> stack_value list \<Rightarrow> nat \<Rightarrow> json" where
  "stack_address tlib ct stack i =
     (if i < length stack then
        (case stack ! i of
           SSlice (Some s) \<Rightarrow> (case LoadAddr ct s of Inl _ \<Rightarrow> JNull | Inr a \<Rightarrow> addressStringOrNil tlib a)
         | _ \<Rightarrow> JNull)
      else JNull)"

text \<open>A typed nil integer prints as \<open><nil>\<close>.\<close>

definition stack_balance :: "stack_value list \<Rightarrow> json" where
  "stack_balance stack =
     JStr (case stack of
             SInt (Some n) # _ \<Rightarrow> show_int n
           | SInt None # _ \<Rightarrow> ''<nil>''
           | _ \<Rightarrow> ''0'')"

definition handleJettonGetBalance :: "ton_lib \<Rightarrow> ton_api \<Rightarrow> contracts \<Rightarrow> WSRequest \<Rightarrow> reply" where
  "handleJettonGetBalance tlib api ct req =
     finish_with (with_token_params [t_jetton_wallet] req (\<lambda>prm.
       with_address tlib (tp_jetton_wallet prm) (\<lambda>addr.
       run_getter api addr ''get_wallet_data'' (\<lambda>stack.
       Inr (Result (JObj
         [(''balance'', stack_balance stack), (''owner'', stack_address tlib ct stack 1),
          (''jetton_master'', stack_address tlib ct stack 2)]))))))"

section \<open>NFTs\<close>

definition serializeContent :: "content option \<Rightarrow> json" where
  "serializeContent c = serializeContentBase c"

text \<open>An item of a collection takes its content from the collection when that call succeeds.\<close>

definition full_content :: "ton_lib \<Rightarrow> contracts \<Rightarrow> nft_data \<Rightarrow> content option" where
  "full_content tlib ct d =
     (case (CollectionAddress d, nd_Index d) of
        (Some coll, Some idx) \<Rightarrow>
          if IsAddrNone tlib coll then nd_Content d
          else (case GetNFTContent ct coll idx
                       (case nd_Content d of None \<Rightarrow> ContentOffchain [] | Some x \<Rightarrow> x) of
                  Inl _ \<Rightarrow> nd_Content d
                | Inr full \<Rightarrow> full)
      | _ \<Rightarrow> nd_Content d)"

definition handleNFTGetData :: "ton_lib \<Rightarrow> contracts \<Rightarrow> WSRequest \<Rightarrow> reply" where
  "handleNFTGetData tlib ct req =
     finish_with (with_token_address tlib req (\<lambda>addr.
       attempt (GetNFTData ct addr) (\<lambda>e. failed (Wrap ''get nft data failed: '' e)) (\<lambda>d.
       Inr (Result (JObj
         [(''initialized'', JBool (Initialized d)), (''index'', int_or_zero (nd_Index d)),
          (''collection'', addressStringOrNil tlib (CollectionAddress d)),
          (''owner'', addressStringOrNil tlib (OwnerAddress d)),
          (''content'', serializeContent (full_content tlib ct d))])))))"

definition handleNFTGetCollectionData :: "ton_lib \<Rightarrow> contracts \<Rightarrow> WSRequest \<Rightarrow> reply" where
  "handleNFTGetCollectionData tlib ct req =
     finish_with (with_token_address tlib req (\<lambda>addr.
       attempt (GetCollectionData ct addr) (\<lambda>e. failed (Wrap ''get collection data failed: '' e)) (\<lambda>d.
       Inr (Result (JObj
         [(''next_item_index'', int_or_zero (NextItemIndex d)),
          (''owner'', addressStringOrNil tlib (cd_OwnerAddress d)),
          (''content'', serializeContent (cd_Content d))])))))"

definition handleNFTGetAddressByIndex :: "ton_lib \<Rightarrow> contracts \<Rightarrow> WSRequest \<Rightarrow> reply" where
  "handleNFTGetAddressByIndex tlib ct req =
     finish_with (with_token_params [t_collection, t_index] req (\<lambda>prm.
       named_address tlib ''collection'' (tp_collection prm) (\<lambda>coll.
       with_index (tp_index prm) (\<lambda>idx.
       attempt (GetNFTAddressByIndex ct coll idx) (\<lambda>e. failed (Wrap ''get nft address by index failed: '' e)) (\<lambda>a.
       Inr (Result (JObj [(''address'', JStr (addr_String tlib a))])))))))"

definition handleNFTGetRoyaltyParams :: "ton_lib \<Rightarrow> contracts \<Rightarrow> WSRequest \<Rightarrow> reply" where
  "handleNFTGetRoyaltyParams tlib ct req =
     finish_with (with_token_params [t_collection] req (\<lambda>prm.
       named_address tlib ''collection'' (tp_collection prm) (\<lambda>coll.
       attempt (RoyaltyParams ct coll) (\<lambda>e. failed (Wrap ''get royalty params failed: '' e)) (\<lambda>r.
       Inr (Result (JObj
         [(''factor'', jnat (Factor r)), (''base'', jnat (Base r)),
          (''address'', addressStringOrNil tlib (ro_Address r))]))))))"

definition content_checks :: "ton_lib \<Rightarrow> contracts \<Rightarrow> WSRequest \<Rightarrow> (ton_address \<times> int \<times> content) checked" where
  "content_checks tlib ct req =
     with_token_params [t_collection, t_index, t_individual_content] req (\<lambda>prm.
     named_address tlib ''collection'' (tp_collection prm) (\<lambda>coll.
     with_index (tp_index prm) (\<lambda>idx.
     attempt (decodeBase64 (tp_individual_content prm))
       (\<lambda>e. bad (Wrap ''invalid individual_content: base64 decode failed: '' e)) (\<lambda>d.
     attempt (FromBOC tlib d) (\<lambda>e. bad (Wrap ''invalid individual_content: BOC parse failed: '' e)) (\<lambda>cl.
     attempt (ContentFromCell ct cl) (\<lambda>e. bad (Wrap ''invalid individual_content: content parse failed: '' e)) (\<lambda>x.
     Inr (coll, idx, x)))))))"

definition handleNFTGetContent :: "ton_lib \<Rightarrow> contracts \<Rightarrow> WSRequest \<Rightarrow> reply" where
  "handleNFTGetContent tlib ct req =
     (case content_checks tlib ct req of
        Inl r \<Rightarrow> r
      | Inr (coll, idx, x) \<Rightarrow>
         (case GetNFTContent ct coll idx x of
            Inl e \<Rightarrow> failed (Wrap ''get nft content failed: '' e)
          | Inr full \<Rightarrow> Result (JObj [(''content'', serializeContent full)])))"

section \<open>Wallets\<close>

text \<open>
  \<open>big.Int.Uint64\<close> keeps the low 64 bits of the magnitude; \<open>Int64\<close> gives them the sign back.
\<close>

definition big_Uint64 :: "int \<Rightarrow> nat" where
  "big_Uint64 n = nat (abs n mod 2 ^ 64)"

definition big_Int64 :: "int \<Rightarrow> int" where
  "big_Int64 n = to_int64 n"

definition first_int :: "stack_value list \<Rightarrow> int option" where
  "first_int stack = (case stack of SInt (Some n) # _ \<Rightarrow> Some n | _ \<Rightarrow> None)"

definition handleWalletGetSeqno :: "ton_lib \<Rightarrow> ton_api \<Rightarrow> WSRequest \<Rightarrow> reply" where
  "handleWalletGetSeqno tlib api req =
     finish_with (with_token_address tlib req (\<lambda>addr.
       run_getter api addr ''seqno'' (\<lambda>stack.
       Inr (Result (JObj [(''seqno'', jnat (case first_int stack of None \<Rightarrow> 0 | Some n \<Rightarrow> big_Uint64 n))])))))"

definition handleWalletGetPublicKey :: "ton_lib \<Rightarrow> contracts \<Rightarrow> WSRequest \<Rightarrow> reply" where
  "handleWalletGetPublicKey tlib ct req =
     finish_with (with_token_address tlib req (\<lambda>addr.
       attempt (GetPublicKey ct addr) (\<lambda>e. failed (Wrap ''get public key failed: '' e)) (\<lambda>k.
       Inr (Result (JObj [(''public_key'', jbytes k)])))))"

section \<open>Soulbound tokens\<close>

definition handleSBTGetAuthorityAddress :: "ton_lib \<Rightarrow> ton_api \<Rightarrow> contracts \<Rightarrow> WSRequest \<Rightarrow> reply" where
  "handleSBTGetAuthorityAddress tlib api ct req =
     finish_with (with_token_address tlib req (\<lambda>addr.
       run_getter api addr ''get_authority_address'' (\<lambda>stack.
       (case stack of
          [] \<Rightarrow> Inl (failed (Lit ''empty result from get_authority_address''))
        | SSlice (Some s) # _ \<Rightarrow>
            attempt (LoadAddr ct s) (\<lambda>e. failed (Wrap ''failed to load authority address: '' e)) (\<lambda>a.
            Inr (Result (JObj [(''authority'', addressStringOrNil tlib a)])))
        | _ \<Rightarrow> Inr (Result (JObj [(''authority'', JNull)]))))))"

definition handleSBTGetRevokedTime :: "ton_lib \<Rightarrow> ton_api \<Rightarrow> WSRequest \<Rightarrow> reply" where
  "handleSBTGetRevokedTime tlib api req =
     finish_with (with_token_address tlib req (\<lambda>addr.
       run_getter api addr ''get_revoked_time'' (\<lambda>stack.
       Inr (Result (JObj [(''revoked_time'', jint (case first_int stack of None \<Rightarrow> 0 | Some n \<Rightarrow> big_Int64 n))])))))"

section \<open>Payment channels\<close>

definition their_state_json :: "their_state option \<Rightarrow> json" where
  "their_state_json s =
     (case s of
        None \<Rightarrow> JNull
      | Some x \<Rightarrow> JObj [(''conditionals_hash'', jhex (ConditionalsHash x)), (''action_states_hash'', jhex (ActionStatesHash x))])"

definition quarantine_json :: "quarantine option \<Rightarrow> json" where
  "quarantine_json q =
     (case q of
        None \<Rightarrow> JNull
      | Some x \<Rightarrow> JObj
          [(''seqno'', jnat (q_Seqno x)), (''quarantine_starts'', jnat (QuarantineStarts x)),
           (''committed_by_owner'', JBool (CommittedByOwner x)),
           (''our_settlement_finalized'', JBool (OurSettlementFinalized x)),
           (''actions_to_execute_hash'', jhex (ActionsToExecuteHash x)),
           (''their_state'', their_state_json (TheirState x))])"

definition channel_json :: "ton_lib \<Rightarrow> channel \<Rightarrow> json" where
  "channel_json tlib ch = JObj
     [(''status'', jint (ch_Status ch)), (''is_a'', JBool (IsA ch)), (''initialized'', JBool (ch_Initialized ch)),
      (''committed_seqno'', jnat (CommittedSeqno ch)), (''wallet_seqno'', jnat (WalletSeqno ch)),
      (''key_a'', jbytes (KeyA ch)), (''key_b'', jbytes (KeyB ch)), (''channel_id'', jhex (ChannelID ch)),
      (''party_address'', addressStringOrNil tlib (PartyAddress ch)),
      (''closing_config'', JObj
         [(''quarantine_duration'', jnat (QuarantineDuration ch)),
          (''conditional_close_duration'', jnat (ConditionalCloseDuration ch)),
          (''actions_duration'', jnat (ActionsDuration ch)),
          (''replication_message_attach_amount'', jdec (AttachAmount ch))]),
      (''quarantine'', quarantine_json (Quarantine ch))]"

definition handlePaymentGetChannelState :: "ton_lib \<Rightarrow> contracts \<Rightarrow> WSRequest \<Rightarrow> reply" where
  "handlePaymentGetChannelState tlib ct req =
     finish_with (with_token_address tlib req (\<lambda>addr.
       attempt (GetChannel ct addr) (\<lambda>e. failed (Wrap ''get channel failed: '' e)) (\<lambda>ch.
       Inr (Result (channel_json tlib ch)))))"

section \<open>The network\<close>

text \<open>A bridge without a DHT client reports it as not initialized.\<close>

definition handleNetworkInfo :: "dht_api option \<Rightarrow> WSBridge \<Rightarrow> reply" where
  "handleNetworkInfo dht b =
     (let n = (case dht of None \<Rightarrow> 0 | Some d \<Rightarrow> ActiveNodesCount d) in
      Result (JObj
        [(''dht_initialized'', JBool (dht \<noteq> None)), (''dht_connected'', JBool (n > 0)),
         (''dht_active_nodes'', jint n), (''ws_clients'', jnat (gm_len (clients b)))]))"

end
