(* ===== verification/Dns.thy ===== *)
theory Dns
  imports Tokens
begin

text \<open>
  The dns namespace (wsbridge/dns.go): resolving a TON domain to its records, the contract that
  owns it and its expiration, and the decoding of its text records.
\<close>

section \<open>Domains\<close>

text \<open>
  \<open>dns.Domain\<close> as the bridge reads it; \<open>Records\<close> is \<open>None\<close> for a nil dictionary and otherwise
  the pairs of key and value that \<open>LoadAll\<close> gives, nothing when it fails.
\<close>

record dns_domain =
  GetWalletRecord :: "ton_address option"
  GetSiteRecord :: "bytes option \<times> bool"
  dom_NFTData :: "nft_data result"
  dom_NFTAddress :: "ton_address option"
  GetEditor :: "(ton_address option) result"
  Records :: "(tvm_slice \<times> tvm_slice) list option"

text \<open>The resolver and the operations on cells that only this namespace uses.\<close>

record dns_lib =
  Resolve :: "string \<Rightarrow> dns_domain result"
  LoadRef :: "tvm_slice \<Rightarrow> (tvm_slice \<times> tvm_slice) result"
  LoadSlice :: "nat \<Rightarrow> tvm_slice \<Rightarrow> (bytes \<times> tvm_slice) result"
  StoreBytes :: "bytes \<Rightarrow> tvm_cell result"

section \<open>Text records\<close>

text \<open>
  \<open>decodeDNSText\<close>: a count of chunks, then per chunk its length and its bytes, each next chunk in
  the first reference of the cell before it. A slice is read from front to back, so every load
  gives the rest of it.
\<close>

fun text_chunks :: "ton_lib \<Rightarrow> dns_lib \<Rightarrow> nat \<Rightarrow> tvm_slice \<Rightarrow> bytes \<Rightarrow> bytes result" where
  "text_chunks tlib dl 0 s acc = Inr acc"
| "text_chunks tlib dl (Suc n) s acc =
     (case LoadUInt tlib 8 s of
        Inl e \<Rightarrow> Inl e
      | Inr (len, s1) \<Rightarrow>
         (case LoadSlice dl (len * 8) s1 of
            Inl e \<Rightarrow> Inl e
          | Inr (chunk, s2) \<Rightarrow>
              if n = 0 then Inr (acc @ chunk)
              else (case LoadRef dl s2 of
                      Inl e \<Rightarrow> Inl e
                    | Inr (s3, _) \<Rightarrow> text_chunks tlib dl n s3 (acc @ chunk))))"

definition decodeDNSText :: "ton_lib \<Rightarrow> dns_lib \<Rightarrow> tvm_slice \<Rightarrow> bytes result" where
  "decodeDNSText tlib dl s =
     (case LoadUInt tlib 8 s of
        Inl e \<Rightarrow> Inl e
      | Inr (count, s1) \<Rightarrow> text_chunks tlib dl count s1 [])"

definition dns_text_category :: nat where
  "dns_text_category = 0x1eda"

text \<open>A record that cannot be read, or is no text, is skipped.\<close>

definition text_record :: "ton_lib \<Rightarrow> dns_lib \<Rightarrow> tvm_slice \<times> tvm_slice \<Rightarrow> (string \<times> bytes) option" where
  "text_record tlib dl kv =
     (case LoadRef dl (snd kv) of
        Inl _ \<Rightarrow> None
      | Inr (ref, _) \<Rightarrow>
         (case LoadUInt tlib 16 ref of
            Inl _ \<Rightarrow> None
          | Inr (cat, ref1) \<Rightarrow>
              if cat \<noteq> dns_text_category then None
              else
               (case decodeDNSText tlib dl ref1 of
                  Inl _ \<Rightarrow> None
                | Inr txt \<Rightarrow>
                   (case LoadSlice dl 256 (fst kv) of
                      Inl _ \<Rightarrow> None
                    | Inr (key, _) \<Rightarrow> Some (hex_encode key, txt)))))"

fun text_records ::
  "ton_lib \<Rightarrow> dns_lib \<Rightarrow> (tvm_slice \<times> tvm_slice) list \<Rightarrow> (string, bytes) gomap \<Rightarrow> (string, bytes) gomap" where
  "text_records tlib dl [] m = m"
| "text_records tlib dl (kv # kvs) m =
     text_records tlib dl kvs
       (case text_record tlib dl kv of None \<Rightarrow> m | Some (k, txt) \<Rightarrow> gm_put k txt m)"

text \<open>A Go string of any bytes; \<open>json.Marshal\<close> writes it.\<close>

definition bytes_text :: "bytes \<Rightarrow> string" where
  "bytes_text bs = map (\<lambda>x. char_of (unat x)) bs"

definition text_records_json :: "ton_lib \<Rightarrow> dns_lib \<Rightarrow> dns_domain \<Rightarrow> (string \<times> json) list" where
  "text_records_json tlib dl d =
     (case Records d of
        None \<Rightarrow> []
      | Some kvs \<Rightarrow>
          let m = text_records tlib dl kvs gm_empty in
          if gm_len m > 0
          then [(''text_records'', JObj (map (\<lambda>(k, txt). (k, JStr (bytes_text txt))) (gm_entries m)))]
          else [])"

section \<open>Expiration\<close>

text \<open>\<open>strings.TrimSuffix\<close> of a single dot.\<close>

definition trim_dot :: "string \<Rightarrow> string" where
  "trim_dot s = (if s \<noteq> [] \<and> last s = CHR ''.'' then butlast s else s)"

text \<open>
  The internal form of a domain: its labels without the top level domain, from right to left,
  each ended by a zero byte. A name with a single label keeps it.
\<close>

definition domain_labels :: "string \<Rightarrow> string list" where
  "domain_labels name =
     (let parts = split_on (CHR ''.'') (trim_dot name);
          below = (if length parts > 1 then butlast parts else parts)
      in rev below)"

definition string_bytes :: "string \<Rightarrow> bytes" where
  "string_bytes s = map (\<lambda>c. word_of_nat (char_code c)) s"

definition domain_buffer :: "string \<Rightarrow> bytes" where
  "domain_buffer name = concat (map (\<lambda>p. string_bytes p @ [0]) (domain_labels name))"

text \<open>\<open>None\<close> where the code leaves the field \<open>null\<close>.\<close>

definition expiring_at :: "ton_lib \<Rightarrow> dns_lib \<Rightarrow> ton_api \<Rightarrow> ton_address \<Rightarrow> tvm_cell \<Rightarrow> int option" where
  "expiring_at tlib dl api coll domain =
     (case (CurrentMasterchainInfo api, BeginParse tlib domain) of
        (Inr blk, Inr s) \<Rightarrow>
          (case RunGetMethod api blk coll ''getexpiration'' [SSlice (Some s)] of
             Inl _ \<Rightarrow> None
           | Inr stack \<Rightarrow> map_option big_Int64 (first_int stack))
      | _ \<Rightarrow> None)"

text \<open>
  The collection is asked when the domain's contract names one. A name that does not fit in a
  cell, like one the builder refuses, ends the report early.
\<close>

datatype expiration = EndsReport | Expires "int option"

definition domain_expiration ::
  "ton_lib \<Rightarrow> dns_lib \<Rightarrow> ton_api \<Rightarrow> string \<Rightarrow> nft_data result \<Rightarrow> expiration" where
  "domain_expiration tlib dl api name nd =
     (case nd of
        Inl _ \<Rightarrow> Expires None
      | Inr d \<Rightarrow>
         (case CollectionAddress d of
            None \<Rightarrow> Expires None
          | Some coll \<Rightarrow>
              if IsAddrNone tlib coll then Expires None
              else if length (domain_buffer name) * 8 > 1023 then EndsReport
              else (case StoreBytes dl (domain_buffer name) of
                      Inl _ \<Rightarrow> EndsReport
                    | Inr cl \<Rightarrow> Expires (expiring_at tlib dl api coll cl))))"

section \<open>dns.resolve\<close>

definition site_fields :: "dns_domain \<Rightarrow> (string \<times> json) list" where
  "site_fields d =
     (case GetSiteRecord d of
        (None, inStorage) \<Rightarrow>
          [(''storage_bag_id'', JNull), (''site_adnl'', JNull), (''has_storage'', JBool inStorage)]
      | (Some r, True) \<Rightarrow>
          [(''storage_bag_id'', jhex r), (''site_adnl'', JNull), (''has_storage'', JBool True)]
      | (Some r, False) \<Rightarrow>
          [(''storage_bag_id'', JNull), (''site_adnl'', jhex r), (''has_storage'', JBool False)])"

definition owner_fields :: "ton_lib \<Rightarrow> nft_data result \<Rightarrow> (string \<times> json) list" where
  "owner_fields tlib nd =
     (case nd of
        Inl _ \<Rightarrow> [(''initialized'', JBool False), (''owner'', JNull), (''collection'', JNull)]
      | Inr d \<Rightarrow>
          [(''initialized'', JBool (Initialized d)), (''owner'', addressStringOrNil tlib (OwnerAddress d)),
           (''collection'', addressStringOrNil tlib (CollectionAddress d))])"

definition resolved_json :: "ton_lib \<Rightarrow> dns_lib \<Rightarrow> ton_api \<Rightarrow> string \<Rightarrow> dns_domain \<Rightarrow> json" where
  "resolved_json tlib dl api name d =
     (let head_fields = [(''wallet'', addressStringOrNil tlib (GetWalletRecord d))] @ site_fields d @
            owner_fields tlib (dom_NFTData d)
      in JObj (head_fields @
        (case domain_expiration tlib dl api name (dom_NFTData d) of
           EndsReport \<Rightarrow> [(''expiring_at'', JNull), (''nft_address'', JNull), (''editor'', JNull)]
         | Expires t \<Rightarrow>
             [(''expiring_at'', case t of None \<Rightarrow> JNull | Some x \<Rightarrow> jint x),
              (''nft_address'', addressStringOrNil tlib (dom_NFTAddress d)),
              (''editor'', case GetEditor d of Inl _ \<Rightarrow> JNull | Inr a \<Rightarrow> addressStringOrNil tlib a)] @
             text_records_json tlib dl d)))"

record dns_params =
  np_domain :: string

definition dns_fields :: "(string \<times> dns_params setter) list" where
  "dns_fields = [(''domain'', string_field (\<lambda>s p. p\<lparr>np_domain := s\<rparr>))]"

definition handleDNSResolve :: "ton_lib \<Rightarrow> dns_lib \<Rightarrow> ton_api \<Rightarrow> WSRequest \<Rightarrow> reply" where
  "handleDNSResolve tlib dl api req =
     finish_with (
       attempt (unmarshal dns_fields (req_params req) \<lparr>np_domain = []\<rparr>) (\<lambda>e. bad (Wrap ''invalid params: '' e)) (\<lambda>prm.
       require (np_domain prm \<noteq> []) (bad (Lit ''domain must not be empty'')) (
       attempt (Resolve dl (np_domain prm)) (\<lambda>e. failed (Wrap ''dns resolve failed: '' e)) (\<lambda>d.
       Inr (Result (resolved_json tlib dl api (np_domain prm) d))))))"

text \<open>The encoding the resolver of the collection expects.\<close>

lemma domain_buffer_example:
  "domain_buffer ''a.b.ton'' = [98, 0, 97, 0]" "domain_buffer ''b.ton.'' = [98, 0]"
  by (simp_all add: domain_buffer_def domain_labels_def trim_dot_def string_bytes_def char_code_def)

text \<open>The labels of a name never keep a dot, and the buffer has one zero per label.\<close>

lemma split_on_no_sep: "p \<in> set (split_on c s) \<Longrightarrow> c \<notin> set p"
  by (induction c s arbitrary: p rule: split_on.induct) (auto split: if_splits list.splits)

lemma domain_labels_no_dot: "p \<in> set (domain_labels name) \<Longrightarrow> CHR ''.'' \<notin> set p"
  by (auto simp: domain_labels_def Let_def dest!: in_set_butlastD split_on_no_sep split: if_splits)

end
