(* ===== verification/Services.thy ===== *)
theory Services
  imports Watch Emulate Trace Tokens Dns
begin

text \<open>
  The handlers of the namespaces other than adnl and overlay as the service the dispatcher calls:
  which handler a method runs, what it replies, and which of them leave a loop running. Together
  with \<open>handleRequest\<close> this is the whole method table.
\<close>

section \<open>The libraries behind the handlers\<close>

record backend =
  be_lib :: ton_lib
  be_api :: ton_api
  be_dht :: dht_api
  be_has_dht :: bool
  be_contracts :: contracts
  be_emulator :: emulator
  be_dns :: dns_lib
  be_sha256 :: "bytes \<Rightarrow> bytes"

text \<open>
  What a handler without state replies. \<open>Panics\<close> is a run-time panic, which the request loop
  recovers from, and \<open>Silent\<close> a handler that has not returned.
\<close>

datatype answer = Answers reply | Panics | Silent

definition returned :: "reply option \<Rightarrow> answer" where
  "returned r = (case r of Some x \<Rightarrow> Answers x | None \<Rightarrow> Silent)"

definition dht_service :: "backend \<Rightarrow> dht_method \<Rightarrow> client_ref \<Rightarrow> WSRequest \<Rightarrow> WSBridge \<Rightarrow> outcome" where
  "dht_service be m c req b =
     (let answered = (\<lambda>r. (b, reply_to c req (finish_with r))) in
      case m of
        Dht_FindAddresses \<Rightarrow> answered (handleFindAddresses (be_dht be) req)
      | Dht_FindOverlayNodes \<Rightarrow> answered (handleFindOverlayNodes (be_dht be) req)
      | Dht_FindTunnelNodes \<Rightarrow> answered (handleFindTunnelNodes (be_sha256 be) (be_dht be))
      | Dht_FindValue \<Rightarrow> answered (handleDHTFindValue (be_dht be) req)
      | Dht_StoreAddress \<Rightarrow> handleDHTStoreAddress (be_dht be) c req b
      | Dht_StoreOverlayNodes \<Rightarrow> handleDHTStoreOverlayNodes (be_dht be) c req b)"

definition lite_answer :: "backend \<Rightarrow> lite_method \<Rightarrow> WSRequest \<Rightarrow> answer" where
  "lite_answer be m req =
     (let tlib = be_lib be; api = be_api be in
      case m of
        Lite_GetMasterchainInfo \<Rightarrow> Answers (handleGetMasterchainInfo api)
      | Lite_GetAccountState \<Rightarrow> Answers (handleGetAccountState tlib api req)
      | Lite_RunMethod \<Rightarrow> Answers (handleRunMethod tlib api req)
      | Lite_EmulateMessage \<Rightarrow> returned (handleEmulateMessage tlib (be_emulator be) api req)
      | Lite_EmulateTransaction \<Rightarrow> Answers (handleEmulateTransaction tlib (be_emulator be) api req)
      | Lite_GetTransactions \<Rightarrow> Answers (handleGetTransactions tlib api req)
      | Lite_GetTime \<Rightarrow> Answers (handleGetTime api)
      | Lite_LookupBlock \<Rightarrow> Answers (handleLookupBlock api req)
      | Lite_GetBlockTransactions \<Rightarrow> Answers (handleGetBlockTransactions api req)
      | Lite_GetShards \<Rightarrow> Answers (handleGetShards api)
      | Lite_GetBlockchainConfig \<Rightarrow> Answers (handleGetBlockchainConfig tlib api req)
      | Lite_GetTransaction \<Rightarrow> returned (handleGetTransaction tlib api req)
      | Lite_FindTxByInMsgHash \<Rightarrow> Answers (handleFindTxByInMsgHash tlib api req)
      | Lite_FindTxByOutMsgHash \<Rightarrow> Answers (handleFindTxByOutMsgHash tlib api req)
      | Lite_GetBlockData \<Rightarrow> Answers (handleGetBlockData tlib api req)
      | Lite_GetBlockHeader \<Rightarrow> Answers (handleGetBlockHeader tlib api req)
      | Lite_GetLibraries \<Rightarrow>
          (case handleGetLibraries tlib api req of Some r \<Rightarrow> Answers r | None \<Rightarrow> Panics)
      | Lite_SendMessage \<Rightarrow> Silent
      | Lite_SendMessageWait \<Rightarrow> Silent
      | Lite_SendAndWatch \<Rightarrow> Silent)"

definition token_answer :: "backend \<Rightarrow> rpc_method \<Rightarrow> WSRequest \<Rightarrow> WSBridge \<Rightarrow> answer" where
  "token_answer be m req b =
     (let tlib = be_lib be; api = be_api be; ct = be_contracts be in
      case m of
        Jetton_call Jetton_GetData \<Rightarrow> Answers (handleJettonGetData tlib ct req)
      | Jetton_call Jetton_GetWalletAddress \<Rightarrow> Answers (handleJettonGetWalletAddress tlib ct req)
      | Jetton_call Jetton_GetBalance \<Rightarrow> Answers (handleJettonGetBalance tlib api ct req)
      | Nft_call Nft_GetData \<Rightarrow> Answers (handleNFTGetData tlib ct req)
      | Nft_call Nft_GetCollectionData \<Rightarrow> Answers (handleNFTGetCollectionData tlib ct req)
      | Nft_call Nft_GetAddressByIndex \<Rightarrow> Answers (handleNFTGetAddressByIndex tlib ct req)
      | Nft_call Nft_GetRoyaltyParams \<Rightarrow> Answers (handleNFTGetRoyaltyParams tlib ct req)
      | Nft_call Nft_GetContent \<Rightarrow> Answers (handleNFTGetContent tlib ct req)
      | Wallet_call Wallet_GetSeqno \<Rightarrow> Answers (handleWalletGetSeqno tlib api req)
      | Wallet_call Wallet_GetPublicKey \<Rightarrow> Answers (handleWalletGetPublicKey tlib ct req)
      | Sbt_call Sbt_GetAuthorityAddress \<Rightarrow> Answers (handleSBTGetAuthorityAddress tlib api ct req)
      | Sbt_call Sbt_GetRevokedTime \<Rightarrow> Answers (handleSBTGetRevokedTime tlib api req)
      | Payment_call Payment_GetChannelState \<Rightarrow> Answers (handlePaymentGetChannelState tlib ct req)
      | Dns_call Dns_Resolve \<Rightarrow> Answers (handleDNSResolve tlib (be_dns be) api req)
      | Network_call Network_Info \<Rightarrow>
          Answers (handleNetworkInfo (if be_has_dht be then Some (be_dht be) else None) b)
      | _ \<Rightarrow> Silent)"

definition answer_effects :: "client_ref \<Rightarrow> WSRequest \<Rightarrow> answer \<Rightarrow> effect list" where
  "answer_effects c req a =
     (case a of
        Answers r \<Rightarrow> reply_to c req r
      | Panics \<Rightarrow> reply_to c req (Error internal_error (Lit ''internal error''))
      | Silent \<Rightarrow> [])"

text \<open>The methods that keep running once they are confirmed.\<close>

definition open_service ::
  "backend \<Rightarrow> rpc_method \<Rightarrow> client_ref \<Rightarrow> WSRequest \<Rightarrow> WSBridge \<Rightarrow> (outcome \<times> (nat \<times> sub_loop) option) option" where
  "open_service be m c req b =
     (let tlib = be_lib be; api = be_api be in
      case m of
        Subscribe_call Subscribe_Transactions \<Rightarrow> Some (handleSubscribeTransactions tlib c req b)
      | Subscribe_call Subscribe_Blocks \<Rightarrow> Some (handleSubscribeBlocks api c req b)
      | Subscribe_call Subscribe_AccountState \<Rightarrow> Some (handleSubscribeAccountState tlib api c req b)
      | Subscribe_call Subscribe_NewTransactions \<Rightarrow> Some (handleSubscribeNewTransactions api c req b)
      | Subscribe_call Subscribe_ConfigChanges \<Rightarrow> Some (handleSubscribeConfigChanges tlib api c req b)
      | Subscribe_call Subscribe_MultiAccount \<Rightarrow> Some (handleSubscribeMultiAccount tlib api c req b)
      | Subscribe_call Subscribe_Trace \<Rightarrow> Some (handleSubscribeTrace tlib api c req b)
      | Lite_call Lite_SendAndWatch \<Rightarrow> Some (handleSendAndWatch tlib api c req b)
      | _ \<Rightarrow> None)"

definition run_service :: "backend \<Rightarrow> service" where
  "run_service be m c req b =
     (case open_service be m c req b of
        Some (out, _) \<Rightarrow> out
      | None \<Rightarrow>
         (case m of
            Subscribe_call _ \<Rightarrow> fst (handleUnsubscribe c req b)
          | Lite_call Lite_SendMessage \<Rightarrow> (b, handleSendMessage (be_lib be) (be_api be) c req)
          | Lite_call Lite_SendMessageWait \<Rightarrow> (b, handleSendMessageWait (be_lib be) (be_api be) c req)
          | Lite_call l \<Rightarrow> (b, answer_effects c req (lite_answer be l req))
          | Dht_call d \<Rightarrow> dht_service be d c req b
          | _ \<Rightarrow> (b, answer_effects c req (token_answer be m req b))))"

section \<open>What a service may touch\<close>

text \<open>Only the subscription fields of the requesting client, and only frames to that client.\<close>

definition same_but_subs :: "wsClient \<Rightarrow> wsClient \<Rightarrow> bool" where
  "same_but_subs w w' \<longleftrightarrow>
     peers w' = peers w \<and> overlays w' = overlays w \<and> inflight w' = inflight w
     \<and> broadcasts w' = broadcasts w \<and> ctx_done w' = ctx_done w"

definition subs_only :: "client_ref \<Rightarrow> WSBridge \<Rightarrow> WSBridge \<Rightarrow> bool" where
  "subs_only c b b' \<longleftrightarrow>
     (\<exists>f. b' = upd_client c f b \<and> (\<forall>w. same_but_subs w (f w)))"

definition private_frames :: "client_ref \<Rightarrow> effect list \<Rightarrow> bool" where
  "private_frames c es \<longleftrightarrow> list_all (\<lambda>e. addressee e = None \<or> addressee e = Some c) es"

definition served :: "client_ref \<Rightarrow> WSBridge \<Rightarrow> outcome \<Rightarrow> bool" where
  "served c b out \<longleftrightarrow> subs_only c b (fst out) \<and> private_frames c (snd out)"

named_theorems serving

lemma same_but_subs_trans: "same_but_subs u v \<Longrightarrow> same_but_subs v w \<Longrightarrow> same_but_subs u w"
  by (simp add: same_but_subs_def)

lemma subs_only_refl [serving]: "subs_only c b b"
  unfolding subs_only_def
  by (rule exI [of _ "\<lambda>w. w"]) (simp add: upd_client_def same_but_subs_def)

lemma subs_only_trans: "subs_only c b1 b2 \<Longrightarrow> subs_only c b2 b3 \<Longrightarrow> subs_only c b1 b3"
proof -
  assume "subs_only c b1 b2" "subs_only c b2 b3"
  then obtain f g where "b2 = upd_client c f b1" "b3 = upd_client c g b2"
    and "\<forall>w. same_but_subs w (f w)" "\<forall>w. same_but_subs w (g w)" unfolding subs_only_def by blast
  then have "b3 = upd_client c (\<lambda>w. g (f w)) b1 \<and> (\<forall>w. same_but_subs w (g (f w)))"
    by (auto simp: upd_client_def intro: same_but_subs_trans)
  then show ?thesis unfolding subs_only_def by (rule exI [of _ "\<lambda>w. g (f w)"])
qed

lemma subs_only_upd: "(\<And>w. same_but_subs w (f w)) \<Longrightarrow> subs_only c b (upd_client c f b)"
  unfolding subs_only_def by blast

lemma subs_only_add [serving]: "subs_only c b (addSubs d c b)"
  by (simp add: addSubs_def subs_only_upd same_but_subs_def)

lemma subs_only_register: "registerSub c b = (n, b') \<Longrightarrow> subs_only c b b'"
  by (auto simp: registerSub_def Let_def same_but_subs_def intro!: subs_only_upd)

lemma subs_only_unregister [serving]: "subs_only c b (unregisterSub c n b)"
  by (simp add: unregisterSub_def subs_only_upd same_but_subs_def)

lemma subs_only_end [serving]: "subs_only c b (endSub c n b)"
  unfolding endSub_def leaveSub_def by (rule subs_only_trans [OF subs_only_unregister subs_only_add])

lemma subs_only_enter: "enterSub c b = (b', e) \<Longrightarrow> subs_only c b b'"
  by (auto simp: enterSub_def Let_def intro: subs_only_trans subs_only_add split: if_splits)

lemma private_nil [serving]: "private_frames c []"
  by (simp add: private_frames_def)

lemma private_append [simp]: "private_frames c (es @ fs) \<longleftrightarrow> private_frames c es \<and> private_frames c fs"
  by (simp add: private_frames_def)

lemma private_cons [simp]:
  "private_frames c (e # es) \<longleftrightarrow> (addressee e = None \<or> addressee e = Some c) \<and> private_frames c es"
  by (simp add: private_frames_def)

lemma private_reply [serving, simp]: "private_frames c (reply_to c req r)"
  by (simp add: private_frames_def reply_to_def)

lemma private_answer [serving]: "private_frames c (answer_effects c req a)"
  by (simp add: answer_effects_def private_nil split: answer.split)

lemma served_reply [serving]: "served c b (b, reply_to c req r)"
  by (simp add: served_def serving)

lemma served_answer [serving]: "served c b (b, answer_effects c req a)"
  by (simp add: served_def serving)

text \<open>The frame of the subscription handlers.\<close>

lemma subscribing_with_served:
  assumes "\<And>x i. private_frames c (fst (ostep x i))"
  shows "served c b (fst (subscribing_with full c req checks ostep b))"
proof -
  obtain b1 e where e: "enterSub c b = (b1, e)" by (cases "enterSub c b")
  note b1 = subs_only_enter [OF e]
  show ?thesis
  proof (cases e)
    case False
    with e b1 show ?thesis by (simp add: subscribing_with_def served_def)
  next
    case True
    show ?thesis
    proof (cases checks)
      case (Inl r)
      with e True b1 show ?thesis
        by (auto simp: subscribing_with_def served_def leaveSub_def intro: subs_only_trans subs_only_add)
    next
      case (Inr x)
      obtain n b2 where r: "registerSub c b1 = (n, b2)" by (cases "registerSub c b1")
      note b2 = subs_only_trans [OF b1 subs_only_register [OF r]]
      obtain es o' where o: "ostep x (sub_id n) = (es, o')" by (cases "ostep x (sub_id n)")
      have es: "private_frames c es" using assms [of x "sub_id n"] o by simp
      show ?thesis
        using e True Inr r o es b2 subs_only_trans [OF b2 subs_only_end]
        by (auto simp: subscribing_with_def served_def split: sum.split)
    qed
  qed
qed

lemma subscribing_served [serving]: "served c b (fst (subscribing full c req checks ostep b))"
  unfolding subscribing_def by (rule subscribing_with_served) (simp add: private_nil)

lemma open_watch_private: "private_frames c (fst (open_watch tlib api cl ext dst i))"
  by (simp add: open_watch_def private_nil split: sum.split option.split)

lemma watch_served [serving]: "served c b (fst (handleSendAndWatch tlib api c req b))"
  unfolding handleSendAndWatch_def
  by (rule subscribing_with_served) (simp add: open_watch_private split: prod.split)

lemma multi_served [serving]: "served c b (fst (handleSubscribeMultiAccount tlib api c req b))"
  by (simp add: handleSubscribeMultiAccount_def serving split: sum.split)

lemma handlers_served [serving]:
  "served c b (fst (handleSubscribeTransactions tlib c req b))"
  "served c b (fst (handleSubscribeBlocks api c req b))"
  "served c b (fst (handleSubscribeAccountState tlib api c req b))"
  "served c b (fst (handleSubscribeNewTransactions api c req b))"
  "served c b (fst (handleSubscribeConfigChanges tlib api c req b))"
  "served c b (fst (handleSubscribeTrace tlib api c req b))"
  by (simp_all add: handleSubscribeTransactions_def handleSubscribeBlocks_def
      handleSubscribeAccountState_def handleSubscribeNewTransactions_def
      handleSubscribeConfigChanges_def handleSubscribeTrace_def Let_def subscribing_served)

lemma open_served: "open_service be m c req b = Some r \<Longrightarrow> served c b (fst r)"
  by (auto simp: open_service_def Let_def serving
      split: rpc_method.split_asm subscribe_method.split_asm lite_method.split_asm)

lemma unsubscribe_served [serving]: "served c b (fst (handleUnsubscribe c req b))"
  by (auto simp: handleUnsubscribe_def served_def Let_def same_but_subs_def serving
      intro!: subs_only_upd split: sum.split option.split)

lemma send_served [serving]: "served c b (b, send_boc tlib api c req)"
  by (simp add: send_boc_def served_def serving split: sum.split prod.split)

lemma dht_served [serving]: "served c b (dht_service be m c req b)"
  by (cases m) (simp_all add: dht_service_def handleDHTStoreAddress_def handleDHTStoreOverlayNodes_def
      handler_def served_def serving reply_to_def [symmetric] split: sum.split prod.split)

lemma service_served: "served c b (run_service be m c req b)"
proof (cases "open_service be m c req b")
  case (Some x)
  with open_served [of be m c req b x] show ?thesis by (cases x) (simp add: run_service_def)
next
  case None
  then show ?thesis
    by (simp add: run_service_def handleSendMessage_def handleSendMessageWait_def serving
        split: rpc_method.split lite_method.split)
qed

end
