(* ===== verification/ServiceProps.thy ===== *)
theory ServiceProps
  imports Services Isolation
begin

text \<open>
  What the services let into the network: only the two store methods publish DHT records, only
  when the configuration allows it, and only well-formed ones.
\<close>

named_theorems storeless

fun stores :: "effect \<Rightarrow> bool" where
  "stores (StoreAddress _ _) = True"
| "stores (StoreOverlayNodes _ _ _) = True"
| "stores _ = False"

abbreviation no_store :: "effect list \<Rightarrow> bool" where
  "no_store es \<equiv> \<not> list_ex stores es"

lemma no_store_reply [storeless]: "no_store (reply_to c req r)"
  by (simp add: reply_to_def)

lemma no_store_answer [storeless]: "no_store (answer_effects c req a)"
  by (simp add: answer_effects_def storeless split: answer.split)

lemma no_store_subscribing_with:
  assumes "\<And>x i. no_store (fst (ostep x i))"
  shows "no_store (snd (fst (subscribing_with full c req checks ostep b)))"
proof -
  have "no_store es" if "ostep x i = (es, r)" for x i es r
    using assms [of x i] that by simp
  then show ?thesis
    by (auto simp: subscribing_with_def storeless split: prod.split bool.split sum.split)
qed

lemma no_store_subscribing [storeless]: "no_store (snd (fst (subscribing full c req checks ostep b)))"
  unfolding subscribing_def by (rule no_store_subscribing_with) simp

lemma no_store_watch [storeless]: "no_store (snd (fst (handleSendAndWatch tlib api c req b)))"
  unfolding handleSendAndWatch_def
  by (rule no_store_subscribing_with) (simp add: open_watch_def split: prod.split sum.split option.split)

lemma no_store_opened: "open_service be m c req b = Some r \<Longrightarrow> no_store (snd (fst r))"
  by (auto simp: open_service_def Let_def storeless handleSubscribeTransactions_def handleSubscribeBlocks_def
      handleSubscribeAccountState_def handleSubscribeNewTransactions_def handleSubscribeMultiAccount_def
      handleSubscribeConfigChanges_def handleSubscribeTrace_def
      split: rpc_method.split_asm subscribe_method.split_asm lite_method.split_asm sum.splits)

lemma no_store_send [storeless]: "no_store (send_boc tlib api c req)"
  by (simp add: send_boc_def storeless split: sum.split prod.split)

lemma no_store_unsubscribe [storeless]: "no_store (snd (fst (handleUnsubscribe c req b)))"
  by (simp add: handleUnsubscribe_def storeless Let_def split: sum.split option.split)

lemma no_store_service:
  assumes "\<And>d. m \<noteq> Dht_call d"
  shows "no_store (snd (run_service be m c req b))"
proof (cases "open_service be m c req b")
  case (Some r)
  with no_store_opened [OF Some] show ?thesis by (cases r) (simp add: run_service_def)
next
  case None
  with assms show ?thesis
    by (simp add: run_service_def handleSendMessage_def handleSendMessageWait_def storeless
        split: rpc_method.split lite_method.split)
qed

section \<open>What is published\<close>

definition publishable :: "BridgeConfig \<Rightarrow> dht_api \<Rightarrow> effect \<Rightarrow> bool" where
  "publishable cf dht e \<longleftrightarrow>
     (case e of
        StoreAddress addrs _ \<Rightarrow>
          addrs \<noteq> [] \<and> (\<forall>x \<in> set addrs. \<exists>ip port. NewAddress dht ip port = Inr x \<and> 1 \<le> port \<and> port \<le> 65535
             \<and> \<not> (SSRFProtection (ADNL (Namespaces cf)) \<and> isPrivateIP ip))
      | StoreOverlayNodes key nodes _ \<Rightarrow>
          nodes \<noteq> [] \<and> (\<forall>n \<in> set nodes. length (sn_ID n) = 32 \<and> length (sn_Overlay n) = 32 \<and> length (sn_Signature n) = 64)
      | _ \<Rightarrow> True)"

lemma store_addresses_ok:
  "store_addresses cf dht as = Inr xs \<Longrightarrow>
   length xs = length as \<and> (\<forall>x \<in> set xs. \<exists>ip port. NewAddress dht ip port = Inr x \<and> 1 \<le> port \<and> port \<le> 65535
     \<and> \<not> (SSRFProtection (ADNL (Namespaces cf)) \<and> isPrivateIP ip))"
proof (induction "as" arbitrary: xs)
  case (Cons a "as")
  then obtain ip x ys where s: "NewAddress dht ip (ad_Port a) = Inr x" "1 \<le> ad_Port a" "ad_Port a \<le> 65535"
    "\<not> (SSRFProtection (ADNL (Namespaces cf)) \<and> isPrivateIP ip)"
    "store_addresses cf dht as = Inr ys" "xs = x # ys"
    by (auto simp: present_def require_def attempt_def split: option.split_asm if_split_asm sum.split_asm)
  with Cons.IH [OF s(5)] show ?case by auto
qed simp

lemma store_nodes_ok:
  "store_nodes ns = Inr xs \<Longrightarrow>
   length xs = length ns \<and> (\<forall>n \<in> set xs. length (sn_ID n) = 32 \<and> length (sn_Overlay n) = 32 \<and> length (sn_Signature n) = 64)"
proof (induction ns arbitrary: xs)
  case (Cons n ns)
  then show ?case
    by (auto simp: with_base64_def require_def attempt_def split: if_split_asm sum.split_asm)
qed simp

lemma published:
  assumes "e \<in> set (snd (dht_service be d c req b))" "stores e"
  shows "AllowWrite (DHT (Namespaces (cfg b))) \<and> publishable (cfg b) (be_dht be) e"
proof (cases d)
  case Dht_StoreAddress
  with assms obtain addrs ttl where e: "e = StoreAddress addrs ttl"
    "store_address_checks (cfg b) (be_dht be) req = Inr (addrs, ttl)"
    by (auto simp: dht_service_def handleDHTStoreAddress_def handler_def reply_to_def
        split: sum.split_asm prod.split_asm)
  from e(2) have w: "AllowWrite (DHT (Namespaces (cfg b)))"
    by (auto simp: store_address_checks_def write_allowed_def require_def split: if_split_asm)
  from e(2) have "\<exists>prm :: dht_params. dp_addresses prm \<noteq> [] \<and> store_addresses (cfg b) (be_dht be) (dp_addresses prm) = Inr addrs"
    by (auto simp: store_address_checks_def write_allowed_def require_def with_dht_params_def attempt_def
        split: if_split_asm sum.split_asm)
  with store_addresses_ok e(1) w show ?thesis by (fastforce simp: publishable_def)
next
  case Dht_StoreOverlayNodes
  with assms obtain key nodes ttl where e: "e = StoreOverlayNodes key nodes ttl"
    "store_nodes_checks (cfg b) req = Inr (key, nodes, ttl)"
    by (auto simp: dht_service_def handleDHTStoreOverlayNodes_def handler_def reply_to_def
        split: sum.split_asm prod.split_asm)
  from e(2) have w: "AllowWrite (DHT (Namespaces (cfg b)))"
    by (auto simp: store_nodes_checks_def write_allowed_def require_def split: if_split_asm)
  from e(2) have "\<exists>prm :: dht_params. dp_nodes prm \<noteq> [] \<and> store_nodes (dp_nodes prm) = Inr nodes"
    by (auto simp: store_nodes_checks_def write_allowed_def require_def with_dht_params_def with_overlay_key_def
        with_base64_def attempt_def split: if_split_asm sum.split_asm)
  with store_nodes_ok e(1) w show ?thesis by (fastforce simp: publishable_def)
qed (use assms in \<open>auto simp: dht_service_def reply_to_def\<close>)

text \<open>
  C13: whatever a service is asked, it publishes a DHT record only when \<open>allow_write\<close> is set; a
  published address list is not empty and holds public addresses only while the SSRF protection is
  on, with ports in range, and published overlay nodes have keys and signatures of the right
  length.
\<close>
theorem dht_writes_guarded:
  assumes "e \<in> set (snd (run_service be m c req b))" and "stores e"
  shows "AllowWrite (DHT (Namespaces (cfg b))) \<and> publishable (cfg b) (be_dht be) e"
proof (cases "\<exists>d. m = Dht_call d")
  case True
  then obtain d where d: "m = Dht_call d" by blast
  then have "run_service be m c req b = dht_service be d c req b"
    by (simp add: run_service_def open_service_def Let_def)
  with published [of e be d c req b] assms show ?thesis by simp
next
  case False
  with no_store_service [of m be c req b] assms show ?thesis by (auto simp: list_ex_iff)
qed

definition writing_bridge :: WSBridge where
  "writing_bridge = NewWSBridge (Some (DefaultBridgeConfig\<lparr>Namespaces := (Namespaces DefaultBridgeConfig)
     \<lparr>DHT := (DHT (Namespaces DefaultBridgeConfig))\<lparr>AllowWrite := True\<rparr>\<rparr>\<rparr>))"

definition demo_dht :: dht_api where
  "demo_dht = \<lparr>dht_FindAddresses = (\<lambda>_. Inl (ErrLib 0)), FindOverlayNodes = (\<lambda>_ _ _. Inl (ErrLib 0)),
     FindValue = (\<lambda>_ _ _. Inl (ErrLib 0)), NewAddress = (\<lambda>ip port. Inr \<lparr>IPValue = ip, PortValue = port\<rparr>),
     dht_StoreAddress = (\<lambda>_ _. Inr (1, [])), dht_StoreOverlayNodes = (\<lambda>_ _ _. Inr (1, [])), ActiveNodesCount = 0\<rparr>"

definition dht_backend :: backend where
  "dht_backend = \<lparr>be_lib = demo_lib, be_api = demo_api, be_dht = demo_dht, be_has_dht = True,
     be_contracts = undefined, be_emulator = undefined, be_dns = undefined, be_sha256 = (\<lambda>_. [])\<rparr>"

definition store_request :: WSRequest where
  "store_request = \<lparr>req_jsonrpc = ''2.0'', req_id = ''1'', req_method = ''dht.storeAddress'',
     req_params = Some (JObj [(''addresses'', JArr [JObj [(''ip'', JStr ''8.8.8.8''), (''port'', jint 80)]])])\<rparr>"

definition demo_stored :: effect where
  "demo_stored = StoreAddress [\<lparr>IPValue = v4_mapped [8, 8, 8, 8], PortValue = 80\<rparr>] (300 * second)"

lemma demo_store_checks:
  "store_address_checks (cfg writing_bridge) demo_dht store_request =
     Inr ([\<lparr>IPValue = v4_mapped [8, 8, 8, 8], PortValue = 80\<rparr>], 300 * second)"
proof -
  have n: "parse_int_lit 32 (show_int 80) = Some 80"
    using show_nat_no_minus [of 80] parse_show_nat [of 80] by (simp add: parse_int_lit_def show_int_def)
  have u: "unmarshal [d_addresses, d_ttl, d_replicas] (req_params store_request) zero_dht_params =
      Inr (zero_dht_params\<lparr>dp_addresses := [\<lparr>ad_IP = ''8.8.8.8'', ad_Port = 80\<rparr>]\<rparr>)"
    by (simp add: unmarshal_def store_request_def d_addresses_def list_field_def struct_setter_def
        addr_entry_fields_def key_matches_def string_field_def int_field_def jint_def n)
  have "AllowWrite (DHT (Namespaces (cfg writing_bridge)))"
    by (simp add: writing_bridge_def NewWSBridge_def)
  with u demo_public demo_host(2) show ?thesis
    by (simp add: store_address_checks_def write_allowed_def require_def with_dht_params_def attempt_def
        present_def demo_dht_def store_ttl_def zero_dht_params_def)
qed

theorem dht_writes_guarded_witness:
  "demo_stored \<in> set (snd (run_service dht_backend (Dht_call Dht_StoreAddress) 0 store_request writing_bridge))
   \<and> AllowWrite (DHT (Namespaces (cfg writing_bridge))) \<and> publishable (cfg writing_bridge) demo_dht demo_stored"
proof -
  have d: "be_dht dht_backend = demo_dht" by (simp add: dht_backend_def)
  have m: "demo_stored \<in> set (snd (run_service dht_backend (Dht_call Dht_StoreAddress) 0 store_request writing_bridge))"
    by (simp add: run_service_def open_service_def dht_service_def handleDHTStoreAddress_def handler_def
        d demo_store_checks demo_stored_def)
  have "stores demo_stored" by (simp add: demo_stored_def)
  from dht_writes_guarded [OF m this] m show ?thesis by (simp add: d)
qed

end
