(* ===== verification/Frame.thy ===== *)
theory Frame
  imports Reachable
begin

text \<open>
  What the adnl and overlay namespaces leave alone: the configuration, which clients are connected
  and, of every client, its context, the in-flight counter, the subscription counter and the
  subscription registry. Only connections and the slots of requests and subscriptions change them.
\<close>

definition slot_view :: "wsClient \<Rightarrow> int \<times> (string, nat) gomap \<times> nat \<times> nat" where
  "slot_view w = (activeSubs w, subscriptions w, subCounter w, inflight w)"

definition slots_of ::
  "WSBridge \<Rightarrow> BridgeConfig \<times> (client_ref, bool) gomap \<times> (client_ref \<Rightarrow> bool)
     \<times> (client_ref \<Rightarrow> int \<times> (string, nat) gomap \<times> nat \<times> nat)" where
  "slots_of b = (cfg b, clients b, \<lambda>c. ctx_done (heap b c), \<lambda>c. slot_view (heap b c))"

named_theorems framing

lemma slots_of_eq:
  "slots_of b' = slots_of b \<longleftrightarrow> cfg b' = cfg b \<and> clients b' = clients b
     \<and> (\<forall>c. ctx_done (heap b' c) = ctx_done (heap b c)) \<and> (\<forall>c. slot_view (heap b' c) = slot_view (heap b c))"
  by (auto simp: slots_of_def fun_eq_iff)

lemma slots_upd_client:
  "(\<And>w. slot_view (f w) = slot_view w \<and> ctx_done (f w) = ctx_done w) \<Longrightarrow> slots_of (upd_client c f b) = slots_of b"
  by (simp add: slots_of_eq)

lemma slots_of_maps [framing]:
  "slots_of (b\<lparr>activePeers := x\<rparr>) = slots_of b" "slots_of (b\<lparr>peerWrappers := y\<rparr>) = slots_of b"
  "slots_of (b\<lparr>peerOwners := z\<rparr>) = slots_of b" "slots_of (b\<lparr>peerQueries := u\<rparr>) = slots_of b"
  "slots_of (b\<lparr>activeOverlays := v\<rparr>) = slots_of b" "slots_of (b\<lparr>pendingQueries := q\<rparr>) = slots_of b"
  "slots_of (b\<lparr>overlayToPeer := o1\<rparr>) = slots_of b"
  by (simp_all add: slots_of_def)

section \<open>Peers\<close>

lemma slots_addClientPeer [framing]: "slots_of (addClientPeer c k b) = slots_of b"
  by (simp add: addClientPeer_def slots_upd_client slot_view_def)

lemma slots_install [framing]: "slots_of (fst (fst (installPeer net p ow b))) = slots_of b"
  by (simp add: installPeer_def Let_def framing split: option.split)

lemma slots_connectionHandler [framing]: "slots_of (fst (fst (connectionHandler net p b))) = slots_of b"
  using slots_install [of net p None b] by (auto simp: connectionHandler_def split: prod.split option.split)

lemma slots_acceptAll [framing]: "slots_of (fst (acceptAll net ps st)) = slots_of (fst st)"
proof (induction net ps st rule: acceptAll.induct)
  case (2 net p ps b es)
  then show ?case using slots_connectionHandler [of net p b]
    by (cases "connectionHandler net p b") auto
qed simp

lemma slots_drop_owned [framing]: "slots_of (drop_owned k ids ow b) = slots_of b"
  by (simp add: drop_owned_def slots_upd_client slot_view_def split: option.split)

lemma slots_detach [framing]: "slots_of (fst (fst (detachPeerLocked k p b))) = slots_of b"
  by (simp add: detachPeerLocked_def Let_def framing)

lemma slots_peer_gone [framing]: "slots_of (fst (peerDisconnectHandler p b)) = slots_of b"
  using slots_detach [of "hex_encode (GetID p)" p b]
  by (auto simp: peerDisconnectHandler_def split: prod.split option.split)

lemma slots_custom [framing]: "slots_of (fst (peerCustomHandler tlib p msg b)) = slots_of b"
  by (simp add: peerCustomHandler_def Let_def split: sum.split)

lemma slots_run_query [framing]: "slots_of (fst (run_query_handler tlib now h qid msg b)) = slots_of b"
  by (simp add: run_query_handler_def Let_def framing split: sum.split)

lemma slots_query [framing]: "slots_of (fst (peerQueryHandler tlib now p qid msg b)) = slots_of b"
  by (simp add: peerQueryHandler_def Let_def framing split: option.split)

lemma slots_overlay_query [framing]:
  "slots_of (fst (run_overlay_query_handler tlib now h qid msg b)) = slots_of b"
  by (simp add: run_overlay_query_handler_def Let_def framing split: sum.split)

lemma slots_closePeers [framing]: "slots_of (fst (closePeers ks st)) = slots_of (fst st)"
proof (induction ks st rule: closePeers.induct)
  case (2 k ks b es)
  show ?case
  proof (cases "gm_get (activePeers b) k")
    case None
    with 2 show ?thesis by simp
  next
    case (Some p)
    obtain b' es' r where d: "detachPeerLocked k p b = ((b', es'), r)" by (metis surj_pair)
    with slots_detach [of k p b] have "slots_of b' = slots_of b" by simp
    with 2 Some d show ?thesis by (cases r) simp_all
  qed
qed simp

lemma slots_cleanupPeers [framing]: "slots_of (fst (cleanupPeers c b)) = slots_of b"
  by (simp add: cleanupPeers_def framing slots_upd_client slot_view_def)

lemma slots_closeOverlays [framing]: "slots_of (fst (closeOverlays os st)) = slots_of (fst st)"
  by (induction os st rule: closeOverlays.induct) (simp_all add: Let_def framing)

lemma slots_cleanupOverlays [framing]: "slots_of (fst (cleanupOverlays c b)) = slots_of b"
  by (simp add: cleanupOverlays_def framing slots_upd_client slot_view_def)

text \<open>The end of a connection changes two things of these: its context and its membership.\<close>

lemma slots_disconnect:
  assumes "disconnectClient c b = (b', es)"
  shows "cfg b' = cfg b \<and> clients b' = gm_del c (clients b)
    \<and> (\<forall>x. slot_view (heap b' x) = slot_view (heap b x))
    \<and> (\<forall>x. ctx_done (heap b' x) \<longleftrightarrow> x = c \<or> ctx_done (heap b x))"
proof -
  define b0 where "b0 = upd_client c (\<lambda>w. w\<lparr>ctx_done := True\<rparr>) b"
  obtain b1 e1 where 1: "cleanupPeers c b0 = (b1, e1)" by (metis surj_pair)
  obtain b2 e2 where 2: "cleanupOverlays c b1 = (b2, e2)" by (metis surj_pair)
  have "slots_of b1 = slots_of b0" using slots_cleanupPeers [of c b0] 1 by simp
  moreover have "slots_of b2 = slots_of b1" using slots_cleanupOverlays [of c b1] 2 by simp
  ultimately have "slots_of b2 = slots_of b0" by simp
  moreover have "b' = b2\<lparr>clients := gm_del c (clients b2)\<rparr>"
    using assms by (simp add: disconnectClient_def Let_def 1 2 flip: b0_def)
  ultimately show ?thesis by (simp add: slots_of_eq b0_def slot_view_def)
qed

lemma slots_sweep [framing]: "slots_of (sweepPendingQueries now b) = slots_of b"
  by (simp add: sweepPendingQueries_def framing)

section \<open>The adnl namespace\<close>

lemma slots_handler:
  "(\<And>x. checks = Inr x \<Longrightarrow> slots_of (fst (act x)) = slots_of b) \<Longrightarrow>
   slots_of (fst (handler c req b checks act)) = slots_of b"
  by (cases checks) simp_all

lemma slots_dial [framing]: "slots_of (fst (fst (dial net i addr key b))) = slots_of b"
proof -
  obtain cb res where r: "RegisterClient net i addr key = (cb, res)" by (metis surj_pair)
  show ?thesis
  proof (cases cb)
    case None
    with r show ?thesis by (simp add: dial_def framing)
  next
    case (Some p)
    obtain b' es e where h: "connectionHandler net p b = ((b', es), e)" by (metis surj_pair)
    with slots_connectionHandler [of net p b] have "slots_of b' = slots_of b" by simp
    with r Some h show ?thesis by (simp add: dial_def framing)
  qed
qed

lemma slots_dropPeer [framing]: "slots_of (fst (dropPeer p st)) = slots_of (fst st)"
  using slots_detach [of "hex_encode (GetID p)" p "fst st"]
  by (auto simp: dropPeer_def split: prod.split)

lemma slots_claim [framing]: "slots_of (fst (claimPeer net c req p st)) = slots_of (fst st)"
proof -
  obtain b es where st: "st = (b, es)" by (metis surj_pair)
  obtain b1 es1 r where i: "installPeer net p (Some c) b = ((b1, es1), r)" by (metis surj_pair)
  have 1: "slots_of b1 = slots_of b" using slots_install [of net p "Some c" b] i by simp
  obtain b2 es2 where x: "dropPeer p (b1, es @ es1) = (b2, es2)" by (metis surj_pair)
  have "slots_of b2 = slots_of b1" using slots_dropPeer [of p "(b1, es @ es1)"] x by simp
  with st i 1 x show ?thesis by (cases r) (simp_all add: claimPeer_def framing)
qed

lemma slots_reuse [framing]: "slots_of (fst (reusePeer net c req k p b)) = slots_of b"
proof -
  obtain b1 es where a: "acceptAll net (incoming net 0) (b, [PingPeer p]) = (b1, es)" by (metis surj_pair)
  have 1: "slots_of b1 = slots_of b"
    using slots_acceptAll [of net "incoming net 0" "(b, [PingPeer p])"] a by simp
  obtain b2 es2 r where i: "installPeer net p (Some c) b1 = ((b2, es2), r)" by (metis surj_pair)
  have 2: "slots_of b2 = slots_of b1" using slots_install [of net p "Some c" b1] i by simp
  show ?thesis unfolding reusePeer_def
    by (rule slots_handler)
      (cases "Ping net 0 p"; cases "owner_of b k"; cases r; simp add: a i 1 2 framing)
qed

lemma slots_connectNew [framing]: "slots_of (fst (connectNew net c req addr key b)) = slots_of b"
proof -
  obtain b1 es r where d: "dial net 0 addr key b = ((b1, es), r)" by (metis surj_pair)
  have 1: "slots_of b1 = slots_of b" using slots_dial [of net 0 addr key b] d by simp
  show ?thesis
    unfolding connectNew_def
  proof (rule slots_handler)
    fix u
    show "slots_of (fst (case dial net 0 addr key b of
           ((b1, es), Inl e) \<Rightarrow> (b1, es @ reply_to c req (failed (Wrap ''adnl connect failed: '' e)))
         | ((b1, es), Inr p) \<Rightarrow>
             (case Ping net 0 p of
                Inl e \<Rightarrow>
                  (case dropPeer p (b1, es @ [PingPeer p]) of (b2, es2) \<Rightarrow>
                     (b2, es2 @ reply_to c req (failed (Wrap ''ADNL peer did not answer liveness ping: '' e))))
              | Inr _ \<Rightarrow> claimPeer net c req p (b1, es @ [PingPeer p])))) = slots_of b"
    proof (cases r)
      case (Inl e)
      with d 1 show ?thesis by simp
    next
      case (Inr p)
      obtain b2 es2 where x: "dropPeer p (b1, es @ [PingPeer p]) = (b2, es2)" by (metis surj_pair)
      with slots_dropPeer [of p "(b1, es @ [PingPeer p])"] have "slots_of b2 = slots_of b1" by simp
      with d Inr x 1 show ?thesis by (cases "Ping net 0 p") (simp_all add: framing)
    qed
  qed
qed

lemma slots_tryEndpoints [framing]: "slots_of (fst (fst (tryEndpoints net key i addrs st))) = slots_of (fst st)"
proof (induction net key i addrs st rule: tryEndpoints.induct)
  case (2 net key i addr addrs b es)
  obtain b1 es1 r where d: "dial net i addr key b = ((b1, es1), r)" by (metis surj_pair)
  have 1: "slots_of b1 = slots_of b" using slots_dial [of net i addr key b] d by simp
  show ?case
  proof (cases r)
    case (Inl e)
    with 2(1) [OF d [symmetric] refl] d 1 show ?thesis by simp
  next
    case (Inr p)
    with 2(2) [OF d [symmetric] refl Inr] d 1 show ?thesis
      by (cases "Ping net i p") (simp_all add: framing)
  qed
qed simp

lemma slots_connectByADNLNew [framing]: "slots_of (fst (connectByADNLNew net c req ident b)) = slots_of b"
  unfolding connectByADNLNew_def
proof (rule slots_handler)
  fix u
  show "slots_of (fst (case FindAddresses net ident of
         Inl e \<Rightarrow> (b, reply_to c req (failed (Wrap ''dht resolve failed: '' e)))
       | Inr (addrs, pubKey) \<Rightarrow>
           if addrs = [] then (b, reply_to c req (bad (Lit ''no addresses found for ADNL ID'')))
           else
            (case tryEndpoints net pubKey 0 (publicADNLEndpoints addrs 8) (b, []) of
               ((b1, es), None) \<Rightarrow>
                 (b1, es @ reply_to c req (failed (Lit ''no live public ADNL address found'')))
             | (st, Some p) \<Rightarrow> claimPeer net c req p st))) = slots_of b"
  proof (cases "FindAddresses net ident")
    case (Inr found)
    obtain addrs key where found: "found = (addrs, key)" by (cases found)
    obtain b1 es r where t: "tryEndpoints net key 0 (publicADNLEndpoints addrs 8) (b, []) = ((b1, es), r)"
      by (metis surj_pair)
    have "slots_of b1 = slots_of b"
      using slots_tryEndpoints [of net key 0 "publicADNLEndpoints addrs 8" "(b, [])"] t by simp
    with Inr found t show ?thesis by (cases r) (simp_all add: framing)
  qed simp
qed

lemma slots_answer_lookup [framing]: "slots_of (fst (answer_lookup now c q b)) = slots_of b"
  by (simp add: answer_lookup_def framing split: option.split)

lemma slots_answer_finish [framing]: "slots_of (answer_finish q pq b) = slots_of b"
  by (simp add: answer_finish_def framing)

lemma slots_answer [framing]:
  assumes "\<And>i b. slots_of (other i b) = slots_of b"
  shows "slots_of (fst (answerQuery net tlib now other c req b)) = slots_of b"
  unfolding answerQuery_def
proof (rule slots_handler)
  fix x :: "string \<times> bytes \<times> tl_obj"
  obtain q qid ans where x: "x = (q, qid, ans)" by (metis prod_cases3)
  obtain b1 r where l: "answer_lookup now c q b = (b1, r)" by (metis surj_pair)
  have 1: "slots_of b1 = slots_of b" using slots_answer_lookup [of now c q b] l by simp
  show "slots_of (fst (case x of (q, qid, ans) \<Rightarrow>
       case answer_lookup now c q b of
         (b1, Inl r) \<Rightarrow> (b1, reply_to c req r)
       | (b1, Inr pq) \<Rightarrow>
           (let b2 = other 0 b1; p = pq_peer pq in
            if gm_get (activePeers b2) (hex_encode (GetID p)) \<noteq> Some p
            then (b2, reply_to c req (bad (Lit ''peer disconnected before answer could be sent'')))
            else
              (let b3 = other 1 b2 in
               case Answer net p qid ans of
                 Some e \<Rightarrow> (b3, AnswerTo p qid ans # reply_to c req (failed (Wrap ''answer failed: '' e)))
               | None \<Rightarrow>
                   (answer_finish q pq b3,
                    AnswerTo p qid ans # reply_to c req (Result (JObj [(''answered'', JBool True)]))))))) = slots_of b"
    using 1 assms by (cases r) (simp_all add: x l Let_def framing split: option.split)
qed

lemma slots_adnl:
  assumes "\<And>i b. slots_of (env_other e i b) = slots_of b"
  shows "slots_of (fst (run_adnl e m c req b)) = slots_of b"
proof (cases m)
  case Adnl_Connect
  then show ?thesis
    by (auto simp: run_adnl_def handleADNLConnect_def framing intro!: slots_handler split: option.split)
next
  case Adnl_ConnectByADNL
  then show ?thesis
    by (auto simp: run_adnl_def handleADNLConnectByADNL_def Let_def framing intro!: slots_handler split: option.split)
next
  case Adnl_SendMessage
  then show ?thesis
    by (auto simp: run_adnl_def handleADNLSendMessage_def intro!: slots_handler split: option.split)
next
  case Adnl_Ping
  then show ?thesis by (auto simp: run_adnl_def handleADNLPing_def intro!: slots_handler split: sum.split)
next
  case Adnl_Disconnect
  have "slots_of (fst (case detachPeerLocked k p b of
         ((b', es), None) \<Rightarrow> (b', es @ reply_to c req (bad (Lit ''peer changed during disconnect'')))
       | ((b', es), Some _) \<Rightarrow>
           (b', es @ ClosePeer p # reply_to c req (Result (JObj [(''disconnected'', JBool True)]))))) = slots_of b" for k p
    using slots_detach [of k p b] by (auto split: prod.split option.split)
  then show ?thesis using Adnl_Disconnect
    by (auto simp: run_adnl_def handleADNLDisconnect_def intro!: slots_handler)
next
  case Adnl_Peers
  then show ?thesis by (simp add: run_adnl_def handleADNLPeers_def Let_def)
next
  case Adnl_Query
  then show ?thesis by (auto simp: run_adnl_def handleADNLQuery_def Let_def intro!: slots_handler)
next
  case Adnl_SetQueryHandler
  then show ?thesis by (auto simp: run_adnl_def handleADNLSetQueryHandler_def framing intro!: slots_handler)
next
  case Adnl_Answer
  then show ?thesis using slots_answer [OF assms] by (simp add: run_adnl_def handleADNLAnswer_def)
qed

section \<open>The overlay namespace\<close>

lemma slots_broadcast_slot [framing]:
  "takeBroadcast c b = Some b1 \<Longrightarrow> slots_of b1 = slots_of b" "slots_of (broadcastDone c b) = slots_of b"
  by (auto simp: takeBroadcast_def broadcastDone_def slots_upd_client slot_view_def split: if_splits)

lemma slots_start_broadcast [framing]: "slots_of (fst (start_broadcast net c req ow d b)) = slots_of b"
  by (simp add: start_broadcast_def framing split: sum.split)

lemma slots_overlay:
  assumes "\<And>i b. slots_of (env_other e i b) = slots_of b"
  shows "slots_of (fst (run_overlay e m c req b)) = slots_of b"
proof (cases m)
  case Overlay_Join
  have "slots_of (upd_client c (\<lambda>w. w\<lparr>overlays := overlays w @ [ov]\<rparr>)
      (b\<lparr>activeOverlays := x, overlayToPeer := y\<rparr>)) = slots_of b" for ov x y
    by (simp add: slots_upd_client slot_view_def framing)
  with Overlay_Join show ?thesis
    by (auto simp: run_overlay_def handleOverlayJoin_def Let_def intro!: slots_handler split: sum.split)
next
  case Overlay_Leave
  have "slots_of (upd_client c (\<lambda>w. w\<lparr>overlays := remove1 ov (overlays w)\<rparr>)
      (b\<lparr>activeOverlays := x, overlayToPeer := y\<rparr>)) = slots_of b" for ov x y
    by (simp add: slots_upd_client slot_view_def framing)
  with Overlay_Leave show ?thesis
    by (auto simp: run_overlay_def handleOverlayLeave_def intro!: slots_handler)
next
  case Overlay_GetPeers
  then show ?thesis by (auto simp: run_overlay_def handleOverlayGetPeers_def intro!: slots_handler split: sum.split)
next
  case Overlay_SendMessage
  then show ?thesis by (auto simp: run_overlay_def handleOverlaySendMessage_def intro!: slots_handler)
next
  case Overlay_SendRaw
  then show ?thesis by (auto simp: run_overlay_def handleOverlaySendRaw_def intro!: slots_handler)
next
  case Overlay_Broadcast
  then show ?thesis
    by (auto simp: run_overlay_def handleOverlayBroadcast_def framing intro!: slots_handler split: option.split)
next
  case Overlay_Query
  then show ?thesis by (auto simp: run_overlay_def handleOverlayQuery_def Let_def intro!: slots_handler)
next
  case Overlay_SetQueryHandler
  then show ?thesis by (simp add: run_overlay_def handleOverlaySetQueryHandler_def split: sum.split)
next
  case Overlay_Answer
  then show ?thesis using slots_answer [OF assms] by (simp add: run_overlay_def handleOverlayAnswer_def)
qed

end
