(* ===== verification/World.thy ===== *)
theory World
  imports Services Frame
begin

text \<open>
  Connections, requests and subscriptions of all clients and the calls of the network library as
  one transition system. A request holds a token of the in-flight semaphore from its frame to its
  return. A subscription is a request whose handler does not return: it keeps its token, a slot of
  the subscription counter and an entry in the registry until its loop stops or is cancelled. A
  connection ends in two steps: its context is cancelled, and when every handler has returned its
  peers and overlays are cleaned up.
\<close>

section \<open>One turn of a loop\<close>

definition iteration ::
  "ton_lib \<Rightarrow> client_ref \<Rightarrow> sub_loop \<Rightarrow> loop_input \<Rightarrow> (effect list \<times> next_step) option" where
  "iteration tlib c l i =
     (case l of
        TxLoop addr lt ops \<Rightarrow> Some (tx_step tlib c addr lt ops i)
      | BlockLoop n \<Rightarrow> Some (block_step c n i)
      | AccountLoop addr bal lt n \<Rightarrow> Some (account_step tlib c addr bal lt n i)
      | NewTxLoop n \<Rightarrow> new_tx_step c n i
      | ConfigLoop n ids m \<Rightarrow> Some (config_step tlib c n ids m i)
      | MultiLoop es \<Rightarrow> Some (multi_step tlib c es i)
      | WatchLoop h ext dst blk acc \<Rightarrow> waitForExternalMessage tlib c h ext dst blk acc i
      | TraceLoop _ _ _ \<Rightarrow> None)"

inductive loop_turn ::
  "ton_lib \<Rightarrow> client_ref \<Rightarrow> nat \<Rightarrow> WSBridge \<Rightarrow> sub_loop \<Rightarrow> loop_input \<Rightarrow> effect list \<Rightarrow> next_step \<Rightarrow> bool" for tlib c n b where
  iterated: "iteration tlib c l i = Some (es, nx) \<Longrightarrow> loop_turn tlib c n b l i es nx"
| traced: "trace_iteration tlib c n b l i es nx \<Longrightarrow> loop_turn tlib c n b l i es nx"

section \<open>The network library\<close>

text \<open>
  What happens to the bridge outside the handlers of requests: connections that come in, messages
  and queries of peers and overlays, peers that go, the sweep, the end of a broadcaster, and the
  two halves of an answer between which any other step may happen.
\<close>

inductive network_step :: "WSBridge \<Rightarrow> effect list \<Rightarrow> WSBridge \<Rightarrow> bool" where
  incoming: "connectionHandler net p b = ((b', es), err) \<Longrightarrow> network_step b es b'"
| custom: "peerCustomHandler tlib p msg b = (b', es) \<Longrightarrow> network_step b es b'"
| query: "peerQueryHandler tlib now p qid msg b = (b', es) \<Longrightarrow> network_step b es b'"
| overlay_query: "run_overlay_query_handler tlib now h qid msg b = (b', es) \<Longrightarrow> network_step b es b'"
| peer_gone: "peerDisconnectHandler p b = (b', es) \<Longrightarrow> network_step b es b'"
| sweep: "network_step b [] (sweepPendingQueries now b)"
| broadcast_done: "network_step b [] (broadcastDone c b)"
| looked_up: "answer_lookup now c q b = (b', r) \<Longrightarrow> network_step b [] b'"
| answered: "network_step b [] (answer_finish q pq b)"

lemma network_keeps_slots: "network_step b es b' \<Longrightarrow> slots_of b' = slots_of b"
proof (induction rule: network_step.induct)
  case (incoming net p b b' es err)
  with slots_connectionHandler [of net p b] show ?case by simp
next
  case (custom tlib p msg b b' es)
  with slots_custom [of tlib p msg b] show ?case by simp
next
  case (query tlib now p qid msg b b' es)
  with slots_query [of tlib now p qid msg b] show ?case by simp
next
  case (overlay_query tlib now h qid msg b b' es)
  with slots_overlay_query [of tlib now h qid msg b] show ?case by simp
next
  case (peer_gone p b b' es)
  with slots_peer_gone [of p b] show ?case by simp
next
  case (looked_up now c q b b' r)
  with slots_answer_lookup [of now c q b] show ?case by simp
qed (simp_all add: framing)

lemma network_keeps_inv: "network_step b es b' \<Longrightarrow> bridge_inv b \<Longrightarrow> bridge_inv b'"
proof (induction rule: network_step.induct)
  case (looked_up now c q b b' r)
  with answer_lookup_inv [of b now c q] show ?case by simp
qed (blast intro: step_inv bridge_step.intros)+

section \<open>The world\<close>

text \<open>
  Per client: the running subscriptions with the numbers of their contexts, how many other
  requests run, and the contexts that are cancelled while their handlers have not returned yet.
\<close>

record sub_world =
  sw_bridge :: WSBridge
  sw_tasks :: "client_ref \<Rightarrow> (nat \<times> sub_loop) list"
  sw_short :: "client_ref \<Rightarrow> nat"
  sw_cancelled :: "client_ref \<Rightarrow> nat set"

definition start_world :: "BridgeConfig \<Rightarrow> sub_world" where
  "start_world cf = \<lparr>sw_bridge = NewWSBridge (Some cf), sw_tasks = (\<lambda>_. []), sw_short = (\<lambda>_. 0),
     sw_cancelled = (\<lambda>_. {})\<rparr>"

definition end_task :: "client_ref \<Rightarrow> nat \<Rightarrow> sub_world \<Rightarrow> sub_world" where
  "end_task c k w =
     (let (n, _) = sw_tasks w c ! k in
      w\<lparr>sw_bridge := release c (endSub c n (sw_bridge w)),
        sw_tasks := (sw_tasks w)(c := take k (sw_tasks w c) @ drop (Suc k) (sw_tasks w c)),
        sw_cancelled := (sw_cancelled w)(c := sw_cancelled w c - {n})\<rparr>)"

text \<open>
  Two rules of \<open>world_step\<close> stand for what is not derived from the handlers: \<open>return\<close> is the end of
  a handler of any other request, and \<open>cancelled\<close> a loop that leaves through the \<open>ctx.Done()\<close> of its
  select, its wait or its retry. Nothing is claimed of when they happen.

  A connection that has opened \<open>2 ^ 64\<close> subscriptions is outside the model, as its counter
  starts again.
\<close>

definition may_register :: "client_ref \<Rightarrow> WSBridge \<Rightarrow> bool" where
  "may_register c b \<longleftrightarrow> subCounter (heap b c) + 1 < 2 ^ 64"

definition env_quiet :: "env \<Rightarrow> bool" where
  "env_quiet e \<longleftrightarrow> (\<forall>i b. slots_of (env_other e i b) = slots_of b \<and> (bridge_inv b \<longrightarrow> bridge_inv (env_other e i b)))"

inductive world_step :: "sub_world \<Rightarrow> effect list \<Rightarrow> sub_world \<Rightarrow> bool" where
  accept: "gm_get (clients (sw_bridge w)) c = None \<Longrightarrow>
     acceptClient hostname r c (sw_bridge w) = (b', a) \<Longrightarrow> world_step w [] (w\<lparr>sw_bridge := b'\<rparr>)"
| hang_up: "gm_get (clients (sw_bridge w)) c \<noteq> None \<Longrightarrow>
     world_step w [] (w\<lparr>sw_bridge := upd_client c (\<lambda>x. x\<lparr>ctx_done := True\<rparr>) (sw_bridge w)\<rparr>)"
| gone: "gm_get (clients (sw_bridge w)) c \<noteq> None \<Longrightarrow> ctx_done (heap (sw_bridge w) c) \<Longrightarrow>
     sw_tasks w c = [] \<Longrightarrow> sw_short w c = 0 \<Longrightarrow> disconnectClient c (sw_bridge w) = (b', es) \<Longrightarrow>
     world_step w es (w\<lparr>sw_bridge := b'\<rparr>)"
| arrive: "gm_get (clients (sw_bridge w)) c \<noteq> None \<Longrightarrow> \<not> ctx_done (heap (sw_bridge w) c) \<Longrightarrow>
     acquire c (sw_bridge w) = Some b' \<Longrightarrow>
     world_step w [] (w\<lparr>sw_bridge := b', sw_short := (sw_short w)(c := sw_short w c + 1)\<rparr>)"
| return: "0 < sw_short w c \<Longrightarrow>
     world_step w [] (w\<lparr>sw_bridge := release c (sw_bridge w), sw_short := (sw_short w)(c := sw_short w c - 1)\<rparr>)"
| opened: "0 < sw_short w c \<Longrightarrow> may_register c (sw_bridge w) \<Longrightarrow>
     open_service be m c req (sw_bridge w) = Some ((b', es), Some (n, l)) \<Longrightarrow>
     world_step w es (w\<lparr>sw_bridge := b', sw_short := (sw_short w)(c := sw_short w c - 1),
       sw_tasks := (sw_tasks w)(c := sw_tasks w c @ [(n, l)])\<rparr>)"
| refused: "0 < sw_short w c \<Longrightarrow> may_register c (sw_bridge w) \<Longrightarrow>
     open_service be m c req (sw_bridge w) = Some ((b', es), None) \<Longrightarrow>
     world_step w es (w\<lparr>sw_bridge := b'\<rparr>)"
| unsubscribe: "0 < sw_short w c \<Longrightarrow> handleUnsubscribe c req (sw_bridge w) = ((b', es), x) \<Longrightarrow>
     world_step w es (w\<lparr>sw_bridge := b',
       sw_cancelled := (sw_cancelled w)(c := sw_cancelled w c \<union> set_option x)\<rparr>)"
| serve: "0 < sw_short w c \<Longrightarrow> open_service be m c req (sw_bridge w) = None \<Longrightarrow>
     m \<noteq> Subscribe_call Subscribe_Unsubscribe \<Longrightarrow> env_service e = run_service be \<Longrightarrow>
     env_quiet e \<Longrightarrow> run_method e m c req (sw_bridge w) = (b', es) \<Longrightarrow> world_step w es (w\<lparr>sw_bridge := b'\<rparr>)"
| turn: "k < length (sw_tasks w c) \<Longrightarrow> sw_tasks w c ! k = (n, l) \<Longrightarrow>
     loop_turn tlib c n (sw_bridge w) l i es (Continue l') \<Longrightarrow>
     world_step w es (w\<lparr>sw_tasks := (sw_tasks w)(c := (sw_tasks w c)[k := (n, l')])\<rparr>)"
| cancel_all: "k < length (sw_tasks w c) \<Longrightarrow> sw_tasks w c ! k = (n, l) \<Longrightarrow>
     loop_turn tlib c n (sw_bridge w) l i es (CancelAll l') \<Longrightarrow>
     world_step w es (w\<lparr>sw_tasks := (sw_tasks w)(c := (sw_tasks w c)[k := (n, l')]),
       sw_cancelled := (sw_cancelled w)(c := insert n (sw_cancelled w c))\<rparr>)"
| stop: "k < length (sw_tasks w c) \<Longrightarrow> sw_tasks w c ! k = (n, l) \<Longrightarrow>
     loop_turn tlib c n (sw_bridge w) l i es Stop \<Longrightarrow> world_step w es (end_task c k w)"
| cancelled: "k < length (sw_tasks w c) \<Longrightarrow> sw_tasks w c ! k = (n, l) \<Longrightarrow>
     n \<in> sw_cancelled w c \<or> ctx_done (heap (sw_bridge w) c) \<Longrightarrow> world_step w [] (end_task c k w)"
| network: "network_step (sw_bridge w) es b' \<Longrightarrow> world_step w es (w\<lparr>sw_bridge := b'\<rparr>)"

inductive_cases world_step_cases: "world_step w es w'"

inductive world_reachable :: "BridgeConfig \<Rightarrow> sub_world \<Rightarrow> bool" for cf where
  init: "world_reachable cf (start_world cf)"
| step: "world_reachable cf w \<Longrightarrow> world_step w es w' \<Longrightarrow> world_reachable cf w'"

text \<open>A service that opens nothing and unsubscribes nothing leaves the bridge as it is.\<close>

lemma quiet_service:
  "open_service be m c req b = None \<Longrightarrow> m \<noteq> Subscribe_call Subscribe_Unsubscribe \<Longrightarrow>
   fst (run_service be m c req b) = b"
proof (cases m)
  case (Subscribe_call x)
  then show "open_service be m c req b = None \<Longrightarrow> m \<noteq> Subscribe_call Subscribe_Unsubscribe \<Longrightarrow>
      fst (run_service be m c req b) = b"
    by (cases x) (simp_all add: open_service_def)
next
  case (Dht_call x)
  then show "fst (run_service be m c req b) = b"
    by (cases x) (simp_all add: run_service_def open_service_def dht_service_def handler_def
        handleDHTStoreAddress_def handleDHTStoreOverlayNodes_def split: sum.split prod.split)
next
  case (Lite_call x)
  then show "open_service be m c req b = None \<Longrightarrow> fst (run_service be m c req b) = b"
    by (cases x) (simp_all add: run_service_def open_service_def)
qed (simp_all add: run_service_def open_service_def)

lemma serve_keeps_slots:
  assumes "open_service be m c req b = None" "m \<noteq> Subscribe_call Subscribe_Unsubscribe"
    and "env_service e = run_service be" "\<And>i b. slots_of (env_other e i b) = slots_of b"
    and "run_method e m c req b = (b', es)"
  shows "slots_of b' = slots_of b"
proof -
  have b': "b' = fst (run_method e m c req b)" using assms(5) by simp
  have svc: "fst (run_service be m c req b) = b" using quiet_service [OF assms(1,2)] .
  show ?thesis
    using svc assms(3) slots_adnl [OF assms(4)] slots_overlay [OF assms(4)]
    by (cases m) (simp_all add: b' run_method_def)
qed

section \<open>Work belongs to connections\<close>

text \<open>
  The maps of the bridge agree, and requests and subscriptions run for connected clients only.
\<close>

definition joined :: "sub_world \<Rightarrow> bool" where
  "joined w \<longleftrightarrow> bridge_inv (sw_bridge w)
     \<and> (\<forall>c. gm_get (clients (sw_bridge w)) c = None \<longrightarrow> sw_tasks w c = [] \<and> sw_short w c = 0)"

lemma subs_only_joined:
  assumes "subs_only c b b'" "bridge_inv b"
  shows "bridge_inv b'" and "clients b' = clients b" and "ctx_done (heap b' x) = ctx_done (heap b x)"
proof -
  obtain f where f: "b' = upd_client c f b" "\<forall>w. same_but_subs w (f w)"
    using assms(1) unfolding subs_only_def by blast
  with upd_client_inv [OF assms(2), of f c] show "bridge_inv b'" by (simp add: same_but_subs_def)
  show "clients b' = clients b" "ctx_done (heap b' x) = ctx_done (heap b x)"
    using f by (simp_all add: same_but_subs_def)
qed

lemma run_service_frame: "service_frame (run_service be)"
  using service_served unfolding service_frame_def served_def subs_only_def same_but_subs_def by metis

lemma end_task_joined:
  assumes "joined w" "k < length (sw_tasks w c)"
  shows "joined (end_task c k w)"
proof -
  obtain n l where n: "sw_tasks w c ! k = (n, l)" by (metis surj_pair)
  have inv: "bridge_inv (sw_bridge w)" using assms(1) by (simp add: joined_def)
  note sub = subs_only_joined [OF subs_only_end [of c "sw_bridge w" n] inv]
  have "bridge_inv (release c (endSub c n (sw_bridge w)))" using sub(1) by (rule release_inv)
  moreover have "clients (release c (endSub c n (sw_bridge w))) = clients (sw_bridge w)"
    using sub(2) by (simp add: release_def)
  ultimately show ?thesis
    using assms by (auto simp: end_task_def n joined_def)
qed

lemma joined_step:
  assumes "world_step w es w'" and j: "joined w"
  shows "joined w'"
  using assms(1)
proof (cases rule: world_step.cases)
  case (accept c hostname r b' a)
  have "bridge_inv b'" using accept_inv [of "sw_bridge w" c hostname r] accept(3,4) j by (simp add: joined_def)
  then show ?thesis
    using accept(2,4) j by (auto simp: joined_def acceptClient_def split: if_splits)
next
  case (hang_up c)
  then show ?thesis using j by (auto simp: joined_def intro!: upd_client_inv)
next
  case (gone c b')
  then have "clients b' = gm_del c (clients (sw_bridge w))" using slots_disconnect by blast
  moreover have "bridge_inv b'" using disconnectClient_inv [of "sw_bridge w" c] gone(6) j by (simp add: joined_def)
  ultimately show ?thesis using gone j by (auto simp: joined_def)
next
  case (arrive c b')
  then have "bridge_inv b'" "clients b' = clients (sw_bridge w)"
    using acquire_inv [of "sw_bridge w" c b'] j by (auto simp: joined_def acquire_def split: if_splits)
  then show ?thesis using arrive j by (auto simp: joined_def)
next
  case (return c)
  then show ?thesis using j by (auto simp: joined_def release_inv) (simp_all add: release_def)
next
  case (opened c be m req b' n l)
  have con: "gm_get (clients (sw_bridge w)) c \<noteq> None" using opened(2) j by (auto simp: joined_def)
  have "subs_only c (sw_bridge w) b'" using open_served [OF opened(4)] by (simp add: served_def)
  from subs_only_joined [OF this] j con show ?thesis using opened(1) by (auto simp: joined_def)
next
  case (refused c be m req b')
  have "subs_only c (sw_bridge w) b'" using open_served [OF refused(4)] by (simp add: served_def)
  from subs_only_joined [OF this] j show ?thesis using refused(1) by (auto simp: joined_def)
next
  case (unsubscribe c req b' x)
  have "subs_only c (sw_bridge w) b'" using unsubscribe_served [of c "sw_bridge w" req] unsubscribe(3)
    by (simp add: served_def)
  from subs_only_joined [OF this] j show ?thesis using unsubscribe(1) by (auto simp: joined_def)
next
  case (serve c be m req e b')
  have con: "gm_get (clients (sw_bridge w)) c \<noteq> None" using serve(2) j by (auto simp: joined_def)
  have "env_ok e" using serve(5,6) run_service_frame [of be] by (simp add: env_ok_def env_quiet_def)
  from run_method_inv [OF _ this con, of m req] serve(7) j have "bridge_inv b'" by (simp add: joined_def)
  moreover have "clients b' = clients (sw_bridge w)"
    using serve_keeps_slots [OF serve(3-5) _ serve(7)] serve(6) by (simp add: env_quiet_def slots_of_eq)
  ultimately show ?thesis using serve(1) j by (simp add: joined_def)
next
  case (turn k c n l tlib i l')
  then show ?thesis using j by (auto simp: joined_def)
next
  case (cancel_all k c n l tlib i l')
  then show ?thesis using j by (auto simp: joined_def)
next
  case (stop k c n l tlib i)
  then show ?thesis using end_task_joined [OF j] by simp
next
  case (cancelled k c n l)
  then show ?thesis using end_task_joined [OF j] by simp
next
  case (network b')
  then have "bridge_inv b'" "clients b' = clients (sw_bridge w)"
    using network_keeps_inv j network_keeps_slots [of "sw_bridge w" es b'] by (auto simp: joined_def slots_of_eq)
  then show ?thesis using network(1) j by (simp add: joined_def)
qed

lemma joined_reachable: "world_reachable cf w \<Longrightarrow> joined w"
proof (induction rule: world_reachable.induct)
  case init
  show ?case by (simp add: joined_def start_world_def bridge_inv_init)
qed (rule joined_step)

end
