(* ===== verification/SubWorld.thy ===== *)
theory SubWorld
  imports World
begin

text \<open>
  The invariant of the slots in the world of all clients: counters, tokens and registries match
  the running requests and subscriptions.
\<close>

section \<open>What a client may hold\<close>

text \<open>
  The invariant of one client: \<open>ns\<close> are the numbers of its running subscriptions, \<open>k\<close> its other
  requests and \<open>cs\<close> its cancelled contexts.
\<close>

definition counts_ok :: "BridgeConfig \<Rightarrow> int \<Rightarrow> nat \<Rightarrow> nat \<Rightarrow> nat \<Rightarrow> bool" where
  "counts_ok cf active infl n k \<longleftrightarrow>
     active = int n \<and> infl = n + k
     \<and> active \<le> max 0 (to_int32 (MaxSubscriptions (Subscribe (Namespaces cf))))
     \<and> int infl \<le> max 0 (MaxInflight cf)"

definition ids_ok :: "nat list \<Rightarrow> nat \<Rightarrow> nat set \<Rightarrow> bool" where
  "ids_ok ns ctr cs \<longleftrightarrow> distinct ns \<and> (\<forall>n \<in> set ns. n \<le> ctr) \<and> ctr < 2 ^ 64 \<and> cs \<subseteq> set ns"

definition registry_ok :: "(string, nat) gomap \<Rightarrow> nat list \<Rightarrow> nat set \<Rightarrow> bool" where
  "registry_ok subs ns cs \<longleftrightarrow>
     (\<forall>key n. gm_get subs key = Some n \<longrightarrow> key = sub_id n \<and> n \<in> set ns)
     \<and> (\<forall>n \<in> set ns - cs. gm_get subs (sub_id n) = Some n)"

definition client_inv ::
  "BridgeConfig \<Rightarrow> int \<times> (string, nat) gomap \<times> nat \<times> nat \<Rightarrow> nat list \<Rightarrow> nat \<Rightarrow> nat set \<Rightarrow> bool" where
  "client_inv cf v ns k cs \<longleftrightarrow>
     (case v of (active, subs, ctr, infl) \<Rightarrow>
        counts_ok cf active infl (length ns) k \<and> ids_ok ns ctr cs \<and> registry_ok subs ns cs)"

definition world_inv :: "BridgeConfig \<Rightarrow> sub_world \<Rightarrow> bool" where
  "world_inv cf w \<longleftrightarrow> cfg (sw_bridge w) = cf \<and>
     (\<forall>c. client_inv cf (slot_view (heap (sw_bridge w) c)) (map fst (sw_tasks w c)) (sw_short w c) (sw_cancelled w c))"

text \<open>The counter is a signed 32-bit integer; a limit at its very end would make it wrap.\<close>

definition countable_limit :: "BridgeConfig \<Rightarrow> bool" where
  "countable_limit cf \<longleftrightarrow> to_int32 (MaxSubscriptions (Subscribe (Namespaces cf))) < 2 ^ 31 - 1"

section \<open>Opening and refusing\<close>

lemma subscribing_opened:
  "subscribing_with full c req checks ost b = ((b', es), Some (n, l)) \<Longrightarrow>
   \<exists>b1. enterSub c b = (b1, True) \<and> registerSub c b1 = (n, b')"
  by (auto simp: subscribing_with_def split: prod.split_asm bool.split_asm sum.split_asm)

definition refused_state :: "client_ref \<Rightarrow> WSBridge \<Rightarrow> WSBridge \<Rightarrow> bool" where
  "refused_state c b b' \<longleftrightarrow>
     b' = b \<or> enterSub c b = (b', False)
     \<or> (\<exists>b1. enterSub c b = (b1, True)
          \<and> (b' = leaveSub c b1 \<or> (\<exists>n b2. registerSub c b1 = (n, b2) \<and> b' = endSub c n b2)))"

lemma subscribing_refused:
  "subscribing_with full c req checks ost b = ((b', es), None) \<Longrightarrow> refused_state c b b'"
  by (auto simp: subscribing_with_def refused_state_def
      split: prod.split_asm bool.split_asm sum.split_asm)

lemmas sub_handlers =
  handleSubscribeTransactions_def handleSubscribeBlocks_def handleSubscribeAccountState_def
  handleSubscribeNewTransactions_def handleSubscribeConfigChanges_def handleSubscribeTrace_def
  handleSendAndWatch_def handleSubscribeMultiAccount_def subscribing_def Let_def

lemma open_service_opened:
  "open_service be m c req b = Some ((b', es), Some (n, l)) \<Longrightarrow>
   \<exists>b1. enterSub c b = (b1, True) \<and> registerSub c b1 = (n, b')"
  by (auto simp: open_service_def sub_handlers dest!: subscribing_opened
      split: rpc_method.split_asm subscribe_method.split_asm lite_method.split_asm sum.split_asm)

lemma open_service_refused:
  "open_service be m c req b = Some ((b', es), None) \<Longrightarrow> refused_state c b b'"
  by (auto simp: open_service_def sub_handlers dest!: subscribing_refused
      split: rpc_method.split_asm subscribe_method.split_asm lite_method.split_asm sum.split_asm)
    (simp_all add: refused_state_def)

section \<open>Slots of one client\<close>

lemma slots_other_client:
  "slots_of b' = slots_of b \<Longrightarrow> slot_view (heap b' c) = slot_view (heap b c)"
  by (simp add: slots_of_eq)

lemma sub_id_inj:
  assumes "n < 2 ^ 64" "m < 2 ^ 64"
  shows "sub_id n = sub_id m \<longleftrightarrow> n = m"
proof
  assume "sub_id n = sub_id m"
  then have "show_nat n = show_nat m" by (simp add: sub_id_def)
  with parse_show_nat [OF assms(1)] parse_show_nat [OF assms(2)] have "Inr n = (Inr m :: nat result)" by metis
  then show "n = m" by simp
qed simp

lemma enter_state:
  assumes "subs_countable c b" "enterSub c b = (b1, e)"
  shows "(e \<longrightarrow> b1 = addSubs 1 c b \<and> activeSubs (heap b1 c) = activeSubs (heap b c) + 1
            \<and> activeSubs (heap b c) + 1 \<le> max_subs b)
       \<and> (\<not> e \<longrightarrow> slots_of b1 = slots_of b)"
proof -
  have "to_int32 (activeSubs (heap b c) + 1) = activeSubs (heap b c) + 1"
    using assms(1) by (intro to_int32_id) (auto simp: subs_countable_def max_def split: if_splits)
  moreover have "to_int32 (activeSubs (heap b c)) = activeSubs (heap b c)"
    using assms(1) by (intro to_int32_id) (auto simp: subs_countable_def max_def split: if_splits)
  ultimately show ?thesis
    using assms(2)
    by (auto simp: enterSub_def addSubs_def Let_def max_subs_def slots_of_eq slot_view_def split: if_splits)
qed

lemma leave_state:
  assumes "0 < activeSubs (heap b c)" "activeSubs (heap b c) < 2 ^ 31"
  shows "slot_view (heap (leaveSub c b) x) =
     (if x = c then (activeSubs (heap b c) - 1, subscriptions (heap b c), subCounter (heap b c), inflight (heap b c))
      else slot_view (heap b x))"
proof -
  have "to_int32 (activeSubs (heap b c) - 1) = activeSubs (heap b c) - 1"
    using assms by (intro to_int32_id) auto
  then show ?thesis by (simp add: leaveSub_def addSubs_def slot_view_def)
qed

lemma register_state:
  assumes "registerSub c b = (n, b')" "may_register c b"
  shows "n = subCounter (heap b c) + 1 \<and> n < 2 ^ 64
    \<and> slot_view (heap b' x) =
     (if x = c then (activeSubs (heap b c), gm_put (sub_id n) n (subscriptions (heap b c)), n, inflight (heap b c))
      else slot_view (heap b x))"
  using assms by (auto simp: registerSub_def may_register_def Let_def slot_view_def)

section \<open>The invariant of one client\<close>

lemmas client_inv_parts = client_inv_def prod.case

lemma client_inv_new: "client_inv cf (slot_view new_client) [] 0 {}"
  by (simp add: client_inv_def counts_ok_def ids_ok_def registry_ok_def slot_view_def new_client_def)

lemma client_inv_arrive:
  "client_inv cf (a, s, ct, i) ns k cs \<Longrightarrow> int i < MaxInflight cf \<Longrightarrow> client_inv cf (a, s, ct, i + 1) ns (k + 1) cs"
  by (simp add: client_inv_def counts_ok_def)

lemma client_inv_return:
  "client_inv cf (a, s, ct, i) ns k cs \<Longrightarrow> 0 < k \<Longrightarrow> client_inv cf (a, s, ct, i - 1) ns (k - 1) cs"
  by (auto simp: client_inv_def counts_ok_def)

lemma fresh_id:
  assumes "ids_ok ns ct cs" "ct + 1 < 2 ^ 64"
  shows "ct + 1 \<notin> set ns" and "m \<in> set ns \<Longrightarrow> sub_id m \<noteq> sub_id (ct + 1)"
proof -
  have le: "m \<le> ct" if "m \<in> set ns" for m using assms(1) that by (simp add: ids_ok_def)
  then show "ct + 1 \<notin> set ns" by fastforce
  show "m \<in> set ns \<Longrightarrow> sub_id m \<noteq> sub_id (ct + 1)"
    using le [of m] assms(2) by (subst sub_id_inj) auto
qed

lemma client_inv_opened:
  assumes inv: "client_inv cf (a, s, ct, i) ns k cs" and k: "0 < k" and ct: "ct + 1 < 2 ^ 64"
    and room: "a + 1 \<le> to_int32 (MaxSubscriptions (Subscribe (Namespaces cf)))"
  shows "client_inv cf (a + 1, gm_put (sub_id (ct + 1)) (ct + 1) s, ct + 1, i) (ns @ [ct + 1]) (k - 1) cs"
proof -
  have c: "counts_ok cf a i (length ns) k" and d: "ids_ok ns ct cs" and r: "registry_ok s ns cs"
    using inv by (simp_all add: client_inv_def)
  note f = fresh_id [OF d ct]
  have "counts_ok cf (a + 1) i (length (ns @ [ct + 1])) (k - 1)"
    using c k room by (auto simp: counts_ok_def)
  moreover have "ids_ok (ns @ [ct + 1]) (ct + 1) cs"
    using d f(1) ct by (auto simp: ids_ok_def intro: le_SucI)
  moreover have "registry_ok (gm_put (sub_id (ct + 1)) (ct + 1) s) (ns @ [ct + 1]) cs"
    using r f by (auto simp: registry_ok_def)
  ultimately show ?thesis by (simp add: client_inv_def)
qed

lemma client_inv_undone:
  assumes inv: "client_inv cf (a, s, ct, i) ns k cs" and ct: "ct + 1 < 2 ^ 64"
  shows "client_inv cf (a, gm_del (sub_id (ct + 1)) (gm_put (sub_id (ct + 1)) (ct + 1) s), ct + 1, i) ns k cs"
proof -
  have c: "counts_ok cf a i (length ns) k" and d: "ids_ok ns ct cs" and r: "registry_ok s ns cs"
    using inv by (simp_all add: client_inv_def)
  note f = fresh_id [OF d ct]
  have "ids_ok ns (ct + 1) cs" using d ct by (auto simp: ids_ok_def intro: le_SucI)
  moreover have "registry_ok (gm_del (sub_id (ct + 1)) (gm_put (sub_id (ct + 1)) (ct + 1) s)) ns cs"
    using r f by (auto simp: registry_ok_def split: if_splits)
  ultimately show ?thesis using c by (simp add: client_inv_def)
qed

lemma remove_nth:
  assumes "distinct xs" "j < length xs"
  shows "set (take j xs @ drop (Suc j) xs) = set xs - {xs ! j}"
    and "distinct (take j xs @ drop (Suc j) xs)"
    and "length (take j xs @ drop (Suc j) xs) = length xs - 1"
proof -
  define ys zs where "ys = take j xs" and "zs = drop (Suc j) xs"
  have xs: "xs = ys @ xs ! j # zs" unfolding ys_def zs_def using assms(2) by (rule id_take_nth_drop)
  have d: "distinct (ys @ xs ! j # zs)" using assms(1) xs by metis
  have "set xs = insert (xs ! j) (set ys \<union> set zs)" by (subst xs) auto
  with d show "set (take j xs @ drop (Suc j) xs) = set xs - {xs ! j}"
    by (auto simp flip: ys_def zs_def)
  from d show "distinct (take j xs @ drop (Suc j) xs)" by (simp flip: ys_def zs_def)
  show "length (take j xs @ drop (Suc j) xs) = length xs - 1" using assms(2) by simp
qed

lemma client_inv_ended:
  assumes inv: "client_inv cf (a, s, ct, i) ns k cs" and j: "j < length ns" and n: "n = ns ! j"
  shows "client_inv cf (a - 1, gm_del (sub_id n) s, ct, i - 1) (take j ns @ drop (Suc j) ns) k (cs - {n})"
proof -
  have c: "counts_ok cf a i (length ns) k" and d: "ids_ok ns ct cs" and r: "registry_ok s ns cs"
    using inv by (simp_all add: client_inv_def)
  have dist: "distinct ns" using d by (simp add: ids_ok_def)
  note rn = remove_nth [OF dist j]
  have small: "m < 2 ^ 64" if "m \<in> set ns" for m
    using d that by (auto simp: ids_ok_def dest: bspec)
  have neq: "sub_id m \<noteq> sub_id n" if "m \<in> set ns" "m \<noteq> n" for m
    using sub_id_inj [OF small [OF that(1)] small [of n]] that(2) j n by simp
  have "counts_ok cf (a - 1) (i - 1) (length ns - 1) k" using c j by (auto simp: counts_ok_def)
  moreover have "ids_ok (take j ns @ drop (Suc j) ns) ct (cs - {n})"
    using d n rn(1,2) by (auto simp: ids_ok_def)
  moreover have "registry_ok (gm_del (sub_id n) s) (take j ns @ drop (Suc j) ns) (cs - {n})"
    unfolding registry_ok_def rn(1) using r neq n by (auto simp: registry_ok_def split: if_splits)
  ultimately show ?thesis using rn(3) by (simp add: client_inv_def)
qed

lemma client_inv_unsubscribed:
  assumes inv: "client_inv cf (a, s, ct, i) ns k cs" and g: "gm_get s key = Some n"
  shows "client_inv cf (a, gm_del key s, ct, i) ns k (insert n cs)"
proof -
  have c: "counts_ok cf a i (length ns) k" and d: "ids_ok ns ct cs" and r: "registry_ok s ns cs"
    using inv by (simp_all add: client_inv_def)
  have kn: "key = sub_id n" "n \<in> set ns" using r g by (auto simp: registry_ok_def)
  have small: "m < 2 ^ 64" if "m \<in> set ns" for m
    using d that by (auto simp: ids_ok_def dest: bspec)
  have neq: "sub_id m \<noteq> key" if "m \<in> set ns" "m \<noteq> n" for m
    using sub_id_inj [OF small [OF that(1)] small [OF kn(2)]] that(2) kn(1) by simp
  have "registry_ok (gm_del key s) ns (insert n cs)"
    using r neq by (auto simp: registry_ok_def split: if_splits)
  moreover have "ids_ok ns ct (insert n cs)" using d kn(2) by (simp add: ids_ok_def)
  ultimately show ?thesis using c by (simp add: client_inv_def)
qed

lemma client_inv_cancelled:
  "client_inv cf v ns k cs \<Longrightarrow> n \<in> set ns \<Longrightarrow> client_inv cf v ns k (insert n cs)"
  by (auto simp: client_inv_def ids_ok_def registry_ok_def split: prod.splits)

section \<open>Every step keeps the invariant\<close>

lemma world_client:
  "world_inv cf w \<Longrightarrow>
   client_inv cf (slot_view (heap (sw_bridge w) c)) (map fst (sw_tasks w c)) (sw_short w c) (sw_cancelled w c)"
  by (simp add: world_inv_def)

lemma world_inv_client:
  assumes "world_inv cf w" "cfg (sw_bridge w') = cfg (sw_bridge w)"
    and "\<And>x. x \<noteq> c \<Longrightarrow> slot_view (heap (sw_bridge w') x) = slot_view (heap (sw_bridge w) x)
      \<and> sw_tasks w' x = sw_tasks w x \<and> sw_short w' x = sw_short w x \<and> sw_cancelled w' x = sw_cancelled w x"
    and "client_inv cf (slot_view (heap (sw_bridge w') c)) (map fst (sw_tasks w' c)) (sw_short w' c) (sw_cancelled w' c)"
  shows "world_inv cf w'"
  unfolding world_inv_def
proof (intro conjI allI)
  show "cfg (sw_bridge w') = cf" using assms(1,2) by (simp add: world_inv_def)
  fix x
  show "client_inv cf (slot_view (heap (sw_bridge w') x)) (map fst (sw_tasks w' x)) (sw_short w' x) (sw_cancelled w' x)"
    using assms(1) assms(3) [of x] assms(4) by (cases "x = c") (simp_all add: world_inv_def)
qed

lemma world_inv_same_slots:
  "world_inv cf w \<Longrightarrow> slots_of b' = slots_of (sw_bridge w) \<Longrightarrow> world_inv cf (w\<lparr>sw_bridge := b'\<rparr>)"
  by (simp add: world_inv_def slots_of_eq)

lemma world_countable:
  assumes "world_inv cf w" "countable_limit cf"
  shows "subs_countable c (sw_bridge w)"
  using world_client [OF assms(1), of c] assms
  by (auto simp: client_inv_def counts_ok_def slot_view_def subs_countable_def max_subs_def
      countable_limit_def world_inv_def)

lemma view_parts:
  "slot_view w = (activeSubs w, subscriptions w, subCounter w, inflight w)"
  by (simp add: slot_view_def)

lemma opened_inv:
  assumes inv: "world_inv cf w" and lim: "countable_limit cf" and k: "0 < sw_short w c"
    and reg: "may_register c (sw_bridge w)"
    and e: "enterSub c (sw_bridge w) = (b1, True)" and r: "registerSub c b1 = (n, b')"
  shows "world_inv cf (w\<lparr>sw_bridge := b', sw_short := (sw_short w)(c := sw_short w c - 1),
       sw_tasks := (sw_tasks w)(c := sw_tasks w c @ [(n, l)])\<rparr>)"
proof -
  let ?b = "sw_bridge w" and ?h = "heap (sw_bridge w) c"
  have b1: "b1 = addSubs 1 c ?b" "activeSubs (heap b1 c) = activeSubs ?h + 1" "activeSubs ?h + 1 \<le> max_subs ?b"
    using enter_state [OF world_countable [OF inv lim] e] by auto
  have reg1: "may_register c b1" using reg by (simp add: b1(1) may_register_def addSubs_def)
  have cfgs: "cfg b' = cfg ?b" using r by (auto simp: registerSub_def Let_def b1(1) addSubs_def)
  have sv: "n = subCounter ?h + 1 \<and> slot_view (heap b' x) =
     (if x = c then (activeSubs ?h + 1, gm_put (sub_id n) n (subscriptions ?h), n, inflight ?h)
      else slot_view (heap ?b x))" for x
    using register_state [OF r reg1, of x] b1(2) by (auto simp: b1(1) addSubs_def)
  have ci: "client_inv cf (activeSubs ?h, subscriptions ?h, subCounter ?h, inflight ?h)
      (map fst (sw_tasks w c)) (sw_short w c) (sw_cancelled w c)"
    using world_client [OF inv, of c] by (simp add: view_parts)
  have lim1: "activeSubs ?h + 1 \<le> to_int32 (MaxSubscriptions (Subscribe (Namespaces cf)))"
    using b1(3) inv by (simp add: max_subs_def world_inv_def)
  show ?thesis
    using sv cfgs client_inv_opened [OF ci k _ lim1] reg
    by (intro world_inv_client [OF inv, of _ c]) (auto simp: may_register_def)
qed

lemma refused_inv:
  assumes inv: "world_inv cf w" and lim: "countable_limit cf" and reg: "may_register c (sw_bridge w)"
    and ref: "refused_state c (sw_bridge w) b'"
  shows "world_inv cf (w\<lparr>sw_bridge := b'\<rparr>)"
proof -
  let ?b = "sw_bridge w" and ?h = "heap (sw_bridge w) c"
  note cnt = world_countable [OF inv lim, of c]
  have ci: "client_inv cf (activeSubs ?h, subscriptions ?h, subCounter ?h, inflight ?h)
      (map fst (sw_tasks w c)) (sw_short w c) (sw_cancelled w c)"
    using world_client [OF inv, of c] by (simp add: view_parts)
  consider "b' = ?b" | "enterSub c ?b = (b', False)"
    | b1 where "enterSub c ?b = (b1, True)" "b' = leaveSub c b1"
    | b1 n b2 where "enterSub c ?b = (b1, True)" "registerSub c b1 = (n, b2)" "b' = endSub c n b2"
    using ref unfolding refused_state_def by blast
  then show ?thesis
  proof cases
    case 1
    with inv show ?thesis by simp
  next
    case 2
    with enter_state [OF cnt] have "slots_of b' = slots_of ?b" by auto
    with inv show ?thesis by (rule world_inv_same_slots)
  next
    case 3
    from enter_state [OF cnt 3(1)] have b1: "b1 = addSubs 1 c ?b" "activeSubs (heap b1 c) = activeSubs ?h + 1"
      by auto
    have "slot_view (heap b' x) = slot_view (heap ?b x)" for x
      using leave_state [of b1 c x] b1 cnt
      by (auto simp: 3(2) addSubs_def subs_countable_def slot_view_def max_def split: if_splits)
    moreover have "cfg b' = cfg ?b" "clients b' = clients ?b" "\<And>x. ctx_done (heap b' x) = ctx_done (heap ?b x)"
      by (simp_all add: 3(2) b1(1) leaveSub_def addSubs_def)
    ultimately have "slots_of b' = slots_of ?b" by (simp add: slots_of_eq)
    with inv show ?thesis by (rule world_inv_same_slots)
  next
    case 4
    from enter_state [OF cnt 4(1)] have b1: "b1 = addSubs 1 c ?b" "activeSubs (heap b1 c) = activeSubs ?h + 1"
      by auto
    have reg1: "may_register c b1" using reg by (simp add: b1(1) may_register_def addSubs_def)
    define b3 where "b3 = unregisterSub c n b2"
    have b2: "n = subCounter ?h + 1 \<and> slot_view (heap b2 x) =
       (if x = c then (activeSubs ?h + 1, gm_put (sub_id n) n (subscriptions ?h), n, inflight ?h)
        else slot_view (heap ?b x))" for x
      using register_state [OF 4(2) reg1, of x] b1(2) by (auto simp: b1(1) addSubs_def)
    have b3: "slot_view (heap b3 x) =
       (if x = c then (activeSubs ?h + 1, gm_del (sub_id n) (gm_put (sub_id n) n (subscriptions ?h)), n, inflight ?h)
        else slot_view (heap ?b x))" for x
      using b2 [of x] by (cases "x = c") (simp_all add: b3_def unregisterSub_def slot_view_def)
    have "0 < activeSubs (heap b3 c)" "activeSubs (heap b3 c) < 2 ^ 31"
      using b3 [of c] cnt by (auto simp: slot_view_def subs_countable_def max_def split: if_splits)
    note lv = leave_state [OF this]
    have sv: "slot_view (heap b' x) =
       (if x = c then (activeSubs ?h, gm_del (sub_id n) (gm_put (sub_id n) n (subscriptions ?h)), n, inflight ?h)
        else slot_view (heap ?b x))" for x
    proof (cases "x = c")
      case True
      with lv [of c] b3 [of c] show ?thesis by (simp add: 4(3) endSub_def slot_view_def flip: b3_def)
    next
      case False
      with lv [of x] b3 [of x] show ?thesis by (simp add: 4(3) endSub_def flip: b3_def)
    qed
    have "cfg b' = cfg ?b"
      using 4(2) by (auto simp: 4(3) endSub_def leaveSub_def unregisterSub_def addSubs_def
          registerSub_def Let_def b1(1))
    with sv b2 [of c] client_inv_undone [OF ci] reg show ?thesis
      by (intro world_inv_client [OF inv, of _ c]) (auto simp: may_register_def)
  qed
qed

lemma ended_inv:
  assumes inv: "world_inv cf w" and lim: "countable_limit cf"
    and k: "k < length (sw_tasks w c)" "sw_tasks w c ! k = (n, l)"
  shows "world_inv cf (end_task c k w)"
proof -
  let ?b = "sw_bridge w" and ?h = "heap (sw_bridge w) c"
  have ci: "client_inv cf (activeSubs ?h, subscriptions ?h, subCounter ?h, inflight ?h)
      (map fst (sw_tasks w c)) (sw_short w c) (sw_cancelled w c)"
    using world_client [OF inv, of c] by (simp add: view_parts)
  define b1 where "b1 = unregisterSub c n ?b"
  have b1: "activeSubs (heap b1 c) = activeSubs ?h" "subscriptions (heap b1 c) = gm_del (sub_id n) (subscriptions ?h)"
    "subCounter (heap b1 c) = subCounter ?h" "inflight (heap b1 c) = inflight ?h" "cfg b1 = cfg ?b"
    "x \<noteq> c \<Longrightarrow> slot_view (heap b1 x) = slot_view (heap ?b x)" for x
    by (simp_all add: b1_def unregisterSub_def)
  have "0 < activeSubs (heap b1 c)" "activeSubs (heap b1 c) < 2 ^ 31"
    using ci k(1) world_countable [OF inv lim, of c] b1(1)
    by (auto simp: client_inv_def counts_ok_def subs_countable_def max_def split: if_splits)
  note lv = leave_state [OF this]
  have sv: "slot_view (heap (release c (leaveSub c b1)) x) =
     (if x = c then (activeSubs ?h - 1, gm_del (sub_id n) (subscriptions ?h), subCounter ?h, inflight ?h - 1)
      else slot_view (heap ?b x))" for x
    using lv [of x] b1 by (cases "x = c") (simp_all add: release_def slot_view_def)
  have "map fst (sw_tasks w c) ! k = n" using k by simp
  with client_inv_ended [OF ci, of k n] k(1)
  have "client_inv cf (activeSubs ?h - 1, gm_del (sub_id n) (subscriptions ?h), subCounter ?h, inflight ?h - 1)
      (map fst (take k (sw_tasks w c) @ drop (Suc k) (sw_tasks w c))) (sw_short w c) (sw_cancelled w c - {n})"
    by (simp add: take_map drop_map)
  moreover define b2 where "b2 = release c (leaveSub c b1)"
  moreover have "cfg b2 = cfg ?b" by (simp add: b2_def release_def leaveSub_def addSubs_def b1(5))
  moreover have "end_task c k w = w\<lparr>sw_bridge := b2,
      sw_tasks := (sw_tasks w)(c := take k (sw_tasks w c) @ drop (Suc k) (sw_tasks w c)),
      sw_cancelled := (sw_cancelled w)(c := sw_cancelled w c - {n})\<rparr>"
    by (simp add: end_task_def k(2) endSub_def b1_def b2_def)
  ultimately show ?thesis
    using sv by (intro world_inv_client [OF inv, of _ c]) simp_all
qed

lemma world_step_inv:
  assumes "world_step w es w'" and inv: "world_inv cf w" and lim: "countable_limit cf" and j: "joined w"
  shows "world_inv cf w'"
  using assms(1)
proof (cases rule: world_step.cases)
  case (accept c hostname r b' a)
  show ?thesis
  proof (cases "a = Admitted")
    case False
    with accept_rejected accept(4) have "b' = sw_bridge w" by blast
    with accept inv show ?thesis by simp
  next
    case True
    have no_work: "sw_tasks w c = []" "sw_short w c = 0" using j accept(3) by (simp_all add: joined_def)
    then have "sw_cancelled w c = {}"
      using world_client [OF inv, of c] by (simp add: client_inv_def ids_ok_def split: prod.splits)
    with accept True no_work client_inv_new [of cf] show ?thesis
      by (intro world_inv_client [OF inv, of _ c]) (auto simp: acceptClient_def split: if_splits)
  qed
next
  case (hang_up c)
  then show ?thesis using inv by (simp add: world_inv_def slot_view_def)
next
  case (gone c b')
  from slots_disconnect [OF gone(6)] gone(1) inv show ?thesis by (simp add: world_inv_def)
next
  case (arrive c b')
  have "client_inv cf (activeSubs (heap (sw_bridge w) c), subscriptions (heap (sw_bridge w) c),
      subCounter (heap (sw_bridge w) c), inflight (heap (sw_bridge w) c))
      (map fst (sw_tasks w c)) (sw_short w c) (sw_cancelled w c)"
    using world_client [OF inv, of c] by (simp add: view_parts)
  from client_inv_arrive [OF this] arrive inv show ?thesis
    by (intro world_inv_client [OF inv, of _ c])
      (auto simp: acquire_def world_inv_def slot_view_def split: if_splits)
next
  case (return c)
  have "client_inv cf (activeSubs (heap (sw_bridge w) c), subscriptions (heap (sw_bridge w) c),
      subCounter (heap (sw_bridge w) c), inflight (heap (sw_bridge w) c))
      (map fst (sw_tasks w c)) (sw_short w c) (sw_cancelled w c)"
    using world_client [OF inv, of c] by (simp add: view_parts)
  from client_inv_return [OF this] return show ?thesis
    by (intro world_inv_client [OF inv, of _ c]) (auto simp: release_def slot_view_def)
next
  case (opened c be m req b' n l)
  from open_service_opened [OF opened(4)] obtain b1 where
    "enterSub c (sw_bridge w) = (b1, True)" "registerSub c b1 = (n, b')" by blast
  from opened_inv [OF inv lim opened(2,3) this] opened(1) show ?thesis by simp
next
  case (refused c be m req b')
  from refused_inv [OF inv lim refused(3) open_service_refused [OF refused(4)]] refused(1) show ?thesis by simp
next
  case (unsubscribe c req b' x)
  let ?h = "heap (sw_bridge w) c"
  have ci: "client_inv cf (activeSubs ?h, subscriptions ?h, subCounter ?h, inflight ?h)
      (map fst (sw_tasks w c)) (sw_short w c) (sw_cancelled w c)"
    using world_client [OF inv, of c] by (simp add: view_parts)
  show ?thesis
  proof (cases x)
    case None
    with unsubscribe have "b' = sw_bridge w"
      by (auto simp: handleUnsubscribe_def Let_def split: sum.split_asm option.split_asm)
    with unsubscribe None inv show ?thesis by (simp add: fun_upd_triv)
  next
    case (Some n)
    with unsubscribe obtain key where key: "gm_get (subscriptions ?h) key = Some n"
      "b' = upd_client c (\<lambda>w. w\<lparr>subscriptions := gm_del key (subscriptions w)\<rparr>) (sw_bridge w)"
      by (auto simp: handleUnsubscribe_def Let_def split: sum.split_asm option.split_asm)
    from client_inv_unsubscribed [OF ci key(1)] unsubscribe(1) Some key(2) show ?thesis
      by (intro world_inv_client [OF inv, of _ c]) (simp_all add: slot_view_def)
  qed
next
  case (serve c be m req e b')
  from serve_keeps_slots [OF serve(3-5) _ serve(7)] serve(6) have "slots_of b' = slots_of (sw_bridge w)"
    by (simp add: env_quiet_def)
  with inv serve(1) show ?thesis by (simp add: world_inv_same_slots)
next
  case (turn k c n l tlib i l')
  have "map fst ((sw_tasks w c)[k := (n, l')]) = map fst (sw_tasks w c)"
    using turn(2,3) by (simp add: map_update list_update_same_conv)
  with turn(1) world_client [OF inv, of c] show ?thesis
    by (intro world_inv_client [OF inv, of _ c]) simp_all
next
  case (cancel_all k c n l tlib i l')
  have "map fst ((sw_tasks w c)[k := (n, l')]) = map fst (sw_tasks w c)"
    using cancel_all(2,3) by (simp add: map_update list_update_same_conv)
  moreover have "n \<in> set (map fst (sw_tasks w c))"
    using cancel_all(2,3) by (metis fst_conv length_map nth_map nth_mem)
  ultimately show ?thesis using cancel_all(1) client_inv_cancelled [OF world_client [OF inv, of c]]
    by (intro world_inv_client [OF inv, of _ c]) simp_all
next
  case (stop k c n l tlib i)
  with ended_inv [OF inv lim] show ?thesis by simp
next
  case (cancelled k c n l)
  with ended_inv [OF inv lim] show ?thesis by simp
next
  case (network b')
  with inv network_keeps_slots show ?thesis by (simp add: world_inv_same_slots)
qed

lemma start_world_inv: "world_inv cf (start_world cf)"
  using client_inv_new [of cf] by (simp add: world_inv_def start_world_def NewWSBridge_def)

lemma world_reachable_inv: "world_reachable cf w \<Longrightarrow> countable_limit cf \<Longrightarrow> world_inv cf w"
  by (induction rule: world_reachable.induct) (auto intro: start_world_inv world_step_inv joined_reachable)

section \<open>An execution\<close>

text \<open>A client connects and subscribes to blocks.\<close>

definition blocks_request :: WSRequest where
  "blocks_request = \<lparr>req_jsonrpc = ''2.0'', req_id = ''1'', req_method = ''subscribe.blocks'', req_params = None\<rparr>"

definition demo_backend :: backend where
  "demo_backend = \<lparr>be_lib = demo_lib, be_api = demo_api, be_dht = undefined, be_has_dht = False,
     be_contracts = undefined, be_emulator = undefined, be_dns = undefined, be_sha256 = (\<lambda>_. [])\<rparr>"

lemma demo_world:
  assumes "APIKey cf = []" "0 < MaxClients cf" "0 < MaxInflight cf"
    and "1 \<le> MaxSubscriptions (Subscribe (Namespaces cf))" "MaxSubscriptions (Subscribe (Namespaces cf)) < 2 ^ 31 - 1"
  shows "\<exists>w. world_reachable cf w \<and> sw_tasks w 0 = [(1, BlockLoop 1)] \<and> sw_short w 0 = 0 \<and> sw_cancelled w 0 = {}"
proof -
  let ?lim = "MaxSubscriptions (Subscribe (Namespaces cf))"
  have i: "to_int32 1 = 1" "to_int32 ?lim = ?lim" using assms(4,5) by (auto intro!: to_int32_id)
  define b0 where "b0 = NewWSBridge (Some cf)"
  define b1 where "b1 = b0\<lparr>heap := (heap b0)(0 := new_client), clients := gm_put 0 True (clients b0)\<rparr>"
  define b2 where "b2 = upd_client 0 (\<lambda>w. w\<lparr>inflight := inflight w + 1\<rparr>) b1"
  define b3 where "b3 = addSubs 1 0 b2"
  define b4 where "b4 = snd (registerSub 0 b3)"
  have c0: "cfg b0 = cf" "clients b0 = gm_empty" by (simp_all add: b0_def NewWSBridge_def)
  have h: "heap b1 0 = new_client" "cfg b1 = cf" "heap b2 0 = new_client\<lparr>inflight := 1\<rparr>" "cfg b2 = cf"
    by (simp_all add: b1_def b2_def c0 new_client_def)
  have sb: "sw_bridge (start_world cf) = b0" "sw_tasks (start_world cf) 0 = []" "sw_short (start_world cf) 0 = 0"
    by (simp_all add: start_world_def b0_def)
  have "acceptClient Some \<lparr>hr_origin = [], hr_api_key = []\<rparr> 0 b0 = (b1, Admitted)"
    using assms(1,2) by (simp add: acceptClient_def authorized_def CheckOrigin_def c0 b1_def)
  then have s1: "world_step (start_world cf) [] ((start_world cf)\<lparr>sw_bridge := b1\<rparr>)"
    by - (rule world_step.accept [where c = 0 and hostname = Some], simp_all add: sb c0)
  have "acquire 0 b1 = Some b2" using assms(3) by (simp add: acquire_def h new_client_def b2_def)
  moreover have "gm_get (clients b1) 0 \<noteq> None" "\<not> ctx_done (heap b1 0)" by (simp_all add: b1_def new_client_def)
  ultimately have s2: "world_step ((start_world cf)\<lparr>sw_bridge := b1\<rparr>) []
      ((start_world cf)\<lparr>sw_bridge := b2, sw_short := (\<lambda>_. 0)(0 := 1)\<rparr>)"
    using world_step.arrive [of "(start_world cf)\<lparr>sw_bridge := b1\<rparr>" 0 b2] by (simp add: start_world_def)
  have e: "enterSub 0 b2 = (b3, True)"
    using assms(4) by (simp add: enterSub_def b3_def addSubs_def max_subs_def h new_client_def i)
  have r: "registerSub 0 b3 = (1, b4)"
    by (simp add: b4_def registerSub_def b3_def addSubs_def h new_client_def Let_def)
  have o: "open_service demo_backend (Subscribe_call Subscribe_Blocks) 0 blocks_request b2 =
      Some ((b4, reply_to 0 blocks_request (Result (start_seqno (demo_block 1) (sub_id 1)))), Some (1, BlockLoop 1))"
    by (simp add: open_service_def demo_backend_def handleSubscribeBlocks_def subscribing_def
        subscribing_with_def e r with_master_def demo_api_def demo_block_def)
  have "may_register 0 b2" by (simp add: may_register_def h new_client_def)
  then have s3: "world_step ((start_world cf)\<lparr>sw_bridge := b2, sw_short := (\<lambda>_. 0)(0 := 1)\<rparr>)
      (reply_to 0 blocks_request (Result (start_seqno (demo_block 1) (sub_id 1))))
      ((start_world cf)\<lparr>sw_bridge := b4, sw_tasks := (\<lambda>_. [])(0 := [(1, BlockLoop 1)])\<rparr>)"
    using world_step.opened [of "(start_world cf)\<lparr>sw_bridge := b2, sw_short := (\<lambda>_. 0)(0 := 1)\<rparr>" 0
        demo_backend "Subscribe_call Subscribe_Blocks" blocks_request b4
        "reply_to 0 blocks_request (Result (start_seqno (demo_block 1) (sub_id 1)))" 1 "BlockLoop 1"] o
    by (simp add: start_world_def fun_upd_idem)
  note reach = world_reachable.step [OF world_reachable.step [OF world_reachable.step [OF
      world_reachable.init [of cf] s1] s2] s3]
  show ?thesis
    by (rule exI, rule conjI [OF reach]) (simp add: start_world_def)
qed

end
