(* ===== verification/SubProps.thy ===== *)
theory SubProps
  imports SubWorld
begin

text \<open>
  What a subscription delivers. A page listing is complete; a run of a loop is the composition of
  its iterations; the state a loop keeps between iterations is a copy of what its client can
  compute from the events alone, which is one contract for the block, account and config loops.
\<close>

section \<open>Block transactions in pages\<close>

text \<open>
  The documented behaviour of \<open>getBlockTransactions\<close>: the transactions of a block have distinct
  cursors, a page is the head of what follows the cursor, it says \<open>incomplete\<close> when more follows,
  and it is empty only when nothing follows. With \<open>may_fail\<close> any call may fail instead.
\<close>

definition cursor_of :: "tx_short list \<Rightarrow> tx_cursor option" where
  "cursor_of seen = (if seen = [] then None else Some (ID3 (last seen)))"

definition lists_pages :: "bool \<Rightarrow> page_source \<Rightarrow> tx_short list \<Rightarrow> bool" where
  "lists_pages may_fail fetch txs \<longleftrightarrow> distinct (map ID3 txs) \<and>
     (\<forall>i seen rest. txs = seen @ rest \<longrightarrow>
        (\<exists>page more. rest = page @ more \<and> fetch i (cursor_of seen) = Inr (page, more \<noteq> [])
           \<and> (page = [] \<longrightarrow> rest = []))
        \<or> (may_fail \<and> (\<exists>e. fetch i (cursor_of seen) = Inl e)))"

definition lists_all :: "page_source \<Rightarrow> tx_short list \<Rightarrow> bool" where
  "lists_all fetch txs \<longleftrightarrow> lists_pages False fetch txs"

lemma cursor_moves:
  assumes "distinct (map ID3 (seen @ page))" "page \<noteq> []"
  shows "cursor_of seen \<noteq> Some (ID3 (last page))"
proof
  assume same: "cursor_of seen = Some (ID3 (last page))"
  then have ne: "seen \<noteq> []" and eq: "ID3 (last seen) = ID3 (last page)"
    by (auto simp: cursor_of_def split: if_splits)
  from ne have "ID3 (last seen) \<in> set (map ID3 seen)" by simp
  moreover have "ID3 (last page) \<in> set (map ID3 page)" using assms(2) by simp
  ultimately show False using assms(1) eq by auto
qed

text \<open>The collection gives all or, if calls may fail, an error; it never gives a part.\<close>

lemma collect_rest:
  assumes "lists_pages may_fail fetch txs" "txs = seen @ rest"
  shows "collect_pages fetch i (cursor_of seen) seen = Some (Inr txs)
    \<or> may_fail \<and> (\<exists>e. collect_pages fetch i (cursor_of seen) seen = Some (Inl e))"
  using assms(2)
proof (induction "length rest" arbitrary: i seen rest rule: less_induct)
  case less
  have honest: "(\<exists>page more. rest = page @ more \<and> fetch i (cursor_of seen) = Inr (page, more \<noteq> [])
      \<and> (page = [] \<longrightarrow> rest = [])) \<or> (may_fail \<and> (\<exists>e. fetch i (cursor_of seen) = Inl e))"
    using assms(1) less.prems unfolding lists_pages_def by blast
  show ?case
  proof (cases "fetch i (cursor_of seen)")
    case (Inl e)
    with honest have may_fail by simp
    moreover have "collect_pages fetch i (cursor_of seen) seen = Some (Inl e)"
      by (subst collect_pages.simps) (simp add: Inl)
    ultimately show ?thesis by blast
  next
    case (Inr r)
    then obtain page more where p: "rest = page @ more" "fetch i (cursor_of seen) = Inr (page, more \<noteq> [])"
      "page = [] \<longrightarrow> rest = []"
      using honest by auto
    show ?thesis
    proof (cases "more = []")
      case True
      then have "collect_pages fetch i (cursor_of seen) seen = Some (Inr txs)"
        using p less.prems by (subst collect_pages.simps) simp
      then show ?thesis by blast
    next
      case False
      with p have page: "page \<noteq> []" by auto
      have "distinct (map ID3 (seen @ page))" using assms(1) less.prems p(1) by (auto simp: lists_pages_def)
      note moves = cursor_moves [OF this page]
      have cur: "cursor_of (seen @ page) = Some (ID3 (last page))" using page by (simp add: cursor_of_def)
      have "collect_pages fetch i (cursor_of seen) seen = collect_pages fetch (Suc i) (cursor_of (seen @ page)) (seen @ page)"
        using p(2) False page moves by (subst collect_pages.simps) (simp add: cur)
      moreover have "length more < length rest" using p(1) page by simp
      ultimately show ?thesis using less.hyps [of more "seen @ page" "Suc i"] less.prems p(1) by simp
    qed
  qed
qed

lemma collected_or_failed:
  assumes "lists_pages may_fail (\<lambda>i. GetBlockTransactionsV2 api i blk 256) txs"
  shows "collectBlockTransactions api blk = Some (Inr txs)
    \<or> may_fail \<and> (\<exists>e. collectBlockTransactions api blk = Some (Inl e))"
  using collect_rest [OF assms, of "[]" txs 0] by (simp add: collectBlockTransactions_def cursor_of_def)

lemma collected:
  assumes "lists_all (\<lambda>i. GetBlockTransactionsV2 api i blk 256) txs"
  shows "collectBlockTransactions api blk = Some (Inr txs)"
  using collected_or_failed [of False api blk txs] assms by (simp add: lists_all_def)

text \<open>
  For a liteserver that pages a block the way it documents, the collection ends and returns
  every transaction of the block, once and in order.
\<close>
theorem collect_complete:
  assumes "lists_all (\<lambda>i. GetBlockTransactionsV2 api i blk 256) txs"
  shows "collectBlockTransactions api blk = Some (Inr txs)"
  by (rule collected [OF assms])

text \<open>Three transactions in pages of two.\<close>

definition demo_shorts :: "tx_short list" where
  "demo_shorts = map (\<lambda>n. \<lparr>ts_Account = [of_nat n], ts_LT = n, ts_Hash = []\<rparr>) [1, 2, 3]"

definition paged_by_two :: page_source where
  "paged_by_two i after =
     (let rest = (case after of None \<Rightarrow> demo_shorts | Some k \<Rightarrow> drop (snd k) demo_shorts) in
      Inr (take 2 rest, drop 2 rest \<noteq> []))"

lemma demo_cursor: "demo_shorts = seen @ rest \<Longrightarrow>
  (case cursor_of seen of None \<Rightarrow> demo_shorts | Some k \<Rightarrow> drop (snd k) demo_shorts) = rest"
  by (cases seen rule: rev_cases)
    (auto simp: cursor_of_def demo_shorts_def ID3_def append_eq_Cons_conv Cons_eq_append_conv
      split: if_splits)

lemma paged_by_two_lists: "lists_all paged_by_two demo_shorts"
proof -
  have "distinct (map ID3 demo_shorts)" by (simp add: demo_shorts_def ID3_def)
  moreover have "\<exists>page more. rest = page @ more \<and> paged_by_two i (cursor_of seen) = Inr (page, more \<noteq> [])
      \<and> (page = [] \<longrightarrow> rest = [])" if "demo_shorts = seen @ rest" for i seen rest
    using demo_cursor [OF that]
    by (intro exI [of _ "take 2 rest"] exI [of _ "drop 2 rest"]) (simp add: paged_by_two_def Let_def)
  ultimately show ?thesis by (simp add: lists_all_def lists_pages_def)
qed

theorem collect_complete_witness:
  "collectBlockTransactions (demo_api\<lparr>GetBlockTransactionsV2 := (\<lambda>i _ _. paged_by_two i)\<rparr>) (demo_block 1)
     = Some (Inr demo_shorts)"
  by (rule collect_complete) (simp add: paged_by_two_lists)

text \<open>
  The check that the cursor advanced compares with the last page only: a liteserver whose pages
  alternate keeps the collection, and with it the subscription, running for ever.
\<close>

definition alternating :: page_source where
  "alternating i after =
     (let a = \<lparr>ts_Account = [1], ts_LT = 1, ts_Hash = []\<rparr>; b = \<lparr>ts_Account = [2], ts_LT = 2, ts_Hash = []\<rparr> in
      Inr ([if after = Some (ID3 a) then b else a], True))"

lemma alternating_pages_never_end: "collect_pages alternating i after acc = None"
proof -
  have no: "fetch \<noteq> alternating" if "collect_pages fetch i after acc = Some r" for fetch i after acc r
    by (rule collect_pages.raw_induct [where P = "\<lambda>fetch i after acc r. fetch \<noteq> alternating", OF _ that])
      (auto simp: alternating_def Let_def ID3_def split: sum.split_asm prod.split_asm if_splits)
  show ?thesis
  proof (cases "collect_pages alternating i after acc")
    case (Some r)
    from no [OF this] show ?thesis by simp
  qed
qed

section \<open>Runs of a loop\<close>

text \<open>The iterations of a loop one after the other, until it stops or the inputs are used up.\<close>

fun run_loop ::
  "(sub_loop \<Rightarrow> loop_input \<Rightarrow> (effect list \<times> next_step) option) \<Rightarrow> sub_loop \<Rightarrow> loop_input list \<Rightarrow>
   (effect list \<times> next_step) option" where
  "run_loop turn l [] = Some ([], Continue l)"
| "run_loop turn l (i # is) =
     (case turn l i of
        Some (es, Continue l') \<Rightarrow>
          (case run_loop turn l' is of None \<Rightarrow> None | Some (es', nx) \<Rightarrow> Some (es @ es', nx))
      | r \<Rightarrow> r)"

lemma run_loop_step:
  "run_loop turn l (i # is) = Some (es, Continue l') \<longleftrightarrow>
   (\<exists>es1 l1 es2. turn l i = Some (es1, Continue l1) \<and> run_loop turn l1 is = Some (es2, Continue l') \<and> es = es1 @ es2)"
  by (auto split: option.splits prod.splits next_step.splits)

subsection \<open>Loops that follow the masterchain\<close>






text \<open>The reports of the blocks, each from its block and its shards.\<close>

definition reports :: "(block_id \<Rightarrow> block_id list \<Rightarrow> effect list) \<Rightarrow> (block_id \<times> block_id list) list \<Rightarrow> effect list" where
  "reports report bs = concat (map (\<lambda>(blk, shards). report blk shards) bs)"

lemma reports_simps [simp]:
  "reports report [] = []" "reports report ((blk, shards) # bs) = report blk shards @ reports report bs"
  by (simp_all add: reports_def)



definition new_tx_report ::
  "client_ref \<Rightarrow> (block_id \<Rightarrow> tx_short list) \<Rightarrow> block_id \<Rightarrow> block_id list \<Rightarrow> effect list" where
  "new_tx_report c truth blk shards = concat (map (\<lambda>b. map (new_tx_event c b) (truth b)) (blk # shards))"









definition demo_input :: loop_input where
  "demo_input = \<lparr>in_api = demo_api, in_ctx_err = False, in_reason = [], in_alive = (\<lambda>_. True), in_index = 0,
     in_tx = Some demo_tx, in_sent = (\<lambda>_. True)\<rparr>"







text \<open>A chain whose only shard does not change: one transaction in every block.\<close>

definition quiet_shard :: block_id where
  "quiet_shard = \<lparr>Workchain = 0, Shard = - (2 ^ 63), SeqNo = 70, RootHash = [], FileHash = []\<rparr>"







text \<open>
  Every top block of a shard that is listed again is reported again: a shard without a new block
  gives its transactions a second time with the next masterchain block.
\<close>

lemma unchanged_shard_reported_again:
  "new_tx_event 0 quiet_shard demo_short \<in> set (new_tx_report 0 (\<lambda>_. [demo_short]) (demo_block 2) [quiet_shard])
   \<and> new_tx_event 0 quiet_shard demo_short \<in> set (new_tx_report 0 (\<lambda>_. [demo_short]) (demo_block 3) [quiet_shard])"
  by (simp add: new_tx_report_def)

section \<open>A copy kept by the client\<close>

text \<open>
  The contract of the loops that watch a value: what a loop remembers is what a client has after
  it has applied the events of the turn to what it had before.
\<close>

locale replicated =
  fixes turn :: "sub_loop \<Rightarrow> loop_input \<Rightarrow> (effect list \<times> next_step) option"
    and shape :: "sub_loop \<Rightarrow> bool"
    and view :: "sub_loop \<Rightarrow> 'v"
    and learn :: "effect \<Rightarrow> 'v \<Rightarrow> 'v"
  assumes turn_learned: "shape l \<Longrightarrow> turn l i = Some (es, Continue l') \<Longrightarrow>
    shape l' \<and> view l' = fold learn es (view l)"
begin

lemma run_learned:
  "shape l \<Longrightarrow> run_loop turn l is = Some (es, Continue l') \<Longrightarrow>
   shape l' \<and> view l' = fold learn es (view l)"
proof (induction "is" arbitrary: l es)
  case Nil
  then show ?case by simp
next
  case (Cons i "is")
  from Cons.prems(2) obtain es1 l1 es2 where s: "turn l i = Some (es1, Continue l1)"
    "run_loop turn l1 is = Some (es2, Continue l')" "es = es1 @ es2" unfolding run_loop_step by blast
  from turn_learned [OF Cons.prems(1) s(1)] Cons.IH [OF _ s(2)] s(3) show ?case by simp
qed

end

subsection \<open>Configuration parameters\<close>

definition apply_config :: "effect \<Rightarrow> (int \<Rightarrow> bytes) \<Rightarrow> (int \<Rightarrow> bytes)" where
  "apply_config e v =
     (case e of
        Event _ _ (JObj es) \<Rightarrow>
          (case (map_of es ''param_id'', map_of es ''new_value'') of
             (Some (JNum k), Some (JStr s)) \<Rightarrow>
               (case (SetString10 k, decodeBase64 s) of (Some n, Inr bs) \<Rightarrow> v(n := bs) | _ \<Rightarrow> v)
           | _ \<Rightarrow> v)
      | _ \<Rightarrow> v)"

lemma apply_config_event: "apply_config (config_event c k blk old new) v = v(k := new)"
  by (simp add: apply_config_def config_event_def jint_def jbytes_def SetString10_show decodeBase64_encode)

lemma cached_put: "cached (gm_put k v m) = (cached m)(k := v)"
  by (auto simp: cached_def)

lemma config_changes_learned:
  "config_changes tlib c blk cf sent i ks m = (es, Some m') \<Longrightarrow> cached m' = fold apply_config es (cached m)"
proof (induction ks arbitrary: i m es)
  case (Cons k ks)
  then show ?case
    by (auto simp: Let_def apply_config_event cached_put fun_upd_def split: if_splits prod.split_asm)
qed simp

lemma config_changes_result:
  "config_changes tlib c blk cf sent i ks m = (es, Some m') \<Longrightarrow>
   cached m' = (\<lambda>k. if k \<in> set ks then boc_of tlib (cfg_Get cf k) else cached m k)"
proof (induction ks arbitrary: i m es)
  case (Cons k ks)
  then show ?case
    by (fastforce simp: Let_def cached_put split: if_splits prod.split_asm)
qed simp

lemma config_turn:
  assumes "iteration tlib c (ConfigLoop n ids m) i = Some (es, Continue l)"
  shows "\<exists>n' m'. l = ConfigLoop n' ids m' \<and> cached m' = fold apply_config es (cached m)"
  using assms config_changes_learned
  by (auto simp: iteration_def config_step_def retry_def split: sum.split_asm if_splits prod.split_asm option.split_asm)

lemma config_turn_result:
  assumes "iteration tlib c (ConfigLoop n ids m) i = Some (es, Continue l)"
    and "WaitMasterchainInfo (in_api i) (next_seqno n) = Inr blk" "GetBlockchainConfig (in_api i) blk ids = Inr cf"
  shows "\<exists>m'. l = ConfigLoop (SeqNo blk) ids m' \<and> (\<forall>k \<in> set ids. cached m' k = boc_of tlib (cfg_Get cf k))"
  using assms config_changes_result [of tlib c blk cf "in_sent i" 0 ids m]
  by (auto simp: iteration_def config_step_def split: prod.split_asm option.split_asm)

definition config_view :: "sub_loop \<Rightarrow> int \<Rightarrow> bytes" where
  "config_view l = (case l of ConfigLoop _ _ m \<Rightarrow> cached m | _ \<Rightarrow> (\<lambda>_. []))"

definition config_shape :: "int list \<Rightarrow> sub_loop \<Rightarrow> bool" where
  "config_shape ids l \<longleftrightarrow> (\<exists>n m. l = ConfigLoop n ids m)"

interpretation config_copy: replicated "iteration tlib c" "config_shape ids" config_view apply_config
  for tlib c ids
proof
  fix l i es l'
  assume "config_shape ids l" "iteration tlib c l i = Some (es, Continue l')"
  then show "config_shape ids l' \<and> config_view l' = fold apply_config es (config_view l)"
    using config_turn by (fastforce simp: config_shape_def config_view_def)
qed

text \<open>
  C17: a client of \<open>subscribe.configChanges\<close> that applies the \<open>config_changed\<close> events to the
  configuration at the start has, after every turn that could read the configuration, the value
  of every watched parameter in the block of that turn, whatever failed before.
\<close>
theorem config_replica:
  assumes "run_loop (iteration tlib c) (ConfigLoop n0 ids m0) earlier = Some (es1, Continue (ConfigLoop n ids m))"
    and "iteration tlib c (ConfigLoop n ids m) i = Some (es2, Continue l)"
    and "WaitMasterchainInfo (in_api i) (next_seqno n) = Inr blk" "GetBlockchainConfig (in_api i) blk ids = Inr cf"
    and "k \<in> set ids"
  shows "fold apply_config (es1 @ es2) (cached m0) k = boc_of tlib (cfg_Get cf k)"
proof -
  have "fold apply_config es1 (cached m0) = cached m"
    using config_copy.run_learned [OF _ assms(1), of ids] by (simp add: config_shape_def config_view_def)
  moreover obtain n' m' where l: "l = ConfigLoop n' ids m'" "cached m' = fold apply_config es2 (cached m)"
    using config_turn [OF assms(2)] by blast
  moreover have "cached m' k = boc_of tlib (cfg_Get cf k)"
    using config_turn_result [OF assms(2-4)] assms(5) l(1) by auto
  ultimately show ?thesis by simp
qed

theorem config_replica_witness:
  "\<exists>m es1 es2 l. run_loop (iteration demo_lib 0) (ConfigLoop 5 [8] gm_empty) [demo_input] = Some (es1, Continue (ConfigLoop 6 [8] m))
     \<and> iteration demo_lib 0 (ConfigLoop 6 [8] m) demo_input = Some (es2, Continue l)
     \<and> fold apply_config (es1 @ es2) (cached gm_empty) 8 = [3]"
proof -
  let ?m = "gm_put 8 [3] gm_empty :: (int, bytes) gomap"
  have c: "cached ?m 8 = [3]" "cached gm_empty 8 = []" by (simp_all add: cached_def)
  have r1: "\<exists>es1. run_loop (iteration demo_lib 0) (ConfigLoop 5 [8] gm_empty) [demo_input] =
      Some (es1, Continue (ConfigLoop 6 [8] ?m))"
    by (simp add: iteration_def config_step_def demo_input_def demo_api_def demo_block_def next_seqno_def
        Let_def boc_of_def demo_lib_def c)
  have r2: "iteration demo_lib 0 (ConfigLoop 6 [8] ?m) demo_input = Some ([], Continue (ConfigLoop 7 [8] ?m))"
    by (simp add: iteration_def config_step_def demo_input_def demo_api_def demo_block_def next_seqno_def
        Let_def boc_of_def demo_lib_def c)
  from r1 obtain es1 where r: "run_loop (iteration demo_lib 0) (ConfigLoop 5 [8] gm_empty) [demo_input] =
      Some (es1, Continue (ConfigLoop 6 [8] ?m))" by blast
  have "fold apply_config (es1 @ []) (cached gm_empty) 8 = boc_of demo_lib (Some (Cell 3))"
    using config_replica [OF r r2, of "demo_block 7" "\<lparr>cfg_Get = (\<lambda>_. Some (Cell 3)), cfg_All = [], cfg_Root = Cell 0\<rparr>" 8]
    by (simp add: demo_input_def demo_api_def next_seqno_def)
  with r r2 show ?thesis
    by (intro exI [of _ ?m] exI [of _ es1] exI [of _ "[]"] exI) (auto simp: boc_of_def demo_lib_def)
qed

subsection \<open>The state of an account\<close>

lemma show_nat_inj: "show_nat a = show_nat b \<longleftrightarrow> a = b"
  using show_nat_value [of a] show_nat_value [of b] by metis

lemma show_nat_0: "show_nat 0 = ''0''"
  by code_simp

definition apply_account :: "effect \<Rightarrow> string \<times> string \<Rightarrow> string \<times> string" where
  "apply_account e v =
     (case e of
        Event _ _ (JObj es) \<Rightarrow>
          (case (map_of es ''balance'', map_of es ''last_tx_lt'') of
             (Some (JStr b), Some (JStr lt)) \<Rightarrow> (b, lt) | _ \<Rightarrow> v)
      | _ \<Rightarrow> v)"

definition account_view :: "sub_loop \<Rightarrow> string \<times> string" where
  "account_view l = (case l of AccountLoop _ b lt _ \<Rightarrow> (b, show_nat lt) | _ \<Rightarrow> ([], []))"

definition account_shape :: "ton_address \<Rightarrow> sub_loop \<Rightarrow> bool" where
  "account_shape addr l \<longleftrightarrow> (\<exists>b lt n. l = AccountLoop addr b lt n)"

lemma apply_account_event:
  "apply_account (Event c ev (account_event tlib addr acc blk)) v = (balance_text acc, show_nat (LastTxLT acc))"
  by (simp add: apply_account_def account_event_def jdec_def)

lemma account_turn:
  assumes "iteration tlib c (AccountLoop addr b lt n) i = Some (es, Continue l)"
  shows "\<exists>b' lt' n'. l = AccountLoop addr b' lt' n' \<and> (b', show_nat lt') = fold apply_account es (b, show_nat lt)"
  using assms
  by (auto simp: iteration_def account_step_def retry_def send_then_def sendEvent_def apply_account_event
      split: sum.split_asm if_splits)

interpretation account_copy: replicated "iteration tlib c" "account_shape addr" account_view apply_account
  for tlib c addr
proof
  fix l i es l'
  assume "account_shape addr l" "iteration tlib c l i = Some (es, Continue l')"
  then show "account_shape addr l' \<and> account_view l' = fold apply_account es (account_view l)"
    using account_turn by (fastforce simp: account_shape_def account_view_def)
qed

lemma account_turn_result:
  assumes "iteration tlib c (AccountLoop addr b lt n) i = Some (es, Continue l)"
    and "WaitMasterchainInfo (in_api i) (next_seqno n) = Inr blk" "GetAccount (in_api i) blk addr = Inr acc"
  shows "l = AccountLoop addr (balance_text acc) (LastTxLT acc) (SeqNo blk)"
  using assms
  by (auto simp: iteration_def account_step_def send_then_def sendEvent_def split: if_splits)

lemma account_turn_events:
  assumes "iteration tlib c (AccountLoop addr b lt n) i = Some (es, Continue l)"
    and "WaitMasterchainInfo (in_api i) (next_seqno n) = Inr blk" "GetAccount (in_api i) blk addr = Inr acc"
  shows "es = (if balance_text acc = b \<and> LastTxLT acc = lt then []
               else [Event c ''account_state'' (account_event tlib addr acc blk)])"
proof (cases "balance_text acc = b \<and> LastTxLT acc = lt")
  case True
  with assms show ?thesis by (simp add: iteration_def account_step_def)
next
  case False
  with assms have "send_then i [Event c ''account_state'' (account_event tlib addr acc blk)]
      (Continue (AccountLoop addr (balance_text acc) (LastTxLT acc) (SeqNo blk))) = (es, Continue l)"
    by (simp add: iteration_def account_step_def sendEvent_def split: if_split_asm)
  then have "es = [Event c ''account_state'' (account_event tlib addr acc blk)]"
    by (simp add: send_then_def split: if_split_asm)
  with False show ?thesis by argo
qed

text \<open>
  C28: a client of \<open>subscribe.accountState\<close> that starts from the balance and the logical time of
  the confirmation and applies the \<open>account_state\<close> events has, after every turn that could read
  the account, the balance and the logical time of the account in the block of that turn; a turn
  sends at most one event, and none when neither has changed.
\<close>
theorem account_replica:
  assumes "run_loop (iteration tlib c) (AccountLoop addr b0 lt0 n0) earlier = Some (es1, Continue (AccountLoop addr b lt n))"
    and "iteration tlib c (AccountLoop addr b lt n) i = Some (es2, Continue l)"
    and "WaitMasterchainInfo (in_api i) (next_seqno n) = Inr blk" "GetAccount (in_api i) blk addr = Inr acc"
  shows "fold apply_account (es1 @ es2) (b0, show_nat lt0) = (balance_text acc, show_nat (LastTxLT acc))
    \<and> es2 = (if fold apply_account es1 (b0, show_nat lt0) = (balance_text acc, show_nat (LastTxLT acc)) then []
             else [Event c ''account_state'' (account_event tlib addr acc blk)])"
proof -
  have e1: "fold apply_account es1 (b0, show_nat lt0) = (b, show_nat lt)"
    using account_copy.run_learned [OF _ assms(1), of addr] by (simp add: account_shape_def account_view_def)
  have "(balance_text acc, show_nat (LastTxLT acc)) = fold apply_account es2 (b, show_nat lt)"
    using account_turn [OF assms(2)] account_turn_result [OF assms(2-4)] by auto
  moreover have "((b, show_nat lt) = (balance_text acc, show_nat (LastTxLT acc))) =
      (balance_text acc = b \<and> LastTxLT acc = lt)" by (auto simp: show_nat_inj)
  ultimately show ?thesis using account_turn_events [OF assms(2-4)] by (simp add: e1)
qed

theorem account_replica_witness:
  "\<exists>es1 es2 l. run_loop (iteration demo_lib 0) (AccountLoop (Address 2) ''0'' 5 5) [demo_input] =
       Some (es1, Continue (AccountLoop (Address 2) ''0'' 6 6))
     \<and> iteration demo_lib 0 (AccountLoop (Address 2) ''0'' 6 6) demo_input = Some (es2, Continue l)
     \<and> fold apply_account (es1 @ es2) (''0'', show_nat 5) = (''0'', show_nat 7)"
proof -
  note defs = iteration_def account_step_def demo_input_def demo_api_def demo_block_def next_seqno_def
    demo_account_def balance_text_def account_balance_def send_then_def sendEvent_def show_nat_0
  have r1: "\<exists>es. run_loop (iteration demo_lib 0) (AccountLoop (Address 2) ''0'' 5 5) [demo_input] =
      Some (es, Continue (AccountLoop (Address 2) ''0'' 6 6))" by (simp add: defs)
  have r2: "\<exists>es. iteration demo_lib 0 (AccountLoop (Address 2) ''0'' 6 6) demo_input =
      Some (es, Continue (AccountLoop (Address 2) ''0'' 7 7))" by (simp add: defs)
  from r1 r2 obtain es1 es2 where
    r: "run_loop (iteration demo_lib 0) (AccountLoop (Address 2) ''0'' 5 5) [demo_input] =
      Some (es1, Continue (AccountLoop (Address 2) ''0'' 6 6))"
    "iteration demo_lib 0 (AccountLoop (Address 2) ''0'' 6 6) demo_input =
      Some (es2, Continue (AccountLoop (Address 2) ''0'' 7 7))" by blast
  have "WaitMasterchainInfo (in_api demo_input) (next_seqno 6) = Inr (demo_block 7)"
    "GetAccount (in_api demo_input) (demo_block 7) (Address 2) = Inr (demo_account 7)"
    by (simp_all add: defs)
  from account_replica [OF r this] have
    "fold apply_account (es1 @ es2) (''0'', show_nat 5) = (balance_text (demo_account 7), show_nat (LastTxLT (demo_account 7)))"
    by (rule conjunct1)
  moreover have "balance_text (demo_account 7) = ''0''" "LastTxLT (demo_account 7) = 7" by (simp_all add: defs)
  ultimately show ?thesis using r by metis
qed

end
