(* ===== verification/LiteProps.thy ===== *)
theory LiteProps
  imports Watch "HOL-Library.Sublist"
begin

text \<open>
  Walks through the history of an account: what \<open>lite.getTransaction\<close> finds and what
  \<open>lite.sendAndWatch\<close> confirms; and the arguments of a get method.
\<close>

section \<open>The history of an account\<close>

text \<open>
  A history, newest transaction first: each names its predecessor, the first ever names none and
  the logical times grow.
\<close>

fun linked :: "transaction list \<Rightarrow> bool" where
  "linked [] = True"
| "linked [t] = (0 < tx_LT t \<and> PrevTxLT t = 0)"
| "linked (t # u # ts) = (PrevTxLT t = tx_LT u \<and> PrevTxHash t = tx_Hash u \<and> tx_LT u < tx_LT t \<and> linked (u # ts))"

text \<open>
  The documented behaviour of \<open>ListTransactions\<close> while it does not fail: at least one and at most
  so many transactions up to the given one, the oldest first.
\<close>

definition serves_history :: "tx_pages \<Rightarrow> transaction list \<Rightarrow> bool" where
  "serves_history pages hist \<longleftrightarrow>
     (\<forall>i t ts. suffix (t # ts) hist \<longrightarrow>
        (\<exists>k > 0. pages i (tx_LT t) (Some (tx_Hash t)) = Inr (rev (take k (t # ts)))))"

text \<open>
  The same with calls that may fail, as every call does once the context of the request is over.
\<close>

definition serves_or_fails :: "tx_pages \<Rightarrow> transaction list \<Rightarrow> bool" where
  "serves_or_fails pages hist \<longleftrightarrow>
     (\<forall>i t ts. suffix (t # ts) hist \<longrightarrow>
        (\<exists>k > 0. pages i (tx_LT t) (Some (tx_Hash t)) = Inr (rev (take k (t # ts))))
        \<or> (\<exists>e. pages i (tx_LT t) (Some (tx_Hash t)) = Inl e))"

text \<open>A position in the history is the part not read yet.\<close>

definition at_head :: "nat \<Rightarrow> bytes option \<Rightarrow> transaction list \<Rightarrow> bool" where
  "at_head lt h rest \<longleftrightarrow> (case rest of [] \<Rightarrow> lt = 0 | t # _ \<Rightarrow> lt = tx_LT t \<and> h = Some (tx_Hash t))"

lemma linked_tail: "linked (t # ts) \<Longrightarrow> linked ts"
  by (cases ts) auto

lemma linked_suffix: "linked hist \<Longrightarrow> suffix rest hist \<Longrightarrow> linked rest"
  by (induction hist) (auto simp: suffix_Cons dest: linked_tail)

lemma linked_positive: "linked (t # ts) \<Longrightarrow> 0 < tx_LT t"
  by (induction ts arbitrary: t) auto

lemma linked_older: "linked (t # ts) \<Longrightarrow> u \<in> set ts \<Longrightarrow> tx_LT u < tx_LT t"
proof (induction ts arbitrary: t)
  case (Cons x ts)
  then show ?case by (auto intro: less_trans)
qed simp

lemma linked_unique: "linked ts \<Longrightarrow> u \<in> set ts \<Longrightarrow> v \<in> set ts \<Longrightarrow> tx_LT u = tx_LT v \<Longrightarrow> u = v"
proof (induction ts)
  case (Cons t ts)
  have "tx_LT x \<noteq> tx_LT t" if "x \<in> set ts" for x using linked_older [OF Cons.prems(1) that] by simp
  with Cons linked_tail [of t ts] show ?case by (metis set_ConsD)
qed simp

lemma page_then_next:
  assumes "linked rest" "rest \<noteq> []" "0 < k"
  shows "at_head (PrevTxLT (hd (rev (take k rest)))) (Some (PrevTxHash (hd (rev (take k rest))))) (drop k rest)"
  using assms
proof (induction rest arbitrary: k)
  case (Cons t ts)
  then obtain j where k: "k = Suc j" by (cases k) auto
  show ?case
  proof (cases "j = 0 \<or> ts = []")
    case True
    with Cons.prems(1) k show ?thesis by (cases ts) (auto simp: at_head_def)
  next
    case False
    with Cons.IH [of j] Cons.prems(1) linked_tail k show ?thesis
      by (cases "take j ts") (auto simp: hd_append hd_rev)
  qed
qed simp

lemma page_progress:
  assumes "linked hist" "suffix rest hist" "at_head lt h rest" "rest \<noteq> []" "0 < k"
  shows "0 < lt" "rev (take k rest) \<noteq> []" "suffix (drop k rest) hist" "length (drop k rest) < length rest"
    "at_head (PrevTxLT (hd (rev (take k rest)))) (Some (PrevTxHash (hd (rev (take k rest))))) (drop k rest)"
proof -
  have l: "linked rest" using linked_suffix assms(1,2) by blast
  from assms(4) obtain t ts where rest: "rest = t # ts" by (cases rest) auto
  from l rest assms(3) show "0 < lt" using linked_positive by (simp add: at_head_def)
  show "suffix (drop k rest) hist" using assms(2) suffix_drop suffix_order.trans by blast
  show "rev (take k rest) \<noteq> []" "length (drop k rest) < length rest" using rest assms(5) by simp_all
  show "at_head (PrevTxLT (hd (rev (take k rest)))) (Some (PrevTxHash (hd (rev (take k rest))))) (drop k rest)"
    using page_then_next [OF l assms(4,5)] .
qed

lemma served_page:
  assumes "linked hist" "serves_history pages hist" "suffix rest hist" "at_head lt h rest" "rest \<noteq> []"
  obtains k where "0 < k" "pages i lt h = Inr (rev (take k rest))" "0 < lt" "rev (take k rest) \<noteq> []"
    "suffix (drop k rest) hist" "length (drop k rest) < length rest"
    "at_head (PrevTxLT (hd (rev (take k rest)))) (Some (PrevTxHash (hd (rev (take k rest))))) (drop k rest)"
proof -
  from assms(5) obtain t ts where rest: "rest = t # ts" by (cases rest) auto
  with assms(4) have "lt = tx_LT t" "h = Some (tx_Hash t)" by (simp_all add: at_head_def)
  with assms(2,3) rest obtain k where k: "0 < k" "pages i lt h = Inr (rev (take k rest))"
    unfolding serves_history_def by blast
  show thesis using that [OF k] page_progress [OF assms(1,3-5) k(1)] by blast
qed

lemma served_or_failed_page:
  assumes "serves_or_fails pages hist" "suffix rest hist" "at_head lt h rest" "rest \<noteq> []"
  shows "(\<exists>k > 0. pages i lt h = Inr (rev (take k rest))) \<or> (\<exists>e. pages i lt h = Inl e)"
proof -
  from assms(4) obtain t ts where rest: "rest = t # ts" by (cases rest) auto
  with assms(3) have "lt = tx_LT t" "h = Some (tx_Hash t)" by (simp_all add: at_head_def)
  with assms(1,2) rest show ?thesis unfolding serves_or_fails_def by blast
qed

section \<open>lite.getTransaction\<close>

lemma find_append: "find P (xs @ ys) = (case find P xs of None \<Rightarrow> find P ys | Some x \<Rightarrow> Some x)"
  by (induction xs) auto

lemma find_some: "find P xs = Some x \<Longrightarrow> P x \<and> x \<in> set xs"
  by (induction xs) (auto split: if_splits)

lemma find_rev:
  "(\<And>x y. x \<in> set xs \<Longrightarrow> y \<in> set xs \<Longrightarrow> P x \<Longrightarrow> P y \<Longrightarrow> x = y) \<Longrightarrow> find P (rev xs) = find P xs"
proof (induction xs)
  case (Cons x xs)
  then have ih: "find P (rev xs) = find P xs" by simp
  show ?case
  proof (cases "P x")
    case False
    with ih show ?thesis by (simp add: find_append split: option.split)
  next
    case True
    have "find P xs = None \<or> find P xs = Some x"
    proof (cases "find P xs")
      case (Some y)
      then have "P y" "y \<in> set xs" by (auto simp: find_Some_iff)
      with Cons.prems [of x y] True Some show ?thesis by auto
    qed simp
    with True ih show ?thesis by (auto simp: find_append)
  qed
qed simp

lemma find_lt_rest:
  assumes "linked hist" "serves_or_fails pages hist" "suffix rest hist" "at_head l h rest"
  shows "find_lt pages lt i l h = Some (Inr (find (\<lambda>tx. tx_LT tx = lt) rest))
    \<or> (\<exists>j l' h' e. pages j l' h' = Inl e \<and> find_lt pages lt i l h = Some (Inl e))"
  using assms(3,4)
proof (induction "length rest" arbitrary: rest i l h rule: less_induct)
  case less
  let ?P = "\<lambda>tx. tx_LT tx = lt"
  show ?case
  proof (cases "rest = []")
    case True
    with less.prems(2) show ?thesis by (subst find_lt.simps) (simp add: at_head_def)
  next
    case False
    note page = served_or_failed_page [OF assms(2) less.prems False, of i]
    show ?thesis
    proof (cases "pages i l h")
      case (Inl e)
      have "0 < l" using page_progress(1) [OF assms(1) less.prems False, of 1] by simp
      with Inl have "find_lt pages lt i l h = Some (Inl e)" by (subst find_lt.simps) simp
      with Inl show ?thesis by blast
    next
      case (Inr txs)
      with page obtain k where k: "0 < k" "pages i l h = Inr (rev (take k rest))" by auto
      note next_page = page_progress [OF assms(1) less.prems False k(1)]
      have "x = y" if "x \<in> set (take k rest)" "y \<in> set (take k rest)" "?P x" "?P y" for x y
        using linked_unique [OF linked_suffix [OF assms(1) less.prems(1)]] that by (metis in_set_takeD)
      then have this_page: "find ?P (rev (take k rest)) = find ?P (take k rest)" by (intro find_rev) blast
      have "find ?P rest = find ?P (take k rest @ drop k rest)" by simp
      then have split: "find ?P rest = (case find ?P (take k rest) of Some x \<Rightarrow> Some x | None \<Rightarrow> find ?P (drop k rest))"
        by (simp only: find_append)
      let ?older = "find_lt pages lt (Suc i) (PrevTxLT (hd (rev (take k rest)))) (Some (PrevTxHash (hd (rev (take k rest)))))"
      have step: "find_lt pages lt i l h = (case find ?P (take k rest) of Some tx \<Rightarrow> Some (Inr (Some tx)) | None \<Rightarrow> ?older)"
        using next_page(1,2) k(2) this_page by (subst find_lt.simps) (auto split: option.split)
      show ?thesis
      proof (cases "find ?P (take k rest)")
        case None
        with step split less.hyps [OF next_page(4,3,5), of "Suc i"] show ?thesis by simp
      next
        case (Some x)
        with step split show ?thesis by simp
      qed
    qed
  qed
qed

text \<open>
  C29: for a valid request whose account can be read, over a liteserver that serves the history of
  that account as documented while it answers, \<open>lite.getTransaction\<close> ends, and it returns the transaction with the logical time it is asked for
  when the account has one and otherwise says that there is none. Any call for a page may fail, as
  all do once the deadline of the request has passed: only then is the answer another, the error
  of a call that failed.
\<close>
theorem getTransaction_complete:
  assumes "get_tx_checks tlib api req = Inr (addr, lt, text_lt, acc)"
    and "linked hist" "serves_or_fails (\<lambda>i. ListTransactions api i addr 100) hist"
    and "at_head (LastTxLT acc) (LastTxHash acc) hist"
  shows "handleGetTransaction tlib api req = Some
      (case find (\<lambda>tx. tx_LT tx = lt) hist of
         Some tx \<Rightarrow> Result (serializeTransaction tlib tx)
       | None \<Rightarrow> failed (Lit (''transaction not found for lt '' @ text_lt)))
    \<or> (\<exists>j l h e. ListTransactions api j addr 100 l h = Inl e
         \<and> handleGetTransaction tlib api req = Some (failed (Wrap ''failed to list transactions: '' e)))"
  using find_lt_rest [OF assms(2,3) _ assms(4), of lt 0] assms(1)
  by (auto simp: handleGetTransaction_def split: option.splits)

definition demo_get_tx :: WSRequest where
  "demo_get_tx = \<lparr>req_jsonrpc = ''2.0'', req_id = ''1'', req_method = ''lite.getTransaction'',
     req_params = Some (JObj [(''address'', JStr ''a''), (''lt'', JStr ''10'')])\<rparr>"

definition history_api :: ton_api where
  "history_api = demo_api\<lparr>CurrentMasterchainInfo := Inr (demo_block 10)\<rparr>"

lemma demo_history: "linked [demo_tx]" "serves_history (\<lambda>_ _ _. Inr [demo_tx]) [demo_tx]"
  by (auto simp: serves_history_def demo_tx_def suffix_Cons intro: exI [of _ 1])

lemma demo_get_tx_checks:
  "get_tx_checks demo_lib history_api demo_get_tx = Inr (Address 1, 10, ''10'', demo_account 10)"
proof -
  have "show_nat 10 = ''10''" by code_simp
  then have "parse_uint 10 ''10'' = Inr 10" using parse_show_nat [of 10] by simp
  then show ?thesis
    by (simp add: key_matches_def get_tx_checks_def with_lite_params_def demo_get_tx_def unmarshal_def l_address_def l_lt_def
        string_field_def with_address_def parseAddress_def demo_lib_def with_master_def with_account_def
        history_api_def demo_api_def demo_block_def zero_lite_params_def)
qed

theorem getTransaction_complete_witness:
  "handleGetTransaction demo_lib history_api demo_get_tx = Some (Result (serializeTransaction demo_lib demo_tx))"
proof -
  have "serves_or_fails (\<lambda>i. ListTransactions history_api i (Address 1) 100) [demo_tx]"
    using demo_history(2) unfolding serves_history_def serves_or_fails_def history_api_def demo_api_def by simp
  moreover have "at_head (LastTxLT (demo_account 10)) (LastTxHash (demo_account 10)) [demo_tx]"
    by (simp add: at_head_def demo_account_def demo_tx_def)
  moreover have "tx_LT demo_tx = 10" by (simp add: demo_tx_def)
  ultimately show ?thesis
    using getTransaction_complete [OF demo_get_tx_checks demo_history(1)]
    by (auto simp: history_api_def demo_api_def)
qed

section \<open>lite.sendAndWatch\<close>

text \<open>The transactions the account had not made when it was last looked at.\<close>

fun new_since :: "(transaction \<Rightarrow> bool) \<Rightarrow> transaction list \<Rightarrow> transaction list" where
  "new_since known [] = []"
| "new_since known (t # ts) = t # (if known t then [] else new_since known ts)"

lemma new_since_append:
  "new_since known (xs @ ys) = (if list_ex known xs then new_since known xs else xs @ new_since known ys)"
  by (induction xs) auto

lemma new_since_subset: "set (new_since known ts) \<subseteq> set ts"
  by (induction ts) auto

definition scan_right ::
  "(transaction \<Rightarrow> bool) \<Rightarrow> (transaction \<Rightarrow> bool) \<Rightarrow> transaction list \<Rightarrow> scan \<Rightarrow> bool" where
  "scan_right wanted known rest r \<longleftrightarrow>
     (case r of
        Found tx \<Rightarrow> tx \<in> set rest \<and> wanted tx
      | PageError \<Rightarrow> False
      | NotThere \<Rightarrow> (\<forall>tx \<in> set (new_since known rest). \<not> wanted tx))"

lemma scan_right_page:
  assumes "scan_right wanted known (drop k rest) r" "\<forall>tx \<in> set (take k rest). \<not> wanted tx"
    and "\<not> list_ex known (take k rest)"
  shows "scan_right wanted known rest r"
proof -
  have "new_since known rest = take k rest @ new_since known (drop k rest)"
    using new_since_append [of known "take k rest" "drop k rest"] assms(3) by simp
  with assms(1,2) show ?thesis by (auto simp: scan_right_def split: scan.splits dest: in_set_dropD)
qed

lemma scan_right_end:
  assumes "\<forall>tx \<in> set (take k rest). \<not> wanted tx" "list_ex known (take k rest)"
  shows "scan_right wanted known rest NotThere"
proof -
  have "new_since known rest = new_since known (take k rest)"
    using new_since_append [of known "take k rest" "drop k rest"] assms(2) by simp
  with assms(1) new_since_subset [of known "take k rest"] show ?thesis by (auto simp: scan_right_def)
qed

lemma scan_rest:
  assumes "linked hist" "serves_history pages hist" "\<And>k. alive k" "suffix rest hist" "at_head l h rest"
  shows "\<exists>r. scan_history alive pages wanted known i l h = Some r \<and> scan_right wanted known rest r"
  using assms(4,5)
proof (induction "length rest" arbitrary: rest i l h rule: less_induct)
  case less
  show ?case
  proof (cases "rest = []")
    case True
    with less.prems(2) show ?thesis
      by (subst scan_history.simps) (simp add: at_head_def scan_right_def)
  next
    case False
    obtain k where k: "0 < k" "pages i l h = Inr (rev (take k rest))" "0 < l" "rev (take k rest) \<noteq> []"
      "suffix (drop k rest) hist" "length (drop k rest) < length rest"
      "at_head (PrevTxLT (hd (rev (take k rest)))) (Some (PrevTxHash (hd (rev (take k rest))))) (drop k rest)"
      using served_page [OF assms(1,2) less.prems False] by metis
    show ?thesis
    proof (cases "find wanted (rev (take k rest))")
      case (Some tx)
      then have "wanted tx" "tx \<in> set (take k rest)" using find_some [OF Some] by simp_all
      then have "scan_right wanted known rest (Found tx)" by (auto simp: scan_right_def dest: in_set_takeD)
      with k Some assms(3) show ?thesis by (subst scan_history.simps) simp
    next
      case None
      then have no: "\<forall>tx \<in> set (take k rest). \<not> wanted tx" by (auto simp: find_None_iff)
      show ?thesis
      proof (cases "list_ex known (take k rest)")
        case True
        with k None assms(3) scan_right_end [OF no] show ?thesis
          by (subst scan_history.simps) (simp add: list_ex_iff)
      next
        case False
        from less.hyps [OF k(6,5,7), of "Suc i"] obtain r where
          "scan_history alive pages wanted known (Suc i) (PrevTxLT (hd (rev (take k rest))))
             (Some (PrevTxHash (hd (rev (take k rest))))) = Some r" "scan_right wanted known (drop k rest) r" by blast
        with k None assms(3) False scan_right_page [OF _ no False] show ?thesis
          by (subst scan_history.simps) (simp add: list_ex_iff)
      qed
    qed
  qed
qed

text \<open>
  C15: when the watched account has new transactions, a round of \<open>lite.sendAndWatch\<close> over a
  liteserver that serves the history as documented ends; it confirms the message only with a
  transaction of the account that consumed it, and it goes on to the next block only when none of
  the transactions since the last round did.
\<close>
theorem watch_round_right:
  assumes "linked hist" "serves_history (\<lambda>k. ListTransactions (in_api i) k dst 20) hist"
    and "at_head (LastTxLT acc') (LastTxHash acc') hist" "\<And>k. in_alive i k"
    and "WaitMasterchainInfo (in_api i) (next_seqno (SeqNo blk)) = Inr blk'"
    and "GetAccount (in_api i) blk' dst = Inr acc'" "LastTxLT acc' \<noteq> LastTxLT acc"
  shows "(\<exists>tx \<in> set hist. consumes tlib ext tx
        \<and> waitForExternalMessage tlib c h ext dst blk acc i = Some (tx_confirmed tlib c h tx blk', Stop))
    \<or> (\<forall>tx \<in> set (new_since (follows acc) hist). \<not> consumes tlib ext tx)
        \<and> waitForExternalMessage tlib c h ext dst blk acc i = Some ([], Continue (WatchLoop h ext dst blk' acc'))"
proof -
  obtain r where r: "scan_history (\<lambda>k. in_alive i (Suc k)) (\<lambda>k. ListTransactions (in_api i) k dst 20)
      (consumes tlib ext) (follows acc) 0 (LastTxLT acc') (LastTxHash acc') = Some r"
    "scan_right (consumes tlib ext) (follows acc) hist r"
    using scan_rest [OF assms(1,2), of "\<lambda>k. in_alive i (Suc k)" hist] assms(3,4) by blast
  then show ?thesis
    using assms(4-7) by (cases r) (auto simp: waitForExternalMessage_def scan_right_def)
qed

text \<open>A wallet that makes the transaction its message asks for.\<close>

definition demo_external :: message where
  "demo_external = demo_message\<lparr>MsgType := ExternalIn\<rparr>"

definition consumed_tx :: transaction where
  "consumed_tx = demo_tx\<lparr>tx_In := Some demo_external\<rparr>"

definition consumed_input :: loop_input where
  "consumed_input = \<lparr>in_api = demo_api\<lparr>GetAccount := (\<lambda>_ _. Inr (demo_account 10)), ListTransactions := (\<lambda>_ _ _ _ _. Inr [consumed_tx])\<rparr>,
     in_ctx_err = False, in_reason = [], in_alive = (\<lambda>_. True), in_index = 0, in_tx = None, in_sent = (\<lambda>_. True)\<rparr>"

theorem watch_round_right_witness:
  "waitForExternalMessage demo_lib 0 [1] demo_external (Address 2) (demo_block 8) (demo_account 5) consumed_input
     = Some (tx_confirmed demo_lib 0 [1] consumed_tx (demo_block 9), Stop)"
proof -
  have h: "linked [consumed_tx]" "serves_history (\<lambda>k. ListTransactions (in_api consumed_input) k (Address 2) 20) [consumed_tx]"
    "at_head (LastTxLT (demo_account 10)) (LastTxHash (demo_account 10)) [consumed_tx]"
    by (auto simp: serves_history_def consumed_input_def consumed_tx_def demo_tx_def at_head_def demo_account_def
        suffix_Cons intro: exI [of _ 1])
  have s: "next_seqno (SeqNo (demo_block 8)) = 9" by (simp add: next_seqno_def demo_block_def)
  have "WaitMasterchainInfo (in_api consumed_input) (next_seqno (SeqNo (demo_block 8))) = Inr (demo_block 9)"
    "GetAccount (in_api consumed_input) (demo_block 9) (Address 2) = Inr (demo_account 10)"
    "LastTxLT (demo_account 10) \<noteq> LastTxLT (demo_account 5)" "\<And>k. in_alive consumed_input k"
    unfolding s by (simp_all add: consumed_input_def demo_api_def demo_account_def)
  note round = watch_round_right [OF h this(4) this(1-3), of demo_lib demo_external 0 "[1]"]
  have "consumes demo_lib demo_external consumed_tx"
    by (simp add: consumes_def consumed_tx_def demo_external_def demo_message_def state_matches_def)
  with round show ?thesis by auto
qed

section \<open>Arguments of a get method\<close>

text \<open>
  The stacks made of integers, nulls and tuples of these, in either form the library gives a tuple,
  and what they are as a parameter: a tuple is a list of values, and anything absent is null.
\<close>

fun plain_stack :: "stack_value \<Rightarrow> bool" where
  "plain_stack (SInt v) = True"
| "plain_stack (SCell v) = (v = None)"
| "plain_stack (SSlice v) = (v = None)"
| "plain_stack (SList vs) = list_all plain_stack vs"
| "plain_stack (STuple None) = True"
| "plain_stack (STuple (Some vs)) = list_all plain_stack vs"
| "plain_stack SNil = True"
| "plain_stack (SOther s) = False"

fun as_param :: "stack_value \<Rightarrow> stack_value" where
  "as_param (SInt (Some n)) = SInt (Some n)"
| "as_param (SList vs) = SList (map as_param vs)"
| "as_param (STuple (Some vs)) = SList (map as_param vs)"
| "as_param v = SNil"

lemma convert_items_map:
  "(\<And>v. v \<in> set vs \<Longrightarrow> convertRunMethodParam tlib (f v) = Inr (g v)) \<Longrightarrow>
   convert_items tlib i (map f vs) = Inr (map g vs)"
  by (induction vs arbitrary: i) auto

lemma convert_serialized:
  "plain_stack v \<Longrightarrow> convertRunMethodParam tlib (serializeStackValue tlib v) = Inr (as_param v)
     \<and> serializeStackValue tlib (as_param v) = serializeStackValue tlib v"
proof (induction v rule: plain_stack.induct)
  case (1 v)
  then show ?case by (cases v) (simp_all add: SetString10_show)
next
  case (4 vs)
  then have "\<And>v. v \<in> set vs \<Longrightarrow> convertRunMethodParam tlib (serializeStackValue tlib v) = Inr (as_param v)"
    "\<And>v. v \<in> set vs \<Longrightarrow> serializeStackValue tlib (as_param v) = serializeStackValue tlib v"
    by (simp_all add: list_all_iff)
  with convert_items_map [of vs tlib "serializeStackValue tlib" as_param 0] show ?case by simp
next
  case (6 vs)
  then have "\<And>v. v \<in> set vs \<Longrightarrow> convertRunMethodParam tlib (serializeStackValue tlib v) = Inr (as_param v)"
    "\<And>v. v \<in> set vs \<Longrightarrow> serializeStackValue tlib (as_param v) = serializeStackValue tlib v"
    by (simp_all add: list_all_iff)
  with convert_items_map [of vs tlib "serializeStackValue tlib" as_param 0] show ?case by simp
qed simp_all

text \<open>
  C35: a result of \<open>lite.runMethod\<close> made of integers of any size, nulls and nested tuples of these is
  accepted as a parameter of another call: its integers come back as they are, its tuples, in
  whichever of its two forms the library gives them, as lists of their items, and every absent
  value as null. Printed once more, the parameter is the same JSON.
\<close>
theorem stack_roundtrip:
  assumes "plain_stack v"
  shows "convertRunMethodParam tlib (serializeStackValue tlib v) = Inr (as_param v)
    \<and> serializeStackValue tlib (as_param v) = serializeStackValue tlib v"
  by (rule convert_serialized [OF assms])

theorem stack_roundtrip_witness:
  "convertRunMethodParam demo_lib (serializeStackValue demo_lib (STuple (Some [SInt (Some (2 ^ 255)), SNil, SList [SInt (Some (- 3))]])))
     = Inr (SList [SInt (Some (2 ^ 255)), SNil, SList [SInt (Some (- 3))]])"
  using stack_roundtrip [of "STuple (Some [SInt (Some (2 ^ 255)), SNil, SList [SInt (Some (- 3))]])" demo_lib]
  by (simp del: power_numeral)

text \<open>
  A JSON number is read as a double: up to \<open>2 ^ 53\<close> it is taken as it is, the next integer is
  accepted and silently becomes \<open>2 ^ 53\<close>, and anything larger is refused.
\<close>

lemma run_method_number:
  assumes "nat \<bar>n\<bar> < 2 ^ 1024 - 2 ^ 970"
  shows "convertRunMethodParam tlib (JNum (show_int n)) =
    (if \<bar>n\<bar> \<le> 2 ^ 53 then Inr (SInt (Some n))
     else if \<bar>n\<bar> = 2 ^ 53 + 1 then Inr (SInt (Some (sgn n * 2 ^ 53)))
     else Inl (ErrMsg ''JSON number must be a safe integer; use a decimal string for larger values''))"
proof -
  have p: "convertRunMethodParam tlib (JNum (show_int n)) =
    (case f64_integer (f64_ratio (nat \<bar>n\<bar>) 1) of
       None \<Rightarrow> Inl (ErrMsg ''JSON number must be a safe integer; use a decimal string for larger values'')
     | Some v \<Rightarrow> if v > 2 ^ 53 then Inl (ErrMsg ''JSON number must be a safe integer; use a decimal string for larger values'')
         else Inr (SInt (Some (if n < 0 then - int v else int v))))"
    by (simp add: convert_number_def Let_def parse_float_show [OF assms] del: power_numeral)
  consider (small) "nat \<bar>n\<bar> < 2 ^ 53" | (edge) "nat \<bar>n\<bar> = 2 ^ 53" | (odd) "nat \<bar>n\<bar> = 2 ^ 53 + 1"
    | (large) "2 ^ 53 + 2 \<le> nat \<bar>n\<bar>" by linarith
  then show ?thesis
  proof cases
    case small
    then have "\<bar>n\<bar> < 2 ^ 53" by auto
    with f64_small_integer [OF small] small show ?thesis unfolding p by simp
  next
    case edge
    then have "\<bar>n\<bar> = 2 ^ 53" by auto
    with f64_boundary(1) edge show ?thesis unfolding p by (simp add: abs_if split: if_splits)
  next
    case odd
    then have "\<bar>n\<bar> = 2 ^ 53 + 1" by auto
    with f64_boundary(2) odd show ?thesis unfolding p by (simp add: abs_if split: if_splits)
  next
    case large
    then have "2 ^ 53 + 2 \<le> \<bar>n\<bar>" by auto
    with f64_beyond [OF large] show ?thesis unfolding p by auto
  qed
qed

end
