(* ===== verification/Replies.thy ===== *)
theory Replies
  imports Services HandlerInv
begin

text \<open>
  Every request gets one reply. The replies among the effects of a handler are counted through
  the calls that may run the connection handler, detach peers or close overlays, none of which
  replies; every early return ends in a reply with a standard code.
\<close>

section \<open>Proper replies\<close>

text \<open>A result is an object, and an error has a code of the JSON-RPC standard.\<close>

definition proper :: "reply \<Rightarrow> bool" where
  "proper r \<longleftrightarrow>
     (case r of
        Result j \<Rightarrow> (\<exists>fs. j = JObj fs)
      | Error code _ \<Rightarrow> code \<in> {method_not_found, invalid_params, internal_error})"

lemma proper_simps [simp]: "proper (bad t)" "proper (failed t)" "proper (Result (JObj fs))"
  "proper (Error method_not_found t)"
  by (simp_all add: proper_def)

definition fails_proper :: "'a checked \<Rightarrow> bool" where
  "fails_proper x \<longleftrightarrow> (\<forall>r. x = Inl r \<longrightarrow> proper r)"

definition ends_proper :: "reply checked \<Rightarrow> bool" where
  "ends_proper x \<longleftrightarrow> proper (finish_with x)"

lemma fails_proper_simps [simp]: "fails_proper (Inr x)" "fails_proper (Inl r) = proper r"
  by (simp_all add: fails_proper_def)

lemma ends_proper_simps [simp]: "ends_proper (Inr r) = proper r" "ends_proper (Inl r) = proper r"
  by (simp_all add: ends_proper_def)

lemma finish_proper: "ends_proper x \<Longrightarrow> proper (finish_with x)"
  by (simp add: ends_proper_def)

named_theorems proper_intros

lemma fails_attempt [proper_intros]:
  "(\<And>e. proper (f e)) \<Longrightarrow> (\<And>x. fails_proper (k x)) \<Longrightarrow> fails_proper (attempt r f k)"
  by (cases r) simp_all

lemma fails_require [proper_intros]: "proper e \<Longrightarrow> fails_proper k \<Longrightarrow> fails_proper (require p e k)"
  by (cases p) simp_all

lemma fails_present [proper_intros]:
  "proper e \<Longrightarrow> (\<And>x. fails_proper (k x)) \<Longrightarrow> fails_proper (present y e k)"
  by (cases y) simp_all

lemma ends_attempt [proper_intros]:
  "(\<And>e. proper (f e)) \<Longrightarrow> (\<And>x. ends_proper (k x)) \<Longrightarrow> ends_proper (attempt r f k)"
  by (cases r) simp_all

lemma ends_require [proper_intros]: "proper e \<Longrightarrow> ends_proper k \<Longrightarrow> ends_proper (require p e k)"
  by (cases p) simp_all

lemma ends_present [proper_intros]:
  "proper e \<Longrightarrow> (\<And>x. ends_proper (k x)) \<Longrightarrow> ends_proper (present y e k)"
  by (cases y) simp_all

lemma fails_prod [proper_intros]:
  "(\<And>a b. fails_proper (k a b)) \<Longrightarrow> fails_proper (case x of (a, b) \<Rightarrow> k a b)"
  by (cases x) simp

lemma ends_prod [proper_intros]:
  "(\<And>a b. ends_proper (k a b)) \<Longrightarrow> ends_proper (case x of (a, b) \<Rightarrow> k a b)"
  by (cases x) simp

lemma fails_case [proper_intros]:
  "fails_proper x \<Longrightarrow> (\<And>y. fails_proper (k y)) \<Longrightarrow> fails_proper (case x of Inl r \<Rightarrow> Inl r | Inr y \<Rightarrow> k y)"
  by (cases x) simp_all

lemma ends_case [proper_intros]:
  "fails_proper x \<Longrightarrow> (\<And>y. ends_proper (k y)) \<Longrightarrow> ends_proper (case x of Inl r \<Rightarrow> Inl r | Inr y \<Rightarrow> k y)"
  by (cases x) simp_all

text \<open>The heads that the handlers of a namespace share.\<close>

lemma fails_heads [proper_intros]:
  "(\<And>p. fails_proper (k1 p)) \<Longrightarrow> fails_proper (with_params fs req k1)"
  "(\<And>d. fails_proper (k2 d)) \<Longrightarrow> fails_proper (with_base64 fld s k2)"
  "fails_proper k3 \<Longrightarrow> fails_proper (with_payload_size w d k3)"
  "(\<And>p. fails_proper (k4 p)) \<Longrightarrow> fails_proper (owned_peer b c k k4)"
  "(\<And>p. fails_proper (k5 p)) \<Longrightarrow> fails_proper (owned_overlay b c k k5)"
  "(\<And>p. fails_proper (k6 p)) \<Longrightarrow> fails_proper (with_sub_params sfs req k6)"
  "(\<And>a. fails_proper (k7 a)) \<Longrightarrow> fails_proper (with_address tlib raw k7)"
  "(\<And>m. fails_proper (k8 m)) \<Longrightarrow> fails_proper (with_master api k8)"
  "(\<And>a. fails_proper (k9 a)) \<Longrightarrow> fails_proper (with_account api blk addr k9)"
  "(\<And>p. fails_proper (l1 p)) \<Longrightarrow> fails_proper (with_lite_params lfs req l1)"
  "(\<And>d cl. fails_proper (l2 d cl)) \<Longrightarrow> fails_proper (with_boc tlib s l2)"
  "(\<And>p. fails_proper (l3 p)) \<Longrightarrow> fails_proper (with_dht_params dfs req l3)"
  "(\<And>p. fails_proper (l4 p)) \<Longrightarrow> fails_proper (with_overlay_key nm s l4)"
  "fails_proper l5 \<Longrightarrow> fails_proper (write_allowed cf nm l5)"
  unfolding with_params_def with_base64_def with_payload_size_def owned_peer_def owned_overlay_def
    with_sub_params_def with_address_def with_master_def with_account_def with_lite_params_def
    with_boc_def with_dht_params_def with_overlay_key_def write_allowed_def
  by (intro proper_intros; simp)+

lemma ends_heads [proper_intros]:
  "(\<And>d. ends_proper (k2 d)) \<Longrightarrow> ends_proper (with_base64 fld s k2)"
  "(\<And>a. ends_proper (k7 a)) \<Longrightarrow> ends_proper (with_address tlib raw k7)"
  "(\<And>m. ends_proper (k8 m)) \<Longrightarrow> ends_proper (with_master api k8)"
  "(\<And>a. ends_proper (k9 a)) \<Longrightarrow> ends_proper (with_account api blk addr k9)"
  "(\<And>p. ends_proper (l1 p)) \<Longrightarrow> ends_proper (with_lite_params lfs req l1)"
  "(\<And>d cl. ends_proper (l2 d cl)) \<Longrightarrow> ends_proper (with_boc tlib s l2)"
  "(\<And>p. ends_proper (l3 p)) \<Longrightarrow> ends_proper (with_dht_params dfs req l3)"
  "(\<And>p. ends_proper (l4 p)) \<Longrightarrow> ends_proper (with_overlay_key nm s l4)"
  unfolding with_base64_def with_address_def with_master_def with_account_def with_lite_params_def
    with_boc_def with_dht_params_def with_overlay_key_def
  by (intro proper_intros; simp)+

section \<open>Replies among the effects\<close>

fun is_reply :: "effect \<Rightarrow> bool" where
  "is_reply (Reply _ _ _) = True"
| "is_reply _ = False"

definition replies :: "effect list \<Rightarrow> effect list" where
  "replies es = filter is_reply es"

definition answers :: "client_ref \<Rightarrow> WSRequest \<Rightarrow> effect list \<Rightarrow> bool" where
  "answers c req es \<longleftrightarrow> (\<exists>r. proper r \<and> replies es = [Reply c (req_id req) r])"

lemma replies_simps [simp]:
  "replies [] = []" "replies (es @ es') = replies es @ replies es'"
  "replies (e # es) = (if is_reply e then e # replies es else replies es)"
  "replies (reply_to c req r) = [Reply c (req_id req) r]"
  by (simp_all add: replies_def reply_to_def)

lemma answers_reply [simp]: "answers c req (reply_to c req r) \<longleftrightarrow> proper r"
  by (auto simp: answers_def)

lemma answers_silent_head: "replies es = [] \<Longrightarrow> answers c req (es @ es') \<longleftrightarrow> answers c req es'"
  by (simp add: answers_def)

lemma answers_cons [simp]: "\<not> is_reply e \<Longrightarrow> answers c req (e # es) \<longleftrightarrow> answers c req es"
  by (simp add: answers_def)

lemma answers_handler:
  assumes "fails_proper checks" "\<And>x. checks = Inr x \<Longrightarrow> answers c req (snd (act x))"
  shows "answers c req (snd (handler c req b checks act))"
  using assms by (cases checks) (auto simp: answers_def)

text \<open>The peer lifecycle does not reply.\<close>

lemma silent_broadcast [simp]: "replies (broadcastToClients b n j) = []"
  by (auto simp: replies_def broadcast_iff filter_empty_conv)

lemma silent_install: "installPeer net p ow b = ((b', es), r) \<Longrightarrow> replies es = []"
  by (auto simp: installPeer_def Let_def split: option.splits if_splits)

lemma silent_connectionHandler: "connectionHandler net p b = ((b', es), r) \<Longrightarrow> replies es = []"
  by (auto simp: connectionHandler_def dest!: silent_install split: prod.splits option.splits)

lemma silent_acceptAll: "acceptAll net ps (b, es) = (b', es') \<Longrightarrow> replies es' = replies es"
proof (induction ps arbitrary: b es)
  case (Cons p ps)
  obtain b1 es1 r where h: "connectionHandler net p b = ((b1, es1), r)" by (metis surj_pair)
  with Cons silent_connectionHandler [OF h] show ?case by simp
qed simp

lemma silent_detach: "detachPeerLocked k p b = ((b', es), r) \<Longrightarrow> replies es = []"
  by (auto simp: replies_def filter_empty_conv detachPeerLocked_def Let_def closeOverlay_def
      split: option.splits if_splits)

lemma silent_dropPeer: "dropPeer p (b, es) = (b', es') \<Longrightarrow> replies es' = replies es"
  by (auto simp: dropPeer_def dest!: silent_detach split: prod.splits)

lemma silent_dial:
  assumes "dial net i addr key b = ((b', es), r)"
  shows "replies es = []"
proof -
  obtain cb res where c: "RegisterClient net i addr key = (cb, res)" by (metis surj_pair)
  show ?thesis
  proof (cases cb)
    case None
    with assms c have "acceptAll net (incoming net i) (b, [DialTo addr]) = (b', es)" by (simp add: dial_def)
    from silent_acceptAll [OF this] show ?thesis by simp
  next
    case (Some p)
    obtain b1 es1 err where h: "connectionHandler net p b = ((b1, es1), err)" by (metis surj_pair)
    with assms c Some have "acceptAll net (incoming net i) (b1, DialTo addr # es1) = (b', es)"
      by (simp add: dial_def)
    from silent_acceptAll [OF this] silent_connectionHandler [OF h] show ?thesis by simp
  qed
qed

section \<open>The adnl namespace\<close>

lemma answers_claim:
  assumes "claimPeer net c req p (b, es) = (b', es')" "replies es = []"
  shows "answers c req es'"
proof -
  obtain b1 es1 r where i: "installPeer net p (Some c) b = ((b1, es1), r)" by (metis surj_pair)
  note s1 = silent_install [OF i]
  show ?thesis
  proof (cases r)
    case None
    with assms i s1 show ?thesis by (auto simp: claimPeer_def answers_def connected_result_def)
  next
    case (Some e)
    obtain b2 es2 where d: "dropPeer p (b1, es @ es1) = (b2, es2)" by (metis surj_pair)
    with assms i s1 Some silent_dropPeer [OF d] show ?thesis
      by (auto simp: claimPeer_def answers_def)
  qed
qed

lemma answers_reuse: "answers c req (snd (reusePeer net c req k p b))"
  unfolding reusePeer_def
proof (rule answers_handler)
  show "fails_proper (reuse_checks b c k)"
    by (simp add: reuse_checks_def Let_def fails_require peer_limit_error_def)
next
  fix u
  obtain b1 es1 where a: "acceptAll net (incoming net 0) (b, [PingPeer p]) = (b1, es1)" by (metis surj_pair)
  have s1: "replies es1 = []" using silent_acceptAll [OF a] by simp
  obtain b2 es2 r where i: "installPeer net p (Some c) b1 = ((b2, es2), r)" by (metis surj_pair)
  have s2: "replies es2 = []" by (rule silent_install [OF i])
  show "answers c req (snd (let (b1, es) = acceptAll net (incoming net 0) (b, [PingPeer p]) in
       case Ping net 0 p of
         Inl _ \<Rightarrow> (b1, es @ reply_to c req (failed (Lit ''existing ADNL peer is not live; disconnect it before retrying'')))
       | Inr _ \<Rightarrow>
           if owner_of b k = None then
             (case installPeer net p (Some c) b1 of
                ((b2, es'), Some e) \<Rightarrow>
                  (b2, es @ es' @ reply_to c req (failed (Wrap ''adnl connect ownership failed: '' e)))
              | ((b2, es'), None) \<Rightarrow>
                  (addClientPeer c k b2, es @ es' @ reply_to c req (connected_result net p)))
           else (b1, es @ reply_to c req (connected_result net p))))"
    using s1 s2 by (cases "Ping net 0 p"; cases "owner_of b k"; cases r)
      (auto simp: a i answers_silent_head connected_result_def)
qed

lemma answers_connectNew: "answers c req (snd (connectNew net c req addr key b))"
proof (cases "room_for_peer b c")
  case (Inl r)
  then have "proper r" by (auto simp: room_for_peer_def require_def peer_limit_error_def split: if_splits)
  with Inl show ?thesis by (auto simp: connectNew_def answers_def)
next
  case (Inr u)
  obtain b1 es1 r where d: "dial net 0 addr key b = ((b1, es1), r)" by (metis surj_pair)
  note s1 = silent_dial [OF d]
  show ?thesis
  proof (cases r)
    case (Inl e)
    with Inr d s1 show ?thesis by (simp add: connectNew_def answers_silent_head)
  next
    case p: (Inr p)
    obtain b2 es2 where x: "dropPeer p (b1, es1 @ [PingPeer p]) = (b2, es2)" by (metis surj_pair)
    obtain b3 es3 where y: "claimPeer net c req p (b1, es1 @ [PingPeer p]) = (b3, es3)" by (metis surj_pair)
    from silent_dropPeer [OF x] answers_claim [OF y] Inr d p s1 x y show ?thesis
      by (cases "Ping net 0 p") (auto simp: connectNew_def answers_silent_head)
  qed
qed

lemma silent_tryEndpoints:
  "tryEndpoints net key i addrs (b, es) = ((b', es'), r) \<Longrightarrow> replies es' = replies es"
proof (induction addrs arbitrary: i b es)
  case (Cons addr addrs)
  obtain b1 es1 res where d: "dial net i addr key b = ((b1, es1), res)" by (metis surj_pair)
  note s1 = silent_dial [OF d]
  show ?case
  proof (cases res)
    case (Inl e)
    with Cons.prems d have "tryEndpoints net key (Suc i) addrs (b1, es @ es1) = ((b', es'), r)" by simp
    from Cons.IH [OF this] s1 show ?thesis by simp
  next
    case (Inr p)
    obtain b2 es2 where x: "dropPeer p (b1, es @ es1 @ [PingPeer p]) = (b2, es2)" by (metis surj_pair)
    show ?thesis
    proof (cases "Ping net i p")
      case (Inl e)
      with Cons.prems d x \<open>res = Inr p\<close>
      have "tryEndpoints net key (Suc i) addrs (b2, es2) = ((b', es'), r)" by simp
      from Cons.IH [OF this] s1 silent_dropPeer [OF x] show ?thesis by simp
    next
      case (Inr ms)
      with Cons.prems d \<open>res = Inr p\<close> have "es' = es @ es1 @ [PingPeer p]" by simp
      with s1 show ?thesis by simp
    qed
  qed
qed simp

lemma answers_connectByADNLNew: "answers c req (snd (connectByADNLNew net c req adnlID b))"
proof (cases "room_for_peer b c")
  case (Inl r)
  then have "proper r" by (auto simp: room_for_peer_def require_def peer_limit_error_def split: if_splits)
  with Inl show ?thesis by (auto simp: connectByADNLNew_def answers_def)
next
  case (Inr u)
  show ?thesis
  proof (cases "FindAddresses net adnlID")
    case (Inl e)
    with Inr show ?thesis by (simp add: connectByADNLNew_def)
  next
    case f: (Inr found)
    obtain cs key where found: "found = (cs, key)" by (cases found)
    obtain b1 es1 r where t: "tryEndpoints net key 0 (publicADNLEndpoints cs 8) (b, []) = ((b1, es1), r)"
      by (metis surj_pair)
    have s: "replies es1 = []" using silent_tryEndpoints [OF t] by simp
    show ?thesis
    proof (cases r)
      case None
      with Inr f found t s show ?thesis by (simp add: connectByADNLNew_def answers_silent_head)
    next
      case (Some p)
      obtain b2 es2 where y: "claimPeer net c req p (b1, es1) = (b2, es2)" by (metis surj_pair)
      from answers_claim [OF y s] Inr f found t Some y show ?thesis by (simp add: connectByADNLNew_def)
    qed
  qed
qed

named_theorems answering

lemma query_reply_proper [simp]: "proper (query_reply tlib raw res)"
  by (simp add: query_reply_def split: sum.split option.split)

lemma send_reply_proper [simp]: "proper (send_reply r)"
  by (simp add: send_reply_def split: option.split)

lemma joined_proper [simp]: "proper (joined_result i)"
  by (simp add: joined_result_def)

lemma answers_connect [answering]: "answers c req (snd (handleADNLConnect net tlib c req b))"
  unfolding handleADNLConnect_def
proof (rule answers_handler)
  show "fails_proper (connect_checks (cfg b) tlib req)"
    unfolding connect_checks_def by (intro proper_intros; simp)
qed (auto simp: answers_reuse answers_connectNew split: prod.split option.split)

lemma answers_connectByADNL [answering]: "answers c req (snd (handleADNLConnectByADNL net c req b))"
  unfolding handleADNLConnectByADNL_def
proof (rule answers_handler)
  show "fails_proper (connect_by_adnl_checks req)"
    unfolding connect_by_adnl_checks_def by (intro proper_intros; simp)
qed (auto simp: answers_reuse answers_connectByADNLNew Let_def split: option.split)

lemma answers_disconnect [answering]: "answers c req (snd (handleADNLDisconnect c req b))"
  unfolding handleADNLDisconnect_def
proof (rule answers_handler)
  show "fails_proper (disconnect_checks b c req)"
    unfolding disconnect_checks_def Let_def by (intro proper_intros; simp)
next
  fix x :: "string \<times> peer"
  obtain k p where x: "x = (k, p)" by (cases x)
  obtain b' es r where d: "detachPeerLocked k p b = ((b', es), r)" by (metis surj_pair)
  with silent_detach [OF d] x show "answers c req (snd (case x of (k, p) \<Rightarrow>
      case detachPeerLocked k p b of
        ((b', es), None) \<Rightarrow> (b', es @ reply_to c req (bad (Lit ''peer changed during disconnect'')))
      | ((b', es), Some _) \<Rightarrow>
          (b', es @ ClosePeer p # reply_to c req (Result (JObj [(''disconnected'', JBool True)])))))"
    by (cases r) (simp_all add: answers_silent_head)
qed

lemma answers_adnl_simple [answering]:
  "answers c req (snd (handleADNLSendMessage net c req b))"
  "answers c req (snd (handleADNLPing net c req b))"
  "answers c req (snd (handleADNLSetQueryHandler c req b))"
  unfolding handleADNLSendMessage_def handleADNLPing_def handleADNLSetQueryHandler_def
  by (rule answers_handler, intro proper_intros; auto split: option.split sum.split)+

lemma answers_peers [answering]: "answers c req (snd (handleADNLPeers net c req b))"
  by (simp add: handleADNLPeers_def Let_def)

lemma answers_query [answering]: "answers c req (snd (handleADNLQuery net tlib c req b))"
  unfolding handleADNLQuery_def
proof (rule answers_handler)
  show "fails_proper (query_checks tlib b c req)"
    unfolding query_checks_def by (intro proper_intros; simp)
qed (auto simp: Let_def split: prod.split)

lemma answer_lookup_proper: "answer_lookup now c q b = (b', Inl r) \<Longrightarrow> proper r"
  by (auto simp: answer_lookup_def split: option.split_asm if_split_asm)

lemma answers_answer [answering]: "answers c req (snd (answerQuery net tlib now other c req b))"
  unfolding answerQuery_def
proof (rule answers_handler)
  show "fails_proper (answer_checks tlib req)"
    unfolding answer_checks_def by (intro proper_intros; simp)
qed (auto simp: Let_def answer_lookup_proper split: prod.split sum.split option.split)

section \<open>The overlay namespace\<close>

lemma rejoin_proper [simp]: "proper (rejoin b c ov k i)"
  by (simp add: rejoin_def)

lemma answers_join [answering]: "answers c req (snd (handleOverlayJoin net c req b))"
proof -
  have "fails_proper (join_params req)" "fails_proper (join_checks b c k)" for k
    unfolding join_params_def join_checks_def by (intro proper_intros; simp)+
  then show ?thesis
    unfolding handleOverlayJoin_def
    by (intro answers_handler) (auto intro!: answers_handler simp: Let_def split: prod.split sum.split)
qed

lemma replies_close [simp]: "replies (closeOverlay ow) = []"
  by (simp add: closeOverlay_def split: option.split)

lemma answers_overlay_simple [answering]:
  "answers c req (snd (handleOverlayLeave c req b))"
  "answers c req (snd (handleOverlayGetPeers net c req b))"
  "answers c req (snd (handleOverlaySendMessage net c req b))"
  "answers c req (snd (handleOverlaySendRaw net tlib c req b))"
  unfolding handleOverlayLeave_def handleOverlayGetPeers_def handleOverlaySendMessage_def
    handleOverlaySendRaw_def Let_def
  by (rule answers_handler, intro proper_intros; auto simp: answers_silent_head split: sum.split)+

lemma answers_broadcast [answering]: "answers c req (snd (handleOverlayBroadcast net c req b))"
  unfolding handleOverlayBroadcast_def
proof (rule answers_handler)
  show "fails_proper (broadcast_checks b c req)"
    unfolding broadcast_checks_def by (intro proper_intros; simp)
qed (auto simp: start_broadcast_def too_many_broadcasts_def split: prod.split option.split sum.split)

lemma answers_overlay_query [answering]: "answers c req (snd (handleOverlayQuery net tlib c req b))"
  unfolding handleOverlayQuery_def
proof (rule answers_handler)
  show "fails_proper (overlay_query_checks tlib b c req)"
    unfolding overlay_query_checks_def by (intro proper_intros; simp)
qed (auto simp: Let_def split: prod.split)

lemma answers_set_handler [answering]: "answers c req (snd (fst (handleOverlaySetQueryHandler c req b)))"
proof -
  have "fails_proper (set_handler_checks b c req)"
    unfolding set_handler_checks_def Let_def by (intro proper_intros; simp)
  then show ?thesis by (auto simp: handleOverlaySetQueryHandler_def fails_proper_def split: sum.split)
qed

lemma answers_run_adnl: "answers c req (snd (run_adnl e m c req b))"
  by (cases m) (simp_all add: run_adnl_def answering handleADNLAnswer_def)

lemma answers_run_overlay: "answers c req (snd (run_overlay e m c req b))"
  by (cases m) (simp_all add: run_overlay_def answering handleOverlayAnswer_def)

section \<open>The services\<close>

lemma proper_serialize [simp]:
  "proper (Result (serializeTransaction tlib tx))" "proper (Result (channel_json tlib ch))"
  by (simp_all add: serializeTransaction_def channel_json_def)

lemma ends_service_heads [proper_intros]:
  "(\<And>n. ends_proper (k1 n)) \<Longrightarrow> ends_proper (with_shard s k1)"
  "(\<And>h. ends_proper (k2 h)) \<Longrightarrow> ends_proper (with_msg_hash s k2)"
  "(\<And>n. ends_proper (k4 n)) \<Longrightarrow> ends_proper (with_network_time api k4)"
  "(\<And>n. ends_proper (k5 n)) \<Longrightarrow> ends_proper (with_prepared_config em api blk k5)"
  "(\<And>p. ends_proper (k6 p)) \<Longrightarrow> ends_proper (with_token_params tfs req k6)"
  "(\<And>a. ends_proper (k7 a)) \<Longrightarrow> ends_proper (named_address tlib nm s k7)"
  "(\<And>n. ends_proper (k8 n)) \<Longrightarrow> ends_proper (with_index s k8)"
  "(\<And>st. ends_proper (k9 st)) \<Longrightarrow> ends_proper (run_getter api addr nm k9)"
  unfolding with_shard_def with_msg_hash_def with_network_time_def with_prepared_config_def
    with_token_params_def named_address_def with_index_def run_getter_def
  by (intro proper_intros; simp)+

lemma ends_block_heads [proper_intros]:
  "(\<And>blk. ends_proper (k1 blk)) \<Longrightarrow> ends_proper (with_block api prm k1)"
  "(\<And>a. ends_proper (k2 a)) \<Longrightarrow> ends_proper (with_token_address tlib req k2)"
  unfolding with_block_def with_token_address_def by (intro proper_intros; simp)+

lemma ends_with_after [proper_intros]:
  "(\<And>a. ends_proper (k a)) \<Longrightarrow> ends_proper (with_after x k)"
  by (cases x) (auto simp: with_after_def intro!: proper_intros split: sum.split)

lemma fails_service_heads [proper_intros]:
  "(\<And>n. fails_proper (k4 n)) \<Longrightarrow> fails_proper (with_network_time api k4)"
  "(\<And>n. fails_proper (k5 n)) \<Longrightarrow> fails_proper (with_prepared_config em api blk k5)"
  "(\<And>p. fails_proper (k6 p)) \<Longrightarrow> fails_proper (with_token_params tfs req k6)"
  "(\<And>a. fails_proper (k7 a)) \<Longrightarrow> fails_proper (named_address tlib nm s k7)"
  "(\<And>n. fails_proper (k8 n)) \<Longrightarrow> fails_proper (with_index s k8)"
  unfolding with_network_time_def with_prepared_config_def with_token_params_def named_address_def
    with_index_def
  by (intro proper_intros; simp)+

named_theorems proper_handlers

lemma block_handlers_proper [proper_handlers]:
  "proper (handleGetMasterchainInfo api)" "proper (handleGetTime api)"
  "proper (handleLookupBlock api req)" "proper (handleGetBlockData tlib api req)"
  "proper (handleGetBlockHeader tlib api req)" "proper (handleGetShards api)"
  "proper (handleGetBlockTransactions api req)" "proper (handleGetAccountState tlib api req)"
  "proper (handleFindTxByInMsgHash tlib api req)" "proper (handleFindTxByOutMsgHash tlib api req)"
  unfolding handleGetMasterchainInfo_def handleGetTime_def handleLookupBlock_def handleGetBlockData_def
    handleGetBlockHeader_def handleGetShards_def handleGetBlockTransactions_def handleGetAccountState_def
    handleFindTxByInMsgHash_def handleFindTxByOutMsgHash_def
  by (intro finish_proper proper_intros; simp)+

lemma convert_args_proper: "fails_proper (convert_args tlib i vs)"
proof (induction vs arbitrary: i)
  case (Cons v vs)
  show ?case unfolding convert_args.simps by (intro proper_intros Cons.IH; simp)
qed simp

lemma run_method_proper [proper_handlers]: "proper (handleRunMethod tlib api req)"
  unfolding handleRunMethod_def by (intro finish_proper proper_intros convert_args_proper; simp)

lemma list_start_proper: "fails_proper (list_start api addr prm)"
proof -
  have "fails_proper (if lp_last_lt prm \<noteq> [] then
       attempt (parse_uint 10 (lp_last_lt prm)) (\<lambda>e. bad (Wrap ''invalid last_lt: '' e)) (\<lambda>lt.
       attempt (hex_decode (lp_last_hash prm)) (\<lambda>e. bad (Wrap ''invalid last_hash hex: '' e)) (\<lambda>h.
       require (length h = 32) (bad (Lit ''last_hash must be 32 bytes'')) (Inr (Some (lt, Some h)))))
     else
       with_master api (\<lambda>blk.
       with_account api blk addr (\<lambda>acc.
       Inr (if LastTxLT acc = 0 then None else Some (LastTxLT acc, LastTxHash acc)))))"
    by (auto intro!: proper_intros)
  then show ?thesis unfolding list_start_def by (intro fails_require) simp_all
qed

lemma ends_option [proper_intros]:
  "ends_proper n \<Longrightarrow> (\<And>x. ends_proper (k x)) \<Longrightarrow> ends_proper (case y of None \<Rightarrow> n | Some x \<Rightarrow> k x)"
  by (cases y) simp_all

text \<open>The nested patterns of the source become a case on the option inside the case on the sum.\<close>

lemma get_transactions_proper [proper_handlers]: "proper (handleGetTransactions tlib api req)"
  unfolding handleGetTransactions_def
  by (intro finish_proper proper_intros list_start_proper; simp)

lemma get_transaction_proper: "handleGetTransaction tlib api req = Some r \<Longrightarrow> proper r"
proof -
  have "fails_proper (get_tx_checks tlib api req)"
    unfolding get_tx_checks_def by (intro proper_intros; simp)
  then show "handleGetTransaction tlib api req = Some r \<Longrightarrow> proper r"
    by (auto simp: handleGetTransaction_def split: sum.split_asm option.split_asm)
qed

lemma blockchain_config_proper [proper_handlers]: "proper (handleGetBlockchainConfig tlib api req)"
proof -
  have "fails_proper (config_ids req)"
    unfolding config_ids_def by (auto intro!: proper_intros split: option.split json.split)
  then have "ends_proper (case config_ids req of
        Inl r \<Rightarrow> Inl r
      | Inr ids \<Rightarrow>
         with_master api (\<lambda>blk.
         attempt (GetBlockchainConfig api blk ids) (\<lambda>e. failed (Wrap ''failed to get blockchain config: '' e)) (\<lambda>cf.
         Inr (Result (JObj [(''params'', JObj
           (if ids \<noteq> [] then map (config_entry tlib cf) (remdups ids)
            else map (\<lambda>(k, x). (show_int k, jboc tlib x)) (cfg_All cf)))])))))"
    by (auto intro!: proper_intros split: sum.split)
  then show ?thesis unfolding handleGetBlockchainConfig_def by (rule finish_proper)
qed

lemma decode_hashes_proper: "fails_proper (decode_hashes i hs)"
proof (induction hs arbitrary: i)
  case (Cons h hs)
  show ?case unfolding decode_hashes.simps by (intro proper_intros Cons.IH; simp)
qed simp

lemma libraries_proper: "handleGetLibraries tlib api req = Some r \<Longrightarrow> proper r"
proof -
  have "fails_proper (with_lite_params [l_hashes] req (\<lambda>prm. Inr (lp_hashes prm)))"
    by (intro proper_intros) simp
  then show "handleGetLibraries tlib api req = Some r \<Longrightarrow> proper r"
    using decode_hashes_proper
    by (auto simp: handleGetLibraries_def fails_proper_def split: sum.split_asm if_split_asm)
qed

lemma send_proper [answering]: "answers c req (send_boc tlib api c req)"
proof -
  have "fails_proper (send_checks tlib req)" unfolding send_checks_def by (intro proper_intros; simp)
  then show ?thesis by (auto simp: send_boc_def split: sum.split)
qed

subsection \<open>Emulation\<close>

lemma emulation_checks_proper: "fails_proper (emulate_checks tlib req)"
  unfolding emulate_checks_def Let_def by (auto intro!: proper_intros)

lemma emulate_external_proper: "fails_proper (emulate_external tlib em code data cl ec)"
  unfolding emulate_external_def by (intro proper_intros; simp)

lemma run_emulation_proper: "fails_proper (run_emulation tlib em api x)"
  unfolding run_emulation_def Let_def
  by (auto intro!: proper_intros emulate_external_proper split: option.split)

lemma emulate_message_proper: "handleEmulateMessage tlib em api req = Some r \<Longrightarrow> proper r"
  using emulation_checks_proper [of tlib req] run_emulation_proper [of tlib em api]
  by (auto simp: handleEmulateMessage_def fails_proper_def emulation_report_def
      split: sum.split_asm option.split_asm)

lemma transaction_report_proper [simp]: "proper (transaction_report tlib r)"
  by (simp add: transaction_report_def Let_def split: option.split sum.split)

lemma emulate_transaction_proper [proper_handlers]: "proper (handleEmulateTransaction tlib em api req)"
  unfolding handleEmulateTransaction_def by (intro finish_proper proper_intros; simp)

subsection \<open>The dht, token and dns namespaces\<close>

lemma store_addresses_proper: "fails_proper (store_addresses cf dht as)"
proof (induction as)
  case (Cons a as)
  show ?case unfolding store_addresses.simps by (intro proper_intros Cons.IH; simp)
qed simp

lemma store_nodes_proper: "fails_proper (store_nodes ns)"
proof (induction ns)
  case (Cons n ns)
  show ?case unfolding store_nodes.simps by (intro proper_intros Cons.IH; simp)
qed simp

lemma store_checks_proper:
  "fails_proper (store_address_checks cf dht req)" "fails_proper (store_nodes_checks cf req)"
  unfolding store_address_checks_def store_nodes_checks_def
  by (intro proper_intros store_addresses_proper store_nodes_proper; simp)+

lemma stored_proper [simp]: "proper (stored_result name x)"
  by (simp add: stored_result_def)

lemma find_proper:
  "ends_proper (handleFindAddresses dht req)" "ends_proper (handleFindOverlayNodes dht req)"
  "ends_proper (handleDHTFindValue dht req)" "ends_proper (handleFindTunnelNodes sha256 dht)"
  unfolding handleFindAddresses_def handleFindOverlayNodes_def handleDHTFindValue_def
    handleFindTunnelNodes_def Let_def
  by (intro proper_intros; simp)+

lemma answers_store:
  "answers c req (snd (handleDHTStoreAddress dht c req b))"
  "answers c req (snd (handleDHTStoreOverlayNodes dht c req b))"
  unfolding handleDHTStoreAddress_def handleDHTStoreOverlayNodes_def
  by (rule answers_handler [OF store_checks_proper(1)], simp split: prod.split sum.split)
     (rule answers_handler [OF store_checks_proper(2)], simp split: prod.split sum.split)

lemma answers_dht: "answers c req (snd (dht_service be m c req b))"
  by (cases m) (simp_all add: dht_service_def Let_def answers_store find_proper finish_proper)

lemma content_checks_proper: "fails_proper (content_checks tlib ct req)"
  unfolding content_checks_def by (intro proper_intros; simp)

lemma token_handlers_proper [proper_handlers]:
  "proper (handleJettonGetData tlib ct req)" "proper (handleJettonGetWalletAddress tlib ct req)"
  "proper (handleJettonGetBalance tlib api ct req)" "proper (handleNFTGetData tlib ct req)"
  "proper (handleNFTGetCollectionData tlib ct req)" "proper (handleNFTGetAddressByIndex tlib ct req)"
  "proper (handleNFTGetRoyaltyParams tlib ct req)" "proper (handleWalletGetSeqno tlib api req)"
  "proper (handleWalletGetPublicKey tlib ct req)" "proper (handleSBTGetRevokedTime tlib api req)"
  "proper (handlePaymentGetChannelState tlib ct req)"
  unfolding handleJettonGetData_def handleJettonGetWalletAddress_def handleJettonGetBalance_def
    handleNFTGetData_def handleNFTGetCollectionData_def handleNFTGetAddressByIndex_def
    handleNFTGetRoyaltyParams_def handleWalletGetSeqno_def handleWalletGetPublicKey_def
    handleSBTGetRevokedTime_def handlePaymentGetChannelState_def
  by (intro finish_proper proper_intros; simp)+

lemma content_proper [proper_handlers]: "proper (handleNFTGetContent tlib ct req)"
  using content_checks_proper [of tlib ct req]
  by (auto simp: handleNFTGetContent_def fails_proper_def split: sum.split)

lemma authority_proper [proper_handlers]: "proper (handleSBTGetAuthorityAddress tlib api ct req)"
proof -
  have "ends_proper (case stack of
          [] \<Rightarrow> Inl (failed (Lit ''empty result from get_authority_address''))
        | SSlice (Some s) # _ \<Rightarrow>
            attempt (LoadAddr ct s) (\<lambda>e. failed (Wrap ''failed to load authority address: '' e)) (\<lambda>a.
            Inr (Result (JObj [(''authority'', addressStringOrNil tlib a)])))
        | _ \<Rightarrow> Inr (Result (JObj [(''authority'', JNull)])))" for stack
    by (auto intro!: proper_intros split: list.split stack_value.split option.split)
  then show ?thesis
    unfolding handleSBTGetAuthorityAddress_def by (intro finish_proper ends_service_heads ends_block_heads)
qed

lemma resolve_proper [proper_handlers]: "proper (handleDNSResolve tlib dl api req)"
  unfolding handleDNSResolve_def resolved_json_def Let_def
  by (intro finish_proper proper_intros; simp)

lemma network_info_proper [proper_handlers]: "proper (handleNetworkInfo dht b)"
  by (simp add: handleNetworkInfo_def Let_def)

subsection \<open>Subscriptions\<close>

text \<open>Opening a subscription fails properly or confirms it with an object.\<close>

definition opens :: "(json \<times> 'l) checked \<Rightarrow> bool" where
  "opens x \<longleftrightarrow> (case x of Inl r \<Rightarrow> proper r | Inr (j, _) \<Rightarrow> proper (Result j))"

lemma opens_simps [simp]: "opens (Inl r) = proper r" "opens (Inr (JObj fs, l))"
  by (simp_all add: opens_def)

lemma opens_attempt: "(\<And>e. proper (f e)) \<Longrightarrow> (\<And>x. opens (k x)) \<Longrightarrow> opens (attempt r f k)"
  by (cases r) simp_all

lemma opens_heads:
  "(\<And>m. opens (k8 m)) \<Longrightarrow> opens (with_master api k8)"
  "(\<And>a. opens (k9 a)) \<Longrightarrow> opens (with_account api blk addr k9)"
  unfolding with_master_def with_account_def by (intro opens_attempt; simp)+

lemma answers_subscribing_with:
  assumes "proper full" "fails_proper checks"
    and "\<And>x i. opens (snd (ostep x i))" "\<And>x i. replies (fst (ostep x i)) = []"
  shows "answers c req (snd (fst (subscribing_with full c req checks ostep b)))"
proof -
  obtain b1 ok where e: "enterSub c b = (b1, ok)" by (cases "enterSub c b")
  show ?thesis
  proof (cases ok)
    case False
    with e assms(1) show ?thesis by (simp add: subscribing_with_def)
  next
    case True
    show ?thesis
    proof (cases checks)
      case (Inl r)
      with e True assms(2) show ?thesis by (simp add: subscribing_with_def)
    next
      case (Inr x)
      obtain n b2 where r: "registerSub c b1 = (n, b2)" by (cases "registerSub c b1")
      obtain es o' where o: "ostep x (sub_id n) = (es, o')" by (cases "ostep x (sub_id n)")
      from assms(3,4) [of x "sub_id n"] o have "opens o'" "replies es = []" by simp_all
      with e True Inr r o show ?thesis
        by (auto simp: subscribing_with_def answers_silent_head opens_def split: sum.split)
    qed
  qed
qed

lemma answers_subscribing:
  assumes "proper full" "fails_proper checks" "\<And>x i. opens (ostep x i)"
  shows "answers c req (snd (fst (subscribing full c req checks ostep b)))"
  unfolding subscribing_def using assms by (intro answers_subscribing_with) simp_all

lemma full_proper [simp]: "proper too_many_subs" "proper (too_many_subs_max b)"
  by (simp_all add: too_many_subs_def too_many_subs_max_def)

lemma subscribe_checks_proper:
  "fails_proper (tx_checks tlib req)" "fails_proper (trace_checks tlib ns req)"
  "fails_proper (multi_params b req)"
  unfolding tx_checks_def trace_checks_def multi_params_def Let_def by (intro proper_intros; simp)+

lemma watch_checks_proper: "fails_proper (watch_checks tlib req)"
  unfolding watch_checks_def by (auto intro!: proper_intros split: option.split)

lemma multi_entries_proper: "fails_proper (multi_entries tlib i es)"
proof (induction es arbitrary: i)
  case (Cons e es)
  show ?case unfolding multi_entries.simps by (intro proper_intros Cons.IH; simp)
qed simp

lemma answers_multi [answering]: "answers c req (snd (fst (handleSubscribeMultiAccount tlib api c req b)))"
proof (cases "multi_params b req")
  case (Inl r)
  with subscribe_checks_proper(3) [of b req] show ?thesis
    by (simp add: handleSubscribeMultiAccount_def)
next
  case (Inr accounts)
  then show ?thesis
    by (simp add: handleSubscribeMultiAccount_def)
       (rule answers_subscribing; simp add: multi_entries_proper subscribed_fields_def)
qed

lemma answers_opening [answering]:
  "answers c req (snd (fst (handleSubscribeTransactions tlib c req b)))"
  "answers c req (snd (fst (handleSubscribeBlocks api c req b)))"
  "answers c req (snd (fst (handleSubscribeAccountState tlib api c req b)))"
  "answers c req (snd (fst (handleSubscribeNewTransactions api c req b)))"
  "answers c req (snd (fst (handleSubscribeConfigChanges tlib api c req b)))"
  "answers c req (snd (fst (handleSubscribeTrace tlib api c req b)))"
  unfolding handleSubscribeTransactions_def handleSubscribeBlocks_def handleSubscribeAccountState_def
    handleSubscribeNewTransactions_def handleSubscribeConfigChanges_def handleSubscribeTrace_def
    Let_def start_seqno_def subscribed_fields_def
  by (rule answers_subscribing;
      auto intro!: opens_heads opens_attempt proper_intros subscribe_checks_proper split: prod.split)+

lemma opens_watch: "opens (snd (open_watch tlib api cl ext dst i))" "replies (fst (open_watch tlib api cl ext dst i)) = []"
  by (simp_all add: open_watch_def split: sum.split option.split)

lemma answers_watch [answering]: "answers c req (snd (fst (handleSendAndWatch tlib api c req b)))"
  unfolding handleSendAndWatch_def
  by (rule answers_subscribing_with; auto simp: watch_checks_proper opens_watch split: prod.split)

lemma answers_open: "open_service be m c req b = Some r \<Longrightarrow> answers c req (snd (fst r))"
  by (auto simp: open_service_def Let_def answering
      split: rpc_method.split_asm subscribe_method.split_asm lite_method.split_asm)

lemma answers_unsubscribe: "answers c req (snd (fst (handleUnsubscribe c req b)))"
  by (simp add: handleUnsubscribe_def Let_def split: sum.split option.split)

section \<open>Every request\<close>

lemma answers_effects: "a \<noteq> Silent \<Longrightarrow> (\<And>r. a = Answers r \<Longrightarrow> proper r) \<Longrightarrow> answers c req (answer_effects c req a)"
  by (cases a) (simp_all add: answer_effects_def proper_def)

text \<open>The two handlers that walk a list of cells or pages without a bound of their own.\<close>

definition still_walking :: "backend \<Rightarrow> rpc_method \<Rightarrow> WSRequest \<Rightarrow> bool" where
  "still_walking be m req \<longleftrightarrow>
     m = Lite_call Lite_GetTransaction \<and> handleGetTransaction (be_lib be) (be_api be) req = None
     \<or> m = Lite_call Lite_EmulateMessage
        \<and> handleEmulateMessage (be_lib be) (be_emulator be) (be_api be) req = None"

lemma lite_answer_proper:
  assumes "open_service be (Lite_call l) c req b = None" "l \<noteq> Lite_SendMessage" "l \<noteq> Lite_SendMessageWait"
    and "\<not> still_walking be (Lite_call l) req"
  shows "lite_answer be l req \<noteq> Silent \<and> (\<forall>r. lite_answer be l req = Answers r \<longrightarrow> proper r)"
  using assms
  by (cases l) (auto simp: lite_answer_def Let_def open_service_def still_walking_def returned_def
      proper_handlers get_transaction_proper emulate_message_proper libraries_proper split: option.splits)

lemma token_answer_proper:
  assumes "\<forall>a. m \<noteq> Subscribe_call a" "\<forall>a. m \<noteq> Dht_call a" "\<forall>a. m \<noteq> Lite_call a"
    and "\<forall>a. m \<noteq> Adnl_call a" "\<forall>a. m \<noteq> Overlay_call a"
  shows "token_answer be m req b \<noteq> Silent \<and> (\<forall>r. token_answer be m req b = Answers r \<longrightarrow> proper r)"
  using assms
  by (auto simp: token_answer_def Let_def proper_handlers
      split: rpc_method.split jetton_method.split nft_method.split wallet_method.split sbt_method.split
        payment_method.split dns_method.split network_method.split)

lemma answers_service:
  assumes "\<forall>a. m \<noteq> Adnl_call a" "\<forall>a. m \<noteq> Overlay_call a" "\<not> still_walking be m req"
  shows "answers c req (snd (run_service be m c req b))"
proof (cases "open_service be m c req b")
  case (Some x)
  with answers_open [OF Some] show ?thesis by (cases x) (simp add: run_service_def)
next
  case none: None
  show ?thesis
  proof (cases m)
    case (Lite_call l)
    show ?thesis
    proof (cases "l = Lite_SendMessage \<or> l = Lite_SendMessageWait")
      case True
      with none Lite_call show ?thesis
        by (auto simp: run_service_def handleSendMessage_def handleSendMessageWait_def send_proper)
    next
      case False
      with none Lite_call assms(3) lite_answer_proper [of be l c req b]
      have "answers c req (answer_effects c req (lite_answer be l req))" by (intro answers_effects) auto
      with none Lite_call False show ?thesis by (cases l) (simp_all add: run_service_def)
    qed
  next
    case (Dht_call d)
    with none show ?thesis by (simp add: run_service_def answers_dht)
  next
    case (Subscribe_call s)
    with none show ?thesis by (simp add: run_service_def answers_unsubscribe)
  qed (use none assms token_answer_proper [where m = m and be = be and req = req and b = b] in \<open>auto simp: run_service_def intro!: answers_effects\<close>)
qed

lemma answers_request:
  assumes "env_service e = run_service be"
    and "\<And>m. route (cfg b) (req_method req) = Some m \<Longrightarrow> \<not> still_walking be m req"
  shows "answers c req (snd (handleRequest e c req b))"
proof (cases "route (cfg b) (req_method req)")
  case None
  then show ?thesis by (simp add: handleRequest_def unknown_method_def)
next
  case (Some m)
  then show ?thesis
    using assms
    by (cases m) (simp_all add: handleRequest_def run_method_def answers_run_adnl answers_run_overlay answers_service)
qed

text \<open>
  C8: every request gets exactly one reply, to the client that sent it and under its own
  identifier, whatever the liteservers, peers and libraries answer and whatever the parameters of
  the request are: an object as result, or an error with the code of an unknown method, of
  invalid parameters or of an internal error. The only requests without a reply are those of the
  two methods whose walk along the history of an account or the list of actions has not ended.
\<close>
theorem one_typed_reply:
  assumes "env_service e = run_service be"
    and "\<And>m. route (cfg b) (req_method req) = Some m \<Longrightarrow> \<not> still_walking be m req"
  shows "\<exists>r. filter is_reply (snd (handleRequest e c req b)) = [Reply c (req_id req) r]
    \<and> (case r of Result j \<Rightarrow> \<exists>fs. j = JObj fs
       | Error code _ \<Rightarrow> code \<in> {-32601, -32602, -32603})"
proof -
  from answers_request [where c = c, OF assms] obtain r where "proper r"
    and "replies (snd (handleRequest e c req b)) = [Reply c (req_id req) r]" unfolding answers_def by blast
  then show ?thesis
    by (auto simp: replies_def proper_def method_not_found_def invalid_params_def internal_error_def
        split: reply.split_asm)
qed

text \<open>A request for a jetton balance, answered by a server that has no block.\<close>

definition balance_request :: WSRequest where
  "balance_request = \<lparr>req_jsonrpc = ''2.0'', req_id = ''7'', req_method = ''jetton.getBalance'',
     req_params = Some (JObj [(''jetton_wallet'', JStr [])])\<rparr>"

theorem one_typed_reply_witness:
  "\<forall>e be. \<exists>r. filter is_reply (snd (handleRequest (e\<lparr>env_service := run_service be\<rparr>) 3 balance_request (NewWSBridge None)))
     = [Reply 3 ''7'' r]"
proof (intro allI)
  fix e be
  have rt: "route DefaultBridgeConfig ''jetton.getBalance'' = Some (Jetton_call Jetton_GetBalance)"
    by (simp add: route_def namespaceEnabled_def ns_prefix_def method_table_def DefaultBridgeConfig_def
        DefaultNamespaces_def)
  then show "\<exists>r. filter is_reply (snd (handleRequest (e\<lparr>env_service := run_service be\<rparr>) 3 balance_request (NewWSBridge None)))
     = [Reply 3 ''7'' r]"
    using one_typed_reply [of "e\<lparr>env_service := run_service be\<rparr>" be "NewWSBridge None" balance_request 3]
    by (auto simp: NewWSBridge_def balance_request_def still_walking_def)
qed

end
