(* ===== verification/WorldProps.thy ===== *)
theory WorldProps
  imports SubWorld ServerConfig
begin

text \<open>
  What the slots promise to a client: the counters mean what they say, every running subscription
  can be found by its id, and with a configuration that validates the client can always send the
  request that ends one.
\<close>

lemma demo_world_default:
  obtains w where "world_reachable DefaultBridgeConfig w" "sw_tasks w 0 = [(1, BlockLoop 1)]"
    "sw_short w 0 = 0" "sw_cancelled w 0 = {}"
proof -
  have "\<exists>w. world_reachable DefaultBridgeConfig w \<and> sw_tasks w 0 = [(1, BlockLoop 1)] \<and> sw_short w 0 = 0 \<and> sw_cancelled w 0 = {}"
    by (rule demo_world) (simp_all add: DefaultBridgeConfig_def DefaultNamespaces_def)
  with that show thesis by blast
qed

lemma default_limit: "countable_limit DefaultBridgeConfig"
  using to_int32_id [of 50] by (simp add: countable_limit_def DefaultBridgeConfig_def DefaultNamespaces_def)

lemma registered_subscription:
  assumes "world_reachable cf w" "countable_limit cf" "(n, l) \<in> set (sw_tasks w c)" "n \<notin> sw_cancelled w c"
  shows "gm_get (subscriptions (heap (sw_bridge w) c)) (sub_id n) = Some n"
proof -
  have "registry_ok (subscriptions (heap (sw_bridge w) c)) (map fst (sw_tasks w c)) (sw_cancelled w c)"
    using world_client [OF world_reachable_inv [OF assms(1,2)], of c] by (simp add: client_inv_def slot_view_def)
  moreover have "n \<in> set (map fst (sw_tasks w c)) - sw_cancelled w c" using assms(3,4) by force
  ultimately show ?thesis unfolding registry_ok_def by blast
qed

lemma registry_entry:
  assumes "world_reachable cf w" "countable_limit cf" "gm_get (subscriptions (heap (sw_bridge w) c)) key = Some n"
  shows "key = sub_id n \<and> n \<in> fst ` set (sw_tasks w c)"
proof -
  have "registry_ok (subscriptions (heap (sw_bridge w) c)) (map fst (sw_tasks w c)) (sw_cancelled w c)"
    using world_client [OF world_reachable_inv [OF assms(1,2)], of c] by (simp add: client_inv_def slot_view_def)
  with assms(3) show ?thesis unfolding registry_ok_def set_map by blast
qed

lemma slot_counts:
  assumes "world_reachable cf w" "countable_limit cf"
  shows "counts_ok cf (activeSubs (heap (sw_bridge w) c)) (inflight (heap (sw_bridge w) c))
    (length (sw_tasks w c)) (sw_short w c)"
  using world_client [OF world_reachable_inv [OF assms], of c] by (simp add: client_inv_def slot_view_def)

text \<open>
  C16: the modelled handlers of every namespace other than adnl and overlay touch nothing of the
  bridge but the subscription counter and registry of the requesting client, and write frames to
  no other client.
\<close>
theorem services_confined:
  "(\<exists>f. fst (run_service be m c req b) = upd_client c f b
      \<and> (\<forall>w. peers (f w) = peers w \<and> overlays (f w) = overlays w \<and> inflight (f w) = inflight w
            \<and> broadcasts (f w) = broadcasts w \<and> ctx_done (f w) = ctx_done w))
   \<and> list_all (\<lambda>e. addressee e \<in> {None, Some c}) (snd (run_service be m c req b))"
  using service_served [of c b be m req]
  by (auto simp: served_def subs_only_def same_but_subs_def private_frames_def list_all_iff)

text \<open>
  C4: in every reachable state and for every client, the subscription counter is the number of its
  running subscriptions and stays within the configured maximum, the in-flight semaphore holds one
  token per running subscription and per other request and stays within its capacity, every entry
  of the registry names a running subscription of that client, and every running subscription that
  has not been cancelled is registered under its id. The limit of subscriptions is below
  \<open>2 ^ 31 - 1\<close>, as the counter is an \<open>int32\<close>; the test of the counter is one step here, and its
  atomic operations are taken apart in SlotRace.
\<close>
theorem slots_match_subscriptions:
  assumes "world_reachable cf w" and "countable_limit cf"
  shows "activeSubs (heap (sw_bridge w) c) = int (length (sw_tasks w c))
    \<and> activeSubs (heap (sw_bridge w) c) \<le> max 0 (to_int32 (MaxSubscriptions (Subscribe (Namespaces cf))))
    \<and> inflight (heap (sw_bridge w) c) = length (sw_tasks w c) + sw_short w c
    \<and> int (inflight (heap (sw_bridge w) c)) \<le> max 0 (MaxInflight cf)
    \<and> (\<forall>key n. gm_get (subscriptions (heap (sw_bridge w) c)) key = Some n \<longrightarrow>
          key = sub_id n \<and> n \<in> fst ` set (sw_tasks w c))
    \<and> (\<forall>(n, l) \<in> set (sw_tasks w c). n \<notin> sw_cancelled w c \<longrightarrow>
          gm_get (subscriptions (heap (sw_bridge w) c)) (sub_id n) = Some n)"
  using slot_counts [OF assms, of c] registry_entry [OF assms, of c] registered_subscription [OF assms, of _ _ c]
  unfolding counts_ok_def by blast

theorem slots_match_subscriptions_witness:
  "\<exists>w :: sub_world. activeSubs (heap (sw_bridge w) 0) = 1 \<and> inflight (heap (sw_bridge w) 0) = 1
     \<and> gm_get (subscriptions (heap (sw_bridge w) 0)) (sub_id 1) = Some 1"
proof -
  obtain w where w: "world_reachable DefaultBridgeConfig w" "sw_tasks w 0 = [(1, BlockLoop 1)]"
    "sw_short w 0 = 0" "sw_cancelled w 0 = {}" by (rule demo_world_default)
  note all = slots_match_subscriptions [OF w(1) default_limit, of 0]
  have "activeSubs (heap (sw_bridge w) 0) = 1" "inflight (heap (sw_bridge w) 0) = 1"
    using all w(2,3) by simp_all
  moreover have "(1, BlockLoop 1) \<in> set (sw_tasks w 0)" "1 \<notin> sw_cancelled w 0" using w(2,4) by simp_all
  then have "gm_get (subscriptions (heap (sw_bridge w) 0)) (sub_id 1) = Some 1" using all by blast
  ultimately show ?thesis by blast
qed

text \<open>The request that ends a subscription.\<close>

definition unsubscribe_request :: "string \<Rightarrow> nat \<Rightarrow> WSRequest" where
  "unsubscribe_request i n = \<lparr>req_jsonrpc = ''2.0'', req_id = i, req_method = ''subscribe.unsubscribe'',
     req_params = Some (JObj [(''subscription_id'', JStr (sub_id n))])\<rparr>"

lemma unsubscribe_found:
  "gm_get (subscriptions (heap b c)) (sub_id n) = Some n \<Longrightarrow>
   \<exists>b'. handleUnsubscribe c (unsubscribe_request i n) b =
     ((b', [Reply c i (Result (JObj [(''unsubscribed'', JBool True), (''subscription_id'', JStr (sub_id n))]))]), Some n)"
  by (simp add: handleUnsubscribe_def unsubscribe_request_def unsub_fields_def unmarshal_def
      string_field_def reply_to_def Let_def)

text \<open>
  C19: with a configuration that \<open>Validate\<close> accepts and the subscribe namespace on, a client that
  has no other request running always gets a token, even when all its subscription slots are in
  use, and its request to end a running subscription is answered and cancels exactly that one.
  The limit of subscriptions is below \<open>2 ^ 31 - 1\<close>, which \<open>Validate\<close> does not ask for.
\<close>
theorem unsubscribe_always_possible:
  assumes "Validate c0 = Inr ()" and "IsEnabled (cSubscribe (cNamespaces c0))"
    and "cMaxSubscriptions (cSubscribe (cNamespaces c0)) < 2 ^ 31 - 1"
    and "world_reachable (ToWSBridgeConfig c0) w" and "sw_short w c = 0"
    and "(n, l) \<in> set (sw_tasks w c)" and "n \<notin> sw_cancelled w c"
  shows "\<exists>b1 b2. acquire c (sw_bridge w) = Some b1
    \<and> handleUnsubscribe c (unsubscribe_request i n) b1 =
        ((b2, [Reply c i (Result (JObj [(''unsubscribed'', JBool True), (''subscription_id'', JStr (sub_id n))]))]), Some n)"
proof -
  let ?cf = "ToWSBridgeConfig c0" and ?lim = "cMaxSubscriptions (cSubscribe (cNamespaces c0))"
  have valid: "1 \<le> ?lim" "?lim < cMaxInflight (cWebSocket c0)"
    using Validate_valid_config [OF assms(1)] assms(2) by (auto simp: valid_config_def Let_def)
  then have i32: "to_int32 ?lim = ?lim" using assms(3) by (intro to_int32_id) auto
  have cf: "MaxSubscriptions (Subscribe (Namespaces ?cf)) = ?lim" "MaxInflight ?cf = cMaxInflight (cWebSocket c0)"
    by (simp_all add: runtime_defs Let_def)
  have lim: "countable_limit ?cf" using assms(3) by (simp add: countable_limit_def cf i32)
  note inv = world_reachable_inv [OF assms(4) lim]
  note reg = registered_subscription [OF assms(4) lim assms(6,7)]
  have "int (inflight (heap (sw_bridge w) c)) < MaxInflight (cfg (sw_bridge w))"
    using slot_counts [OF assms(4) lim, of c] assms(5) valid inv by (simp add: counts_ok_def cf i32 world_inv_def)
  then obtain b1 where b1: "acquire c (sw_bridge w) = Some b1"
    "b1 = upd_client c (\<lambda>w. w\<lparr>inflight := inflight w + 1\<rparr>) (sw_bridge w)"
    by (simp add: acquire_def)
  have "gm_get (subscriptions (heap b1 c)) (sub_id n) = Some n" using reg by (simp add: b1(2))
  from unsubscribe_found [OF this] b1(1) show ?thesis by blast
qed

theorem unsubscribe_always_possible_witness:
  "\<exists>(w :: sub_world) b1 b2. acquire 0 (sw_bridge w) = Some b1
    \<and> handleUnsubscribe 0 (unsubscribe_request ''2'' 1) b1 =
        ((b2, [Reply 0 ''2'' (Result (JObj [(''unsubscribed'', JBool True), (''subscription_id'', JStr (sub_id 1))]))]), Some 1)"
proof -
  have v: "Validate DefaultConfig = Inr ()"
    using valid_config_Validate [OF DefaultConfig_valid [of None]] by (simp add: DefaultConfig_def)
  have "\<exists>w. world_reachable (ToWSBridgeConfig DefaultConfig) w \<and> sw_tasks w 0 = [(1, BlockLoop 1)] \<and> sw_short w 0 = 0 \<and> sw_cancelled w 0 = {}"
    by (rule demo_world) (simp_all add: runtime_defs default_config_defs Let_def)
  then obtain w where w: "world_reachable (ToWSBridgeConfig DefaultConfig) w" "sw_tasks w 0 = [(1, BlockLoop 1)]"
    "sw_short w 0 = 0" "sw_cancelled w 0 = {}" by blast
  have "IsEnabled (cSubscribe (cNamespaces DefaultConfig))"
    "cMaxSubscriptions (cSubscribe (cNamespaces DefaultConfig)) < 2 ^ 31 - 1"
    by (simp_all add: default_config_defs IsEnabled_def)
  moreover have "(1, BlockLoop 1) \<in> set (sw_tasks w 0)" "1 \<notin> sw_cancelled w 0" using w(2,4) by simp_all
  ultimately show ?thesis using unsubscribe_always_possible [OF v _ _ w(1) w(3)] by blast
qed

text \<open>
  In every reachable state a request to unsubscribe cancels a running subscription of the
  requesting client and no other, and leaves every other client as it is.
\<close>
theorem unsubscribe_stays_own:
  assumes "world_reachable cf w" and "countable_limit cf"
    and "handleUnsubscribe c req (sw_bridge w) = ((b', es), Some n)"
  shows "n \<in> fst ` set (sw_tasks w c) \<and> gm_get (subscriptions (heap b' c)) (sub_id n) = None
    \<and> (\<forall>x. x = c \<or> heap b' x = heap (sw_bridge w) x)"
proof -
  obtain key where key: "gm_get (subscriptions (heap (sw_bridge w) c)) key = Some n"
    "b' = upd_client c (\<lambda>w. w\<lparr>subscriptions := gm_del key (subscriptions w)\<rparr>) (sw_bridge w)"
    using assms(3) by (auto simp: handleUnsubscribe_def Let_def split: sum.split_asm option.split_asm)
  from registry_entry [OF assms(1,2) key(1)] have "key = sub_id n \<and> n \<in> fst ` set (sw_tasks w c)" .
  with key(2) show ?thesis by simp
qed

theorem unsubscribe_stays_own_witness:
  "\<exists>(w :: sub_world) b' es. handleUnsubscribe 0 (unsubscribe_request ''2'' 1) (sw_bridge w) = ((b', es), Some 1)
     \<and> gm_get (subscriptions (heap b' 0)) (sub_id 1) = None"
proof -
  obtain w where w: "world_reachable DefaultBridgeConfig w" "sw_tasks w 0 = [(1, BlockLoop 1)]"
    "sw_short w 0 = 0" "sw_cancelled w 0 = {}" by (rule demo_world_default)
  have "(1, BlockLoop 1) \<in> set (sw_tasks w 0)" "1 \<notin> sw_cancelled w 0" using w(2,4) by simp_all
  from registered_subscription [OF w(1) default_limit this] unsubscribe_found
  obtain b' es where u: "handleUnsubscribe 0 (unsubscribe_request ''2'' 1) (sw_bridge w) = ((b', es), Some 1)" by blast
  with unsubscribe_stays_own [OF w(1) default_limit u] show ?thesis by blast
qed

end
