(* ===== verification/Teardown.thy ===== *)
theory Teardown
  imports WorldProps
begin

text \<open>
  The end of a connection in the world of all clients: nothing of the client is left when it is
  over. The run of a whole teardown serves the example; that handlers return and that loops leave
  when their context is cancelled are rules of \<open>world_step\<close> and not claims of this theory.
\<close>

section \<open>A run of the teardown\<close>

definition any_step :: "sub_world \<Rightarrow> sub_world \<Rightarrow> bool" where
  "any_step w w' \<longleftrightarrow> (\<exists>es. world_step w es w')"

lemma any_step_reachable: "(any_step ^^ n) w w' \<Longrightarrow> world_reachable cf w \<Longrightarrow> world_reachable cf w'"
proof (induction n arbitrary: w')
  case (Suc n)
  then obtain u es where "world_reachable cf u" "world_step u es w'" by (auto simp: any_step_def)
  then show ?case by (rule world_reachable.step)
qed simp

lemma steps_append: "(R ^^ m) x y \<Longrightarrow> (R ^^ n) y z \<Longrightarrow> (R ^^ (m + n)) x z" for R :: "'a \<Rightarrow> 'a \<Rightarrow> bool"
  by (auto simp: relpowp_add)

lemma end_task_parts:
  assumes "sw_tasks w c = (n, l) # ts"
  shows "sw_tasks (end_task c 0 w) = (sw_tasks w)(c := ts)" "sw_short (end_task c 0 w) = sw_short w"
    and "clients (sw_bridge (end_task c 0 w)) = clients (sw_bridge w)"
    and "ctx_done (heap (sw_bridge (end_task c 0 w)) x) = ctx_done (heap (sw_bridge w) x)"
  using assms by (simp_all add: end_task_def release_def endSub_def leaveSub_def addSubs_def unregisterSub_def)

text \<open>With the context cancelled every subscription ends, one step for each.\<close>

lemma subscriptions_drain:
  assumes "ctx_done (heap (sw_bridge w) c)"
  shows "\<exists>w' :: sub_world. (any_step ^^ length (sw_tasks w c)) w w' \<and> sw_tasks w' = (sw_tasks w)(c := [])
    \<and> sw_short w' = sw_short w \<and> clients (sw_bridge w') = clients (sw_bridge w)
    \<and> ctx_done (heap (sw_bridge w') c)"
  using assms
proof (induction "sw_tasks w c" arbitrary: w)
  case Nil
  then have "(any_step ^^ length (sw_tasks w c)) w w" "sw_tasks w = (sw_tasks w)(c := [])"
    by (simp_all add: fun_upd_idem flip: Nil.hyps)
  with Nil.prems show ?case by blast
next
  case (Cons t ts)
  obtain n l where t: "t = (n, l)" by (cases t)
  let ?u = "end_task c 0 w"
  note parts = end_task_parts [of w c n l ts, OF Cons.hyps(2) [unfolded t, symmetric]]
  have "world_step w [] ?u"
    by (rule world_step.cancelled [of 0 w c n l]) (simp_all add: Cons.prems t flip: Cons.hyps(2))
  then have step: "any_step w ?u" unfolding any_step_def by blast
  have "ts = sw_tasks ?u c" "ctx_done (heap (sw_bridge ?u) c)" using parts Cons.prems by simp_all
  from Cons.hyps(1) [OF this] obtain w' :: sub_world where w': "(any_step ^^ length ts) ?u w'"
    "sw_tasks w' = (sw_tasks w)(c := [])" "sw_short w' = sw_short w"
    "clients (sw_bridge w') = clients (sw_bridge w)" "ctx_done (heap (sw_bridge w') c)"
    unfolding parts by (auto simp: parts)
  have "(any_step ^^ length (sw_tasks w c)) w w'"
    using relpowp_Suc_I2 [OF step w'(1)] by (simp flip: Cons.hyps(2))
  with w' show ?case by blast
qed

text \<open>The other requests return.\<close>

lemma requests_drain:
  "\<exists>w' :: sub_world. (any_step ^^ sw_short w c) w w' \<and> sw_short w' = (sw_short w)(c := 0)
    \<and> sw_tasks w' = sw_tasks w \<and> clients (sw_bridge w') = clients (sw_bridge w)
    \<and> ctx_done (heap (sw_bridge w') c) = ctx_done (heap (sw_bridge w) c)"
proof (induction "sw_short w c" arbitrary: w)
  case 0
  then have "(any_step ^^ sw_short w c) w w" "sw_short w = (sw_short w)(c := 0)"
    by (simp_all add: fun_upd_idem flip: 0)
  then show ?case by blast
next
  case (Suc k)
  define u where "u = w\<lparr>sw_bridge := release c (sw_bridge w), sw_short := (sw_short w)(c := sw_short w c - 1)\<rparr>"
  have "world_step w [] u" unfolding u_def by (rule world_step.return) (simp flip: Suc.hyps(2))
  then have step: "any_step w u" unfolding any_step_def by blast
  have k: "k = sw_short u c" using Suc.hyps(2) by (simp add: u_def)
  from Suc.hyps(1) [OF k] obtain w' :: sub_world where w': "(any_step ^^ k) u w'" "sw_short w' = (sw_short u)(c := 0)"
    "sw_tasks w' = sw_tasks u" "clients (sw_bridge w') = clients (sw_bridge u)"
    "ctx_done (heap (sw_bridge w') c) = ctx_done (heap (sw_bridge u) c)" by (auto simp flip: k)
  have "(any_step ^^ sw_short w c) w w'" using relpowp_Suc_I2 [OF step w'(1)] by (simp flip: Suc.hyps(2))
  moreover have "sw_short w' = (sw_short w)(c := 0)" using w'(2) by (simp add: u_def)
  ultimately show ?case using w'(3-) by (auto simp: u_def release_def)
qed

lemma teardown_run:
  assumes "gm_get (clients (sw_bridge w)) c \<noteq> None"
  shows "\<exists>w' :: sub_world. (any_step ^^ (sw_short w c + length (sw_tasks w c) + 2)) w w'
    \<and> gm_get (clients (sw_bridge w')) c = None
    \<and> (\<forall>x. x \<noteq> c \<longrightarrow> sw_tasks w' x = sw_tasks w x \<and> sw_short w' x = sw_short w x
          \<and> gm_get (clients (sw_bridge w')) x = gm_get (clients (sw_bridge w)) x)"
proof -
  define w1 where "w1 = w\<lparr>sw_bridge := upd_client c (\<lambda>x. x\<lparr>ctx_done := True\<rparr>) (sw_bridge w)\<rparr>"
  have 1: "any_step w w1" unfolding any_step_def w1_def using world_step.hang_up [OF assms] by blast
  have w1: "ctx_done (heap (sw_bridge w1) c)" "sw_tasks w1 = sw_tasks w" "sw_short w1 = sw_short w"
    "clients (sw_bridge w1) = clients (sw_bridge w)" by (simp_all add: w1_def)
  obtain w2 :: sub_world where w2: "(any_step ^^ length (sw_tasks w c)) w1 w2" "sw_tasks w2 = (sw_tasks w)(c := [])"
    "sw_short w2 = sw_short w" "clients (sw_bridge w2) = clients (sw_bridge w)" "ctx_done (heap (sw_bridge w2) c)"
    using subscriptions_drain [OF w1(1)] w1 by auto
  obtain w3 :: sub_world where w3: "(any_step ^^ sw_short w c) w2 w3" "sw_short w3 = (sw_short w)(c := 0)"
    "sw_tasks w3 = (sw_tasks w)(c := [])" "clients (sw_bridge w3) = clients (sw_bridge w)"
    "ctx_done (heap (sw_bridge w3) c)"
    using requests_drain [where c = c and w = w2] w2 by auto
  obtain b' es where d: "disconnectClient c (sw_bridge w3) = (b', es)" by (metis surj_pair)
  define w4 where "w4 = w3\<lparr>sw_bridge := b'\<rparr>"
  have "world_step w3 es w4"
    unfolding w4_def using w3 assms d by (intro world_step.gone) simp_all
  then have 4: "any_step w3 w4" unfolding any_step_def by blast
  have "(any_step ^^ Suc (length (sw_tasks w c) + Suc (sw_short w c))) w w4"
    using relpowp_Suc_I2 [OF 1 steps_append [OF w2(1) relpowp_Suc_I [OF w3(1) 4]]] by simp
  then have "(any_step ^^ (sw_short w c + length (sw_tasks w c) + 2)) w w4" by (simp add: add.commute)
  moreover have "clients (sw_bridge w4) = gm_del c (clients (sw_bridge w))"
    using slots_disconnect [OF d] w3(4) by (simp add: w4_def)
  ultimately show ?thesis using w3(2,3) by (intro exI [of _ w4]) (simp add: w4_def)
qed

text \<open>The client of the execution above, with its subscription.\<close>

lemma demo_connected_world:
  obtains w where "world_reachable DefaultBridgeConfig w" "gm_get (clients (sw_bridge w)) 0 \<noteq> None"
    "sw_tasks w 0 = [(1, BlockLoop 1)]" "sw_short w 0 = 0"
proof -
  obtain w where w: "world_reachable DefaultBridgeConfig w" "sw_tasks w 0 = [(1, BlockLoop 1)]"
    "sw_short w 0 = 0" "sw_cancelled w 0 = {}" by (rule demo_world_default)
  have "gm_get (clients (sw_bridge w)) 0 \<noteq> None"
    using joined_reachable [OF w(1)] w(2) by (auto simp: joined_def)
  with w that show thesis by blast
qed

section \<open>Nothing is left\<close>

lemma no_work_no_slots:
  assumes "client_inv cf (a, s, ct, i) [] 0 cs"
  shows "a = 0 \<and> i = 0 \<and> (\<forall>key. gm_get s key = None) \<and> cs = {}"
proof -
  have "gm_get s key = None" for key
    using assms by (cases "gm_get s key") (auto simp: client_inv_def registry_ok_def)
  with assms show ?thesis by (auto simp: client_inv_def counts_ok_def ids_ok_def)
qed

text \<open>
  C5: a client that is not connected holds nothing, whatever it did before its connection ended and
  whatever the other clients and the network did meanwhile: it has no running request or
  subscription and no slot or token of either, no entry in its registry, and it owns no peer, no
  overlay and no query handler. The limit of subscriptions is below \<open>2 ^ 31 - 1\<close>, so that the \<open>int32\<close>
  counter of the code can count them.
\<close>
theorem departed_client_holds_nothing:
  assumes "world_reachable cf w" and "countable_limit cf" and "gm_get (clients (sw_bridge w)) c = None"
  shows "sw_tasks w c = [] \<and> sw_short w c = 0
    \<and> activeSubs (heap (sw_bridge w) c) = 0 \<and> inflight (heap (sw_bridge w) c) = 0
    \<and> (\<forall>key. gm_get (subscriptions (heap (sw_bridge w) c)) key = None)
    \<and> peers (heap (sw_bridge w) c) = [] \<and> overlays (heap (sw_bridge w) c) = []
    \<and> (\<forall>k. owner_of (sw_bridge w) k \<noteq> Some c)
    \<and> (\<forall>k h. gm_get (peerQueries (sw_bridge w)) k = Some h \<longrightarrow> qh_client h \<noteq> c)"
proof -
  let ?b = "sw_bridge w" and ?h = "heap (sw_bridge w) c"
  have j: "joined w" using assms(1) by (rule joined_reachable)
  then have work: "sw_tasks w c = []" "sw_short w c = 0" and inv: "bridge_inv ?b"
    using assms(3) by (simp_all add: joined_def)
  have "client_inv cf (activeSubs ?h, subscriptions ?h, subCounter ?h, inflight ?h) [] 0 (sw_cancelled w c)"
    using world_client [OF world_reachable_inv [OF assms(1,2)], of c] work by (simp add: slot_view_def)
  note slots = no_work_no_slots [OF this]
  have own: "owner_of ?b k \<noteq> Some c" for k
    using inv assms(3) by (auto simp: bridge_inv_unfold owners_inv_def)
  have "k \<notin> set (peers ?h)" for k using own [of k] inv_owner [OF inv, of k c] by simp
  then have prs: "peers ?h = []" by (cases "peers ?h") auto
  have "ov \<notin> set (overlays ?h)" for ov
    using inv_owns_overlay [OF inv, of c ov] own by (simp add: clientOwnsOverlay_def prs)
  then have "overlays ?h = []" by (cases "overlays ?h") auto
  moreover have "qh_client h \<noteq> c" if "gm_get (peerQueries ?b) k = Some h" for k h
  proof -
    have "owner_of ?b k = Some (qh_client h)" using inv that by (simp add: bridge_inv_unfold maps_inv_def)
    with own [of k] show ?thesis by auto
  qed
  ultimately show ?thesis using work slots prs own by blast
qed

theorem departed_client_holds_nothing_witness:
  "\<exists>w w' :: sub_world. sw_tasks w 0 = [(1, BlockLoop 1)] \<and> any_step\<^sup>*\<^sup>* w w'
     \<and> sw_tasks w' 0 = [] \<and> inflight (heap (sw_bridge w') 0) = 0 \<and> peers (heap (sw_bridge w') 0) = []"
proof -
  obtain w where w: "world_reachable DefaultBridgeConfig w" "gm_get (clients (sw_bridge w)) 0 \<noteq> None"
    "sw_tasks w 0 = [(1, BlockLoop 1)]" "sw_short w 0 = 0" by (rule demo_connected_world)
  obtain w' :: sub_world where w': "(any_step ^^ (sw_short w 0 + length (sw_tasks w 0) + 2)) w w'"
    "gm_get (clients (sw_bridge w')) 0 = None" using teardown_run [OF w(2)] by blast
  note r = any_step_reachable [OF w'(1) w(1)]
  from departed_client_holds_nothing [OF r default_limit w'(2)] w(3) relpowp_imp_rtranclp [OF w'(1)]
  show ?thesis by blast
qed

end
