(* ===== verification/SlotRace.thy ===== *)
theory SlotRace
  imports SubSlots
begin

text \<open>
  The subscription counter of one client at the grain of its atomic operations. \<open>enterSub\<close> takes
  the test at the head of a handler as one step; in the code the addition with its comparison and
  the subtraction after a refusal are two, between which the other handlers of the client count.
\<close>

section \<open>Handlers and their counter\<close>

datatype slot_pc = Arriving | Refused | Inside | Gone

record slot_state =
  sl_count :: int
  sl_pcs :: "slot_pc list"

text \<open>The addition, and what its result decides.\<close>

definition slot_add :: "int \<Rightarrow> int \<Rightarrow> int \<times> slot_pc" where
  "slot_add limit n = (let n' = to_int32 (n + 1) in (n', if n' > limit then Refused else Inside))"

inductive slot_step :: "int \<Rightarrow> slot_state \<Rightarrow> slot_state \<Rightarrow> bool" for limit where
  arrive: "k < length (sl_pcs s) \<Longrightarrow> sl_pcs s ! k = Arriving \<Longrightarrow> slot_add limit (sl_count s) = (n', pc) \<Longrightarrow>
    slot_step limit s (s\<lparr>sl_count := n', sl_pcs := (sl_pcs s)[k := pc]\<rparr>)"
| give_back: "k < length (sl_pcs s) \<Longrightarrow> sl_pcs s ! k = Refused \<Longrightarrow>
    slot_step limit s (s\<lparr>sl_count := to_int32 (sl_count s - 1), sl_pcs := (sl_pcs s)[k := Gone]\<rparr>)"
| end_sub: "k < length (sl_pcs s) \<Longrightarrow> sl_pcs s ! k = Inside \<Longrightarrow>
    slot_step limit s (s\<lparr>sl_count := to_int32 (sl_count s - 1), sl_pcs := (sl_pcs s)[k := Gone]\<rparr>)"

definition slots_start :: "nat \<Rightarrow> slot_state" where
  "slots_start n = \<lparr>sl_count = 0, sl_pcs = replicate n Arriving\<rparr>"

inductive slot_reach :: "int \<Rightarrow> nat \<Rightarrow> slot_state \<Rightarrow> bool" for limit n where
  start: "slot_reach limit n (slots_start n)"
| further: "slot_reach limit n s \<Longrightarrow> slot_step limit s s' \<Longrightarrow> slot_reach limit n s'"

text \<open>Without another handler in between, the two steps are \<open>enterSub\<close>.\<close>

lemma enterSub_is_slot_add:
  "enterSub c b =
     (case slot_add (max_subs b) (activeSubs (heap b c)) of
        (n', pc) \<Rightarrow>
          (if pc = Refused then (addSubs (- 1) c (addSubs 1 c b), False) else (addSubs 1 c b, True)))
   \<and> activeSubs (heap (addSubs 1 c b) c) = fst (slot_add (max_subs b) (activeSubs (heap b c)))"
  by (simp add: enterSub_def slot_add_def addSubs_def Let_def)

section \<open>Accounting\<close>

definition n_at :: "slot_pc \<Rightarrow> slot_state \<Rightarrow> nat" where
  "n_at pc s = length (filter (\<lambda>p. p = pc) (sl_pcs s))"

definition slots_ok :: "int \<Rightarrow> nat \<Rightarrow> slot_state \<Rightarrow> bool" where
  "slots_ok limit n s \<longleftrightarrow> length (sl_pcs s) = n
     \<and> sl_count s = int (n_at Inside s + n_at Refused s) \<and> int (n_at Inside s) \<le> max 0 limit"

lemma n_at_update:
  "k < length (sl_pcs s) \<Longrightarrow> n_at pc (s\<lparr>sl_count := m, sl_pcs := (sl_pcs s)[k := q]\<rparr>)
     + (if sl_pcs s ! k = pc then 1 else 0) = n_at pc s + (if q = pc then 1 else 0)"
  unfolding n_at_def using filter_length_update [of k "sl_pcs s" "\<lambda>p. p = pc" q] by (simp add: eq_commute)

lemma n_at_le: "n_at Inside s + n_at Refused s + n_at Arriving s \<le> length (sl_pcs s)"
proof -
  have "length (filter (\<lambda>p. p = Inside) ps) + length (filter (\<lambda>p. p = Refused) ps)
      + length (filter (\<lambda>p. p = Arriving) ps) \<le> length ps" for ps
    by (induction ps) auto
  then show ?thesis by (simp add: n_at_def)
qed

lemma n_at_pos: "k < length (sl_pcs s) \<Longrightarrow> 0 < n_at (sl_pcs s ! k) s"
  by (auto simp: n_at_def filter_empty_conv)

lemma room_to_count:
  assumes "slots_ok limit n s" "n < 2 ^ 31" "0 < n_at Arriving s"
  shows "to_int32 (sl_count s + 1) = sl_count s + 1"
  using assms n_at_le [of s] by (intro to_int32_id) (auto simp: slots_ok_def)

lemma slot_step_ok:
  assumes "slot_step limit s s'" "slots_ok limit n s" "n < 2 ^ 31"
  shows "slots_ok limit n s'"
  using assms
proof (induction rule: slot_step.induct)
  case (arrive k s n' pc)
  have n': "n' = sl_count s + 1" "pc = (if n' > limit then Refused else Inside)"
    using arrive(3) room_to_count [OF arrive.prems] n_at_pos [OF arrive(1)] arrive(2) by (auto simp: slot_add_def Let_def)
  let ?s = "s\<lparr>sl_count := n', sl_pcs := (sl_pcs s)[k := pc]\<rparr>"
  have "n_at Inside ?s = n_at Inside s + (if pc = Inside then 1 else 0)"
    "n_at Refused ?s = n_at Refused s + (if pc = Refused then 1 else 0)"
    using n_at_update [OF arrive(1), where pc = Inside and m = n' and q = pc] n_at_update [OF arrive(1), where pc = Refused and m = n' and q = pc] arrive(2) by simp_all
  with n' arrive.prems(1) show ?case by (auto simp: slots_ok_def)
next
  case (give_back k s)
  let ?s = "s\<lparr>sl_count := to_int32 (sl_count s - 1), sl_pcs := (sl_pcs s)[k := Gone]\<rparr>"
  have "n_at Inside ?s = n_at Inside s" "n_at Refused ?s + 1 = n_at Refused s"
    using n_at_update [OF give_back(1), where pc = Inside and m = "to_int32 (sl_count s - 1)" and q = Gone]
      n_at_update [OF give_back(1), where pc = Refused and m = "to_int32 (sl_count s - 1)" and q = Gone] give_back(2) by simp_all
  moreover have "to_int32 (sl_count s - 1) = sl_count s - 1"
    using give_back.prems n_at_le [of s] n_at_pos [OF give_back(1)] give_back(2)
    by (intro to_int32_id) (auto simp: slots_ok_def)
  ultimately show ?case using give_back.prems(1) by (auto simp: slots_ok_def)
next
  case (end_sub k s)
  let ?s = "s\<lparr>sl_count := to_int32 (sl_count s - 1), sl_pcs := (sl_pcs s)[k := Gone]\<rparr>"
  have "n_at Inside ?s + 1 = n_at Inside s" "n_at Refused ?s = n_at Refused s"
    using n_at_update [OF end_sub(1), where pc = Inside and m = "to_int32 (sl_count s - 1)" and q = Gone]
      n_at_update [OF end_sub(1), where pc = Refused and m = "to_int32 (sl_count s - 1)" and q = Gone] end_sub(2) by simp_all
  moreover have "to_int32 (sl_count s - 1) = sl_count s - 1"
    using end_sub.prems n_at_le [of s] n_at_pos [OF end_sub(1)] end_sub(2)
    by (intro to_int32_id) (auto simp: slots_ok_def)
  ultimately show ?case using end_sub.prems(1) by (auto simp: slots_ok_def)
qed

lemma slots_start_ok: "slots_ok limit n (slots_start n)"
  by (auto simp: slots_ok_def slots_start_def n_at_def)

lemma slot_reach_ok: "slot_reach limit n s \<Longrightarrow> n < 2 ^ 31 \<Longrightarrow> slots_ok limit n s"
  by (induction rule: slot_reach.induct) (auto intro: slots_start_ok slot_step_ok)

text \<open>
  C20: however fewer than \<open>2 ^ 31\<close> handlers of a client interleave at the subscription counter,
  never more of them are inside than the limit allows, the counter is the number of those inside
  and of those that were refused and have not given back yet, and a handler that arrives is refused
  exactly when these together have reached the limit: at the limit when nobody is giving back, but
  otherwise also while there is room.
\<close>
theorem slots_never_exceeded:
  assumes "slot_reach limit n s" and "n < 2 ^ 31"
  shows "int (n_at Inside s) \<le> max 0 limit
    \<and> sl_count s = int (n_at Inside s + n_at Refused s)
    \<and> (0 < n_at Arriving s \<longrightarrow>
        (snd (slot_add limit (sl_count s)) = Refused \<longleftrightarrow> limit \<le> int (n_at Inside s + n_at Refused s)))"
proof -
  have ok: "slots_ok limit n s" by (rule slot_reach_ok [OF assms])
  with room_to_count [OF ok assms(2)] show ?thesis
    by (auto simp: slots_ok_def slot_add_def Let_def)
qed

text \<open>
  A refusal with a free slot: with a limit of one, a second handler is refused, the first ends,
  and a third arrives before the second has given back.
\<close>

definition late_give_back :: slot_state where
  "late_give_back = \<lparr>sl_count = 1, sl_pcs = [Gone, Refused, Arriving]\<rparr>"

lemma late_give_back_reached: "slot_reach 1 3 late_give_back"
proof -
  let ?s = "\<lambda>m ps. \<lparr>sl_count = m, sl_pcs = ps\<rparr>"
  have i: "to_int32 1 = 1" "to_int32 2 = 2" by (rule to_int32_id; simp)+
  have 1: "slot_step 1 (?s 0 [Arriving, Arriving, Arriving]) (?s 1 [Inside, Arriving, Arriving])"
    using slot_step.arrive [of 0 "?s 0 [Arriving, Arriving, Arriving]" 1 1 Inside] i by (simp add: slot_add_def)
  have 2: "slot_step 1 (?s 1 [Inside, Arriving, Arriving]) (?s 2 [Inside, Refused, Arriving])"
    using slot_step.arrive [of 1 "?s 1 [Inside, Arriving, Arriving]" 1 2 Refused] i by (simp add: slot_add_def)
  have 3: "slot_step 1 (?s 2 [Inside, Refused, Arriving]) late_give_back"
    using slot_step.end_sub [of 0 "?s 2 [Inside, Refused, Arriving]" 1] i by (simp add: late_give_back_def)
  have "slot_reach 1 3 (?s 0 [Arriving, Arriving, Arriving])"
    using slot_reach.start [of 1 3] by (simp add: slots_start_def numeral_eq_Suc)
  from slot_reach.further [OF slot_reach.further [OF slot_reach.further [OF this 1] 2] 3] show ?thesis .
qed

lemma refused_with_room:
  "slot_reach 1 3 late_give_back \<and> n_at Inside late_give_back = 0
   \<and> snd (slot_add 1 (sl_count late_give_back)) = Refused"
proof -
  have "to_int32 2 = 2" by (rule to_int32_id) simp_all
  then show ?thesis using late_give_back_reached by (simp add: late_give_back_def n_at_def slot_add_def)
qed

theorem slots_never_exceeded_witness:
  "sl_count late_give_back = 1 \<and> n_at Inside late_give_back = 0
   \<and> snd (slot_add 1 (sl_count late_give_back)) = Refused"
  using slots_never_exceeded [OF late_give_back_reached] by (simp add: late_give_back_def n_at_def)

end
