(* ===== verification/Keepalive.thy ===== *)
theory Keepalive
  imports Connection ServerConfig
begin

text \<open>
  How a connection stays alive (\<open>handleWS\<close> of wsbridge/bridge.go): the read deadline that only
  pongs move, the pings that ask for them, and the frames the read loop gets before it ends. Times
  are nanoseconds; the frames with the times at which they arrive are the input. A frame is handled
  when it arrives: the time the reading goroutine spends in the ping handler, which waits for the
  write mutex, or in the error reply to a malformed message is not modelled.
\<close>

section \<open>Frames\<close>

text \<open>
  A data frame with its size and its content. A ping comes with the outcome of writing the pong
  that answers it; when that write fails the websocket library reports the error of the handler to
  the reader.
\<close>

datatype ws_frame = DataFrame nat "json option" | PingFrame string bool | PongFrame | CloseFrame

datatype read_event = Received int "json option" | PongBack int string

datatype read_end = ReadTimeout int | ReadClosed int | TooLarge int | PongFailed int

text \<open>
  The read loop with the deadline in force. Data does not move the deadline, and a message over
  the limit ends the connection.
\<close>

fun read_frames :: "BridgeConfig \<Rightarrow> int \<Rightarrow> (int \<times> ws_frame) list \<Rightarrow> read_event list \<times> read_end" where
  "read_frames cf deadline [] = ([], ReadTimeout deadline)"
| "read_frames cf deadline ((t, f) # fs) =
     (if t \<ge> deadline then ([], ReadTimeout deadline)
      else (case f of
              CloseFrame \<Rightarrow> ([], ReadClosed t)
            | PongFrame \<Rightarrow> read_frames cf (t + PongDeadline cf) fs
            | PingFrame msg sent \<Rightarrow>
                if sent then (case read_frames cf deadline fs of (es, e) \<Rightarrow> (PongBack t msg # es, e))
                else ([], PongFailed t)
            | DataFrame n msg \<Rightarrow>
                if int n > MaxMessageSize cf then ([], TooLarge t)
                else (case read_frames cf deadline fs of (es, e) \<Rightarrow> (Received t msg # es, e))))"

definition read_connection :: "BridgeConfig \<Rightarrow> int \<Rightarrow> (int \<times> ws_frame) list \<Rightarrow> read_event list \<times> read_end" where
  "read_connection cf start fs = read_frames cf (start + PongDeadline cf) fs"

section \<open>Pings\<close>

text \<open>
  The tick number \<open>k\<close> of the ticker that starts with the connection; a period that is not positive
  makes \<open>time.NewTicker\<close> panic.
\<close>

definition ping_tick :: "BridgeConfig \<Rightarrow> int \<Rightarrow> nat \<Rightarrow> int" where
  "ping_tick cf start k = start + int (Suc k) * PingPeriod cf"

definition new_ticker :: "BridgeConfig \<Rightarrow> int \<Rightarrow> (nat \<Rightarrow> int) option" where
  "new_ticker cf start = (if PingPeriod cf \<le> 0 then None else Some (ping_tick cf start))"

text \<open>\<open>n\<close> ticks come before the context ends; the first write that fails ends the pump.\<close>

fun ping_pump :: "(nat \<Rightarrow> int) \<Rightarrow> (nat \<Rightarrow> bool) \<Rightarrow> nat \<Rightarrow> nat \<Rightarrow> int list" where
  "ping_pump tick sent k 0 = []"
| "ping_pump tick sent k (Suc n) = tick k # (if sent k then ping_pump tick sent (Suc k) n else [])"

lemma ping_pump_all: "\<forall>j. sent j \<Longrightarrow> ping_pump tick sent k n = map tick [k..<k + n]"
proof (induction n arbitrary: k)
  case (Suc n)
  have "[k..<k + Suc n] = k # [Suc k..<Suc k + n]" by (simp add: upt_conv_Cons del: upt_Suc)
  with Suc show ?case by simp
qed simp

section \<open>What is read\<close>

definition frame_event :: "int \<times> ws_frame \<Rightarrow> read_event list" where
  "frame_event x =
     (case x of
        (t, DataFrame _ msg) \<Rightarrow> [Received t msg]
      | (t, PingFrame msg _) \<Rightarrow> [PongBack t msg]
      | _ \<Rightarrow> [])"

definition harmless :: "BridgeConfig \<Rightarrow> ws_frame \<Rightarrow> bool" where
  "harmless cf f \<longleftrightarrow>
     (case f of
        DataFrame n _ \<Rightarrow> int n \<le> MaxMessageSize cf
      | PingFrame _ sent \<Rightarrow> sent
      | PongFrame \<Rightarrow> True
      | CloseFrame \<Rightarrow> False)"

text \<open>One harmless frame before the deadline.\<close>

lemma read_harmless:
  assumes "t < deadline" "harmless cf f"
  shows "read_frames cf deadline ((t, f) # fs) =
     (case read_frames cf (if f = PongFrame then t + PongDeadline cf else deadline) fs of
        (es, e) \<Rightarrow> (frame_event (t, f) @ es, e))"
  using assms by (cases f) (auto simp: harmless_def frame_event_def split: prod.split)

text \<open>Without a pong the deadline stays where it is.\<close>

lemma read_without_pongs:
  assumes "sorted (map fst fs)" "\<forall>(t, f) \<in> set fs. f \<noteq> PongFrame \<and> harmless cf f"
  shows "read_frames cf deadline fs =
     (concat (map frame_event (filter (\<lambda>(t, _). t < deadline) fs)), ReadTimeout deadline)"
  using assms
proof (induction fs)
  case (Cons x fs)
  obtain t f where x: "x = (t, f)" by (cases x)
  show ?case
  proof (cases "t < deadline")
    case True
    from Cons x have "harmless cf f" "f \<noteq> PongFrame" by auto
    with Cons x True read_harmless [OF True, of cf f fs] show ?thesis by simp
  next
    case False
    with Cons.prems(1) x have "\<forall>y \<in> set fs. deadline \<le> fst y" by fastforce
    then have "filter (\<lambda>(t, _). t < deadline) fs = []" by (auto simp: filter_empty_conv)
    with x False show ?thesis by simp
  qed
qed simp

text \<open>What a frame that is not harmless ends the connection with.\<close>

fun end_reason :: "int \<Rightarrow> ws_frame \<Rightarrow> read_end" where
  "end_reason t (DataFrame n msg) = TooLarge t"
| "end_reason t (PingFrame msg sent) = PongFailed t"
| "end_reason t PongFrame = ReadTimeout t"
| "end_reason t CloseFrame = ReadClosed t"

lemma read_harmful:
  "t < deadline \<Longrightarrow> \<not> harmless cf f \<Longrightarrow> read_frames cf deadline ((t, f) # fs) = ([], end_reason t f)"
  by (cases f) (simp_all add: harmless_def)

text \<open>
  Every ping before the horizon is answered within \<open>r\<close>, counting from ping \<open>j\<close>.
\<close>

definition answered_from :: "BridgeConfig \<Rightarrow> int \<Rightarrow> int \<Rightarrow> int \<Rightarrow> nat \<Rightarrow> (int \<times> ws_frame) list \<Rightarrow> bool" where
  "answered_from cf start r T j fs \<longleftrightarrow>
     (\<forall>k \<ge> j. ping_tick cf start k + r < T \<longrightarrow>
        (\<exists>t. (t, PongFrame) \<in> set fs \<and> ping_tick cf start k \<le> t \<and> t \<le> ping_tick cf start k + r))"

text \<open>
  The induction: the pings before \<open>j\<close> have been answered by the pong that set the deadline in force.
  The harmless frames \<open>fs\<close> up to the horizon leave a deadline after it for what follows them.
\<close>

lemma responsive_reads:
  assumes period: "0 < PingPeriod cf" "PingPeriod cf + r < PongDeadline cf"
  shows "sorted (map fst fs) \<Longrightarrow> \<forall>(t, f) \<in> set fs. start + int j * PingPeriod cf \<le> t \<and> t \<le> T \<and> harmless cf f \<Longrightarrow>
    answered_from cf start r T j fs \<Longrightarrow> start + int j * PingPeriod cf + PongDeadline cf \<le> deadline \<Longrightarrow>
    \<exists>d > T. \<forall>gs. read_frames cf deadline (fs @ gs) =
      (case read_frames cf d gs of (es, e) \<Rightarrow> (concat (map frame_event fs) @ es, e))"
proof (induction fs arbitrary: deadline j)
  case Nil
  have tick: "ping_tick cf start j = start + int j * PingPeriod cf + PingPeriod cf"
    by (simp add: ping_tick_def algebra_simps)
  have "\<not> ping_tick cf start j + r < T"
    using Nil.prems(3) unfolding answered_from_def by auto
  with tick period Nil.prems(4) have "T < deadline" by linarith
  then show ?case by (intro exI [of _ deadline]) (simp split: prod.split)
next
  case (Cons x fs)
  obtain t f where x: "x = (t, f)" by (cases x)
  let ?P = "PingPeriod cf" and ?D = "PongDeadline cf"
  have tick: "ping_tick cf start j = start + int j * ?P + ?P" by (simp add: ping_tick_def algebra_simps)
  have t: "start + int j * ?P \<le> t" "t \<le> T" "harmless cf f" using Cons.prems(2) x by auto
  have later: "t \<le> fst y" if "y \<in> set fs" for y using Cons.prems(1) x that by auto
  have early: "t < deadline"
  proof (cases "ping_tick cf start j + r < T")
    case False
    with tick period Cons.prems(4) t(2) show ?thesis by linarith
  next
    case True
    then obtain u where "(u, PongFrame) \<in> set (x # fs)" "u \<le> ping_tick cf start j + r"
      using Cons.prems(3) unfolding answered_from_def by auto
    with later x have "t \<le> ping_tick cf start j + r" by fastforce
    with tick period Cons.prems(4) show ?thesis by linarith
  qed
  note head = read_harmless [OF early t(3)]
  show ?case
  proof (cases "f = PongFrame")
    case False
    have "answered_from cf start r T j fs"
      using Cons.prems(3) x False unfolding answered_from_def by auto
    with Cons.IH [of j deadline] Cons.prems(1,2,4) x obtain d where "d > T"
      "\<forall>gs. read_frames cf deadline (fs @ gs) =
        (case read_frames cf d gs of (es, e) \<Rightarrow> (concat (map frame_event fs) @ es, e))" by auto
    with x head False show ?thesis by (intro exI [of _ d]) (simp split: prod.split)
  next
    case True
    define j' where "j' = nat ((t - start) div ?P)"
    have split: "(t - start) div ?P * ?P + (t - start) mod ?P = t - start" by (rule div_mult_mod_eq)
    have mod: "0 \<le> (t - start) mod ?P" "(t - start) mod ?P < ?P" using period(1) by simp_all
    have "int j * ?P div ?P \<le> (t - start) div ?P" using t(1) period(1) by (intro zdiv_mono1) simp_all
    then have j': "int j' = (t - start) div ?P" "j \<le> j'" using period(1) by (simp_all add: j'_def)
    have lo: "start + int j' * ?P \<le> t" and hi: "t < start + int j' * ?P + ?P"
      unfolding j'(1) using split mod by linarith+
    have "answered_from cf start r T j' fs"
      unfolding answered_from_def
    proof (intro allI impI)
      fix k assume k: "j' \<le> k" "ping_tick cf start k + r < T"
      with j'(2) Cons.prems(3) obtain u where u: "(u, PongFrame) \<in> set (x # fs)"
        "ping_tick cf start k \<le> u" "u \<le> ping_tick cf start k + r" unfolding answered_from_def by (meson le_trans)
      have "start + int j' * ?P + ?P \<le> ping_tick cf start k"
        using mult_right_mono [of "int (Suc j')" "int (Suc k)" ?P] k(1) period(1) by (simp add: ping_tick_def algebra_simps)
      with hi u(2) x have "(u, PongFrame) \<in> set fs" using u(1) by auto
      with u show "\<exists>t. (t, PongFrame) \<in> set fs \<and> ping_tick cf start k \<le> t \<and> t \<le> ping_tick cf start k + r" by blast
    qed
    moreover have "\<forall>(u, g) \<in> set fs. start + int j' * ?P \<le> u \<and> u \<le> T \<and> harmless cf g"
      using Cons.prems(2) later lo by fastforce
    moreover have "start + int j' * ?P + ?D \<le> t + ?D" using lo by simp
    ultimately obtain d where "d > T" "\<forall>gs. read_frames cf (t + ?D) (fs @ gs) =
        (case read_frames cf d gs of (es, e) \<Rightarrow> (concat (map frame_event fs) @ es, e))"
      using Cons.IH [of j' "t + ?D"] Cons.prems(1) x by auto
    with head x True show ?thesis by (intro exI [of _ d]) (simp split: prod.split)
  qed
qed

section \<open>The two promises\<close>

lemma ping_margin:
  assumes "2 \<le> parseDur (cPongDeadline (cWebSocket c))" "parseDur (cPongDeadline (cWebSocket c)) * 9 < 2 ^ 63"
    and "10 * r < PongDeadline (ToWSBridgeConfig c)"
  shows "0 < PingPeriod (ToWSBridgeConfig c)" and "PingPeriod (ToWSBridgeConfig c) + r < PongDeadline (ToWSBridgeConfig c)"
proof -
  let ?d = "parseDur (cPongDeadline (cWebSocket c))"
  have "to_int64 (?d * 9) = ?d * 9" using assms by (intro to_int64_id) simp_all
  then have "PingPeriod (ToWSBridgeConfig c) = ?d * 9 div 10" "PongDeadline (ToWSBridgeConfig c) = ?d"
    using assms by (simp_all add: ToWSBridgeConfig_def Let_def sdiv_10_pos)
  with assms show "0 < PingPeriod (ToWSBridgeConfig c)"
    and "PingPeriod (ToWSBridgeConfig c) + r < PongDeadline (ToWSBridgeConfig c)" by linarith+
qed

lemma responsive_prefix:
  assumes period: "0 < PingPeriod cf" "PingPeriod cf + r < PongDeadline cf"
    and fs: "sorted (map fst fs)" "\<forall>(t, f) \<in> set fs. start \<le> t \<and> t \<le> T"
    and pongs: "\<forall>k. ping_tick cf start k + r < T \<longrightarrow>
      (\<exists>t. (t, PongFrame) \<in> set fs \<and> ping_tick cf start k \<le> t \<and> t \<le> ping_tick cf start k + r)"
  shows "\<exists>e. read_connection cf start fs =
      (concat (map frame_event (takeWhile (\<lambda>(_, f). harmless cf f) fs)), e)
    \<and> (case dropWhile (\<lambda>(_, f). harmless cf f) fs of
         [] \<Rightarrow> \<exists>d > T. e = ReadTimeout d
       | (t, f) # _ \<Rightarrow> e = end_reason t f)"
proof -
  let ?ok = "takeWhile (\<lambda>(_, f). harmless cf f) fs" and ?rest = "dropWhile (\<lambda>(_, f). harmless cf f) fs"
  have fs': "fs = ?ok @ ?rest" by simp
  have ok: "sorted (map fst ?ok)" "\<forall>(t, f) \<in> set ?ok. harmless cf f"
    using fs(1) by (auto simp: sorted_wrt_takeWhile sorted_map dest: set_takeWhileD)
  show ?thesis
  proof (cases ?rest)
    case Nil
    then have all: "?ok = fs" using fs' by simp
    have "\<forall>(t, f) \<in> set fs. start + int 0 * PingPeriod cf \<le> t \<and> t \<le> T \<and> harmless cf f"
      using fs(2) ok(2) unfolding all by auto
    moreover have "answered_from cf start r T 0 fs" using pongs by (simp add: answered_from_def)
    ultimately obtain d where "d > T" "\<forall>gs. read_frames cf (start + PongDeadline cf) (fs @ gs) =
        (case read_frames cf d gs of (es, e) \<Rightarrow> (concat (map frame_event fs) @ es, e))"
      using responsive_reads [OF period fs(1), of start 0 T "start + PongDeadline cf"] by auto
    then have "read_connection cf start fs = (concat (map frame_event fs), ReadTimeout d)"
      unfolding read_connection_def by (metis append_Nil2 case_prod_conv read_frames.simps(1))
    then show ?thesis unfolding Nil all list.case using \<open>d > T\<close> by blast
  next
    case (Cons x rest)
    obtain u g where x: "x = (u, g)" by (cases x)
    have bad: "\<not> harmless cf g" using hd_dropWhile [of "\<lambda>(_, f). harmless cf f" fs] Cons x by auto
    have le: "t \<le> u" if "(t, f) \<in> set ?ok" for t f
      using fs(1) that unfolding sorted_map by (subst (asm) fs') (auto simp: Cons x sorted_wrt_append)
    have before: "(t, f) \<in> set ?ok" if "(t, f) \<in> set fs" "t < u" for t f
      using fs(1) that unfolding sorted_map by (subst (asm) (1 2) fs') (auto simp: Cons x sorted_wrt_append)
    have "u \<le> T" using fs(2) Cons x set_dropWhileD [of x "\<lambda>(_, f). harmless cf f" fs] by auto
    then have "answered_from cf start r u 0 ?ok"
      using pongs before unfolding answered_from_def by (meson le_less_trans less_le_trans)
    moreover have "\<forall>(t, f) \<in> set ?ok. start + int 0 * PingPeriod cf \<le> t \<and> t \<le> u \<and> harmless cf f"
      using fs(2) ok(2) le by (auto dest: set_takeWhileD)
    ultimately obtain d where "d > u" "\<forall>gs. read_frames cf (start + PongDeadline cf) (?ok @ gs) =
        (case read_frames cf d gs of (es, e) \<Rightarrow> (concat (map frame_event ?ok) @ es, e))"
      using responsive_reads [OF period ok(1), of start 0 u "start + PongDeadline cf"] by auto
    moreover from \<open>d > u\<close> have "read_frames cf d ?rest = ([], end_reason u g)"
      using read_harmful bad unfolding Cons x by blast
    ultimately have "read_frames cf (start + PongDeadline cf) (?ok @ ?rest) =
        (concat (map frame_event ?ok), end_reason u g)" by (simp del: takeWhile_dropWhile_id)
    then have "read_connection cf start fs = (concat (map frame_event ?ok), end_reason u g)"
      by (simp only: takeWhile_dropWhile_id read_connection_def)
    then show ?thesis using Cons x by simp
  qed
qed

text \<open>
  C21: a client that answers each ping of the server within a tenth of the configured read deadline
  is never timed out, however long it sends nothing else. The deadline is any from two nanoseconds
  up to the largest whose ninefold fits \<open>int64\<close>, and the frames arrive in order up to a horizon.
  Every message is received, in order, and every ping of the client is answered up to the first
  frame that itself ends the connection, a close frame, a message over the size limit or a ping
  whose pong cannot be written, and the connection then ends for this reason; without such a frame
  the deadline in force at the horizon is still ahead.
\<close>
theorem responsive_client_kept:
  assumes "2 \<le> parseDur (cPongDeadline (cWebSocket c))" and "parseDur (cPongDeadline (cWebSocket c)) * 9 < 2 ^ 63"
    and "cf = ToWSBridgeConfig c" and "10 * r < PongDeadline cf"
    and "sorted (map fst fs)" and "\<forall>(t, f) \<in> set fs. start \<le> t \<and> t \<le> T"
    and "\<forall>k. ping_tick cf start k + r < T \<longrightarrow>
      (\<exists>t. (t, PongFrame) \<in> set fs \<and> ping_tick cf start k \<le> t \<and> t \<le> ping_tick cf start k + r)"
  shows "\<exists>e. read_connection cf start fs =
      (concat (map frame_event (takeWhile (\<lambda>(_, f). harmless cf f) fs)), e)
    \<and> (case dropWhile (\<lambda>(_, f). harmless cf f) fs of
         [] \<Rightarrow> \<exists>d > T. e = ReadTimeout d
       | (t, f) # _ \<Rightarrow> e = end_reason t f)"
  using responsive_prefix [OF ping_margin [OF assms(1,2)]] assms(3-) by blast

text \<open>A pong after 55 of 60 seconds, a message after 100 and one of two megabytes after 105.\<close>

theorem responsive_client_kept_witness:
  "read_connection (ToWSBridgeConfig DefaultConfig) 0
     [(55 * second, PongFrame), (100 * second, DataFrame 2 None), (105 * second, DataFrame 2000000 None)]
   = ([Received (100 * second) None], TooLarge (105 * second))"
proof -
  let ?cf = "ToWSBridgeConfig DefaultConfig"
  let ?fs = "[(55 * second, PongFrame), (100 * second, DataFrame 2 None), (105 * second, DataFrame 2000000 None)]"
  have cf: "PingPeriod ?cf = 54 * second" "PongDeadline ?cf = 60 * second" "MaxMessageSize ?cf = 1048576"
    using defaults_agree by (simp_all add: DefaultBridgeConfig_def)
  have tick: "ping_tick ?cf 0 k = 54 * second + int k * (54 * second)" for k by (simp add: ping_tick_def cf algebra_simps)
  have pongs: "\<forall>k. ping_tick ?cf 0 k + 5 * second < 110 * second \<longrightarrow>
      (\<exists>t. (t, PongFrame) \<in> set ?fs \<and> ping_tick ?cf 0 k \<le> t \<and> t \<le> ping_tick ?cf 0 k + 5 * second)"
  proof (intro allI impI)
    fix k assume "ping_tick ?cf 0 k + 5 * second < 110 * second"
    then have "k = 0" by (cases k) (simp_all add: tick second_def)
    then show "\<exists>t. (t, PongFrame) \<in> set ?fs \<and> ping_tick ?cf 0 k \<le> t \<and> t \<le> ping_tick ?cf 0 k + 5 * second"
      by (simp add: tick second_def)
  qed
  have d: "2 \<le> parseDur (cPongDeadline (cWebSocket DefaultConfig))"
    "parseDur (cPongDeadline (cWebSocket DefaultConfig)) * 9 < 2 ^ 63"
    by (simp_all add: default_config_defs second_def)
  show ?thesis
    using responsive_client_kept [OF d refl, where r = "5 * second" and fs = ?fs and start = 0 and T = "110 * second", OF _ _ _ pongs]
    by (simp add: cf harmless_def frame_event_def second_def)
qed

text \<open>
  A client that never answers a ping is dropped exactly when the read deadline of its
  connection has passed, no matter how many messages it sends: what it sent before is received,
  nothing after it is, and only a pong moves the deadline.
\<close>
theorem silent_client_dropped:
  assumes "sorted (map fst fs)" and "\<forall>(t, f) \<in> set fs. f \<noteq> PongFrame \<and> harmless cf f"
  shows "read_connection cf start fs =
    (concat (map frame_event (filter (\<lambda>(t, _). t < start + PongDeadline cf) fs)), ReadTimeout (start + PongDeadline cf))"
  unfolding read_connection_def using assms by (rule read_without_pongs)

theorem silent_client_dropped_witness:
  "read_connection DefaultBridgeConfig 0 [(59 * second, DataFrame 2 None), (61 * second, DataFrame 2 None)]
     = ([Received (59 * second) None], ReadTimeout (60 * second))"
  using silent_client_dropped [of "[(59 * second, DataFrame 2 None), (61 * second, DataFrame 2 None)]" DefaultBridgeConfig 0]
  by (simp add: DefaultBridgeConfig_def harmless_def frame_event_def second_def)

end
