(* ===== verification/Startup.thy ===== *)
theory Startup
  imports Dht ConfigFile
begin

text \<open>
  The start of the process (main.go): the flags that override the configuration file, the choice
  between a tunnel and a direct listener, the search for tunnel relays, waiting for the tunnel and
  the attempts to find the DNS root. Constructing the clients of the network libraries and closing
  them is left to those libraries.
\<close>

section \<open>Flags\<close>

text \<open>The flags with the values they have when they are not given.\<close>

record cli_flags =
  fl_addr :: string
  fl_config :: string
  fl_tunnel :: int
  fl_verbosity :: int

definition no_flags :: cli_flags where
  "no_flags = \<lparr>fl_addr = [], fl_config = [], fl_tunnel = - 1, fl_verbosity = - 1\<rparr>"

definition apply_flags :: "cli_flags \<Rightarrow> Config \<Rightarrow> Config" where
  "apply_flags fl c0 =
     (let c1 = (if fl_addr fl \<noteq> [] then c0\<lparr>cListen := fl_addr fl\<rparr> else c0);
          c2 = (if fl_config fl \<noteq> [] then c1\<lparr>cTonConfig := fl_config fl\<rparr> else c1);
          c3 = (if fl_tunnel fl \<ge> 0 then c2\<lparr>cTunnelSections := fl_tunnel fl\<rparr> else c2)
      in if fl_verbosity fl \<ge> 0 then c3\<lparr>cVerbosity := fl_verbosity fl\<rparr> else c3)"

datatype log_level = FatalLevel | ErrorLevel | InfoLevel | DebugLevel

definition global_level :: "Config \<Rightarrow> log_level" where
  "global_level c = [FatalLevel, ErrorLevel, InfoLevel, DebugLevel] ! nat (max 0 (min (cVerbosity c) 3))"

text \<open>Where the network configuration comes from.\<close>

datatype config_source = ConfigFromFile string | ConfigFromUrl string

definition defaultConfigURL :: string where
  "defaultConfigURL = ''https://ton-blockchain.github.io/global.config.json''"

definition loadConfig :: "string \<Rightarrow> config_source" where
  "loadConfig path = (if path \<noteq> [] then ConfigFromFile path else ConfigFromUrl defaultConfigURL)"

section \<open>The DNS root\<close>

text \<open>Five attempts, numbered; the error of the last one is reported.\<close>

fun try_root :: "(nat \<Rightarrow> 'a result) \<Rightarrow> nat \<Rightarrow> nat \<Rightarrow> 'a result" where
  "try_root ask i 0 = ask i"
| "try_root ask i (Suc n) = (case ask i of Inr x \<Rightarrow> Inr x | Inl _ \<Rightarrow> try_root ask (Suc i) n)"

definition initDNSResolver :: "goerr option \<Rightarrow> (nat \<Rightarrow> ton_address result) \<Rightarrow> ton_address result" where
  "initDNSResolver connect ask =
     (case connect of
        Some e \<Rightarrow> Inl e
      | None \<Rightarrow>
         (case try_root ask 0 4 of
            Inl e \<Rightarrow> Inl (ErrWrap ''failed to get DNS root contract: '' e)
          | Inr root \<Rightarrow> Inr root))"

section \<open>Relays\<close>

text \<open>The nodes of at most three rounds; a failure counts only in the first.\<close>

fun relay_rounds ::
  "(nat \<Rightarrow> continuation option \<Rightarrow> ((dht_node list) option \<times> continuation option) result) \<Rightarrow>
   nat \<Rightarrow> nat \<Rightarrow> continuation option \<Rightarrow> dht_node list \<Rightarrow> (dht_node list) option" where
  "relay_rounds query i 0 cont acc = Some acc"
| "relay_rounds query i (Suc left) cont acc =
     (case query i cont of
        Inl _ \<Rightarrow> if i = 0 then None else Some acc
      | Inr (nodes, c) \<Rightarrow>
          (let acc' = (case nodes of None \<Rightarrow> acc | Some ns \<Rightarrow> acc @ ns) in
           if c = None then Some acc' else relay_rounds query (Suc i) left c acc'))"

fun relay_sections :: "dht_node list \<Rightarrow> string set \<Rightarrow> bytes list \<Rightarrow> bytes list" where
  "relay_sections [] seen out = out"
| "relay_sections (n # ns) seen out =
     (case node_key n of
        None \<Rightarrow> relay_sections ns seen out
      | Some key \<Rightarrow>
          if hex_encode key \<in> seen then relay_sections ns seen out
          else relay_sections ns (insert (hex_encode key) seen) (out @ [key]))"

text \<open>\<open>None\<close> and an empty list are both no relays for the caller.\<close>

definition discoverTunnelNodes ::
  "(nat \<Rightarrow> continuation option \<Rightarrow> ((dht_node list) option \<times> continuation option) result) \<Rightarrow> bytes list" where
  "discoverTunnelNodes query =
     (case relay_rounds query 0 3 None [] of
        None \<Rightarrow> []
      | Some nodes \<Rightarrow> relay_sections nodes {} [])"

section \<open>The tunnel\<close>

text \<open>
  The events of the tunnel, in order. The first update or error decides; a stop before it, like
  the end of the events, leaves the caller waiting for ever (\<open>None\<close>).
\<close>

datatype tunnel_event = StoppedEvent | UpdatedEvent nat | TunnelError goerr | OtherEvent

fun first_update :: "tunnel_event list \<Rightarrow> (nat result) option" where
  "first_update [] = None"
| "first_update (StoppedEvent # es) = None"
| "first_update (UpdatedEvent t # es) = Some (Inr t)"
| "first_update (TunnelError e # es) = Some (Inl e)"
| "first_update (OtherEvent # es) = first_update es"

definition startTunnel :: "bytes list \<Rightarrow> goerr option \<Rightarrow> tunnel_event list \<Rightarrow> (nat result) option" where
  "startTunnel relays generate events =
     (if relays = [] then Some (Inl (ErrMsg ''no tunnel relay nodes found via DHT''))
      else (case generate of
              Some e \<Rightarrow> Some (Inl (ErrWrap ''failed to generate tunnel config: '' e))
            | None \<Rightarrow>
               (case first_update events of
                  None \<Rightarrow> None
                | Some (Inl e) \<Rightarrow> Some (Inl (ErrWrap ''tunnel preparation failed: '' e))
                | Some (Inr t) \<Rightarrow> Some (Inr t))))"

text \<open>Two sections or more ask for a tunnel, anything else listens directly.\<close>

datatype net_manager = Direct nat | Tunnelled nat

definition network_manager ::
  "Config \<Rightarrow> nat result \<Rightarrow> (nat result) option \<Rightarrow> (net_manager result) option" where
  "network_manager c direct tunnel =
     (if cTunnelSections c \<ge> 2 then
        (case tunnel of
           None \<Rightarrow> None
         | Some (Inl e) \<Rightarrow> Some (Inl (ErrWrap ''tunnel init failed: '' e))
         | Some (Inr t) \<Rightarrow> Some (Inr (Tunnelled t)))
      else (case direct of
              Inl e \<Rightarrow> Some (Inl (ErrWrap ''failed to create listener: '' e))
            | Inr l \<Rightarrow> Some (Inr (Direct l))))"

lemma no_flags_keep: "apply_flags no_flags c = c"
  by (simp add: apply_flags_def no_flags_def)

lemma global_level_total:
  "global_level c = (if cVerbosity c \<le> 0 then FatalLevel else if cVerbosity c = 1 then ErrorLevel
     else if cVerbosity c = 2 then InfoLevel else DebugLevel)"
proof -
  consider "cVerbosity c \<le> 0" | "cVerbosity c = 1" | "cVerbosity c = 2" | "3 \<le> cVerbosity c" by linarith
  then show ?thesis by cases (simp_all add: global_level_def max_def min_def)
qed

lemma try_root_ok: "(\<exists>j \<le> n. ok (ask (i + j))) \<longleftrightarrow> ok (try_root ask i n)"
proof (induction n arbitrary: i)
  case (Suc n)
  have "(\<exists>j \<le> Suc n. ok (ask (i + j))) \<longleftrightarrow> ok (ask i) \<or> (\<exists>j \<le> n. ok (ask (Suc i + j)))"
    by (metis Suc_le_mono add.right_neutral add_Suc_shift not0_implies_Suc zero_le)
  with Suc.IH [of "Suc i"] show ?case by (cases "ask i") simp_all
qed simp

lemma relay_sections_distinct:
  "distinct out \<Longrightarrow> \<forall>k \<in> set out. hex_encode k \<in> seen \<Longrightarrow> distinct (relay_sections ns seen out)"
  by (induction ns seen out rule: relay_sections.induct) (auto split: option.split)

lemma relays_distinct: "distinct (discoverTunnelNodes query)"
  by (simp add: discoverTunnelNodes_def relay_sections_distinct split: option.split)

lemma stopped_first_hangs: "startTunnel (r # rs) None (StoppedEvent # es) = None"
  by (simp add: startTunnel_def)

end
