(* ===== verification/Process.thy ===== *)
theory Process
  imports Startup
begin

text \<open>
  The process from its flags to its exit (\<open>main\<close>, \<open>run\<close> and \<open>discoverTunnelNodes\<close> of main.go,
  \<open>Start\<close> of wsbridge/bridge.go): the stages of the start, the resources each of them opens, and
  the deferred calls that close them again. What the libraries return at each stage is the input.
\<close>

section \<open>Resources\<close>

datatype resource = Signals | ConnPool | NetMgr | DhtGate | DhtClient | WsGate | TmpGate | TmpDHT

datatype proc_event = Opened resource | Closed resource | Serving string

text \<open>\<open>Waiting\<close> is a call that has not returned, so that no deferred call has run.\<close>

datatype run_end = Returned "goerr option" | Waiting

type_synonym run_trace = "proc_event list \<times> run_end"

text \<open>A resource with the \<open>defer\<close> that closes it when what follows has returned.\<close>

definition holding :: "resource \<Rightarrow> run_trace \<Rightarrow> run_trace" where
  "holding r k =
     (case k of
        (es, Returned e) \<Rightarrow> (Opened r # es @ [Closed r], Returned e)
      | (es, Waiting) \<Rightarrow> (Opened r # es, Waiting))"

definition stage :: "'a result \<Rightarrow> string \<Rightarrow> ('a \<Rightarrow> run_trace) \<Rightarrow> run_trace" where
  "stage x msg k =
     (case x of
        Inl e \<Rightarrow> ([], Returned (Some (ErrWrap msg e)))
      | Inr y \<Rightarrow> k y)"

definition after :: "proc_event list \<Rightarrow> run_trace \<Rightarrow> run_trace" where
  "after es k = (es @ fst k, snd k)"

section \<open>The server\<close>

text \<open>
  \<open>ListenAndServe\<close> returns when the server is shut down or fails; an orderly shutdown is no error.
\<close>

datatype serve_end = ServerClosed | ServeFailed goerr | StillServing

definition Start :: "serve_end \<Rightarrow> string \<Rightarrow> run_trace" where
  "Start s addr =
     ([Serving addr],
      case s of
        ServerClosed \<Rightarrow> Returned None
      | ServeFailed e \<Rightarrow> Returned (Some e)
      | StillServing \<Rightarrow> Waiting)"

section \<open>The stages\<close>

type_synonym overlay_query =
  "nat \<Rightarrow> continuation option \<Rightarrow> ((dht_node list) option \<times> continuation option) result"

record boot =
  bt_network :: "config_source \<Rightarrow> unit result"
  bt_connect :: "goerr option"
  bt_root :: "nat \<Rightarrow> ton_address result"
  bt_listener :: "nat result"
  bt_tmp_key :: "goerr option"
  bt_tmp_gate :: "goerr option"
  bt_tmp_dht :: "goerr option"
  bt_overlay_key :: "goerr option"
  bt_query :: overlay_query
  bt_generate :: "goerr option"
  bt_events :: "tunnel_event list"
  bt_dht_key :: "unit result"
  bt_dht_gate :: "unit result"
  bt_dht_client :: "unit result"
  bt_ws_gate :: "unit result"
  bt_serve :: serve_end

text \<open>
  The search for relays with a client of its own; every failure is logged and leaves no relays.
\<close>

definition discover_relays :: "boot \<Rightarrow> proc_event list \<times> bytes list" where
  "discover_relays bt =
     (if bt_tmp_key bt \<noteq> None \<or> bt_tmp_gate bt \<noteq> None then ([], [])
      else if bt_tmp_dht bt \<noteq> None then ([Opened TmpGate, Closed TmpGate], [])
      else ([Opened TmpGate, Opened TmpDHT, Closed TmpDHT, Closed TmpGate],
            if bt_overlay_key bt \<noteq> None then [] else discoverTunnelNodes (bt_query bt)))"

definition with_network :: "boot \<Rightarrow> Config \<Rightarrow> run_trace \<Rightarrow> run_trace" where
  "with_network bt c k =
     (case discover_relays bt of
        (searched, relays) \<Rightarrow>
          after (if cTunnelSections c \<ge> 2 then searched else [])
           (case network_manager c (bt_listener bt) (startTunnel relays (bt_generate bt) (bt_events bt)) of
              None \<Rightarrow> ([], Waiting)
            | Some (Inl e) \<Rightarrow> ([], Returned (Some e))
            | Some (Inr _) \<Rightarrow> holding NetMgr k))"

text \<open>
  The pool is made inside \<open>initDNSResolver\<close>; when that fails its caller gets no pool to stop.
\<close>

definition with_pool :: "boot \<Rightarrow> run_trace \<Rightarrow> run_trace" where
  "with_pool bt k =
     (case initDNSResolver (bt_connect bt) (bt_root bt) of
        Inl e \<Rightarrow> ([Opened ConnPool], Returned (Some (ErrWrap ''failed to init DNS resolver: '' e)))
      | Inr _ \<Rightarrow> holding ConnPool k)"

definition run :: "boot \<Rightarrow> Config \<Rightarrow> run_trace" where
  "run bt c =
     holding Signals (
     stage (bt_network bt (loadConfig (cTonConfig c))) ''failed to load TON config: '' (\<lambda>_.
     with_pool bt (
     with_network bt c (
     stage (bt_dht_key bt) ''failed to generate DHT key: '' (\<lambda>_.
     stage (bt_dht_gate bt) ''failed to start DHT gateway: '' (\<lambda>_.
     holding DhtGate (
     stage (bt_dht_client bt) ''failed to init DHT client: '' (\<lambda>_.
     holding DhtClient (
     stage (bt_ws_gate bt) ''failed to start WS bridge gateway: '' (\<lambda>_.
     holding WsGate (
     Start (bt_serve bt) (cListen c))))))))))))"

text \<open>
  The network configuration is loaded and \<open>initDNSResolver\<close> fails, at adding the connections or at
  finding the root.
\<close>

definition pool_leaks :: "boot \<Rightarrow> Config \<Rightarrow> bool" where
  "pool_leaks bt c \<longleftrightarrow>
     ok (bt_network bt (loadConfig (cTonConfig c))) \<and> \<not> ok (initDNSResolver (bt_connect bt) (bt_root bt))"

text \<open>\<open>log.Fatal\<close> ends the process with the status one.\<close>

datatype proc_end = ExitOk | ExitFatal string goerr | Running

definition main_process :: "boot \<Rightarrow> cli_flags \<Rightarrow> Config result \<Rightarrow> proc_event list \<times> proc_end" where
  "main_process bt fl loaded =
     (case loaded of
        Inl e \<Rightarrow> ([], ExitFatal ''Failed to load config'' e)
      | Inr c \<Rightarrow>
         (case run bt (apply_flags fl c) of
            (es, Returned None) \<Rightarrow> (es, ExitOk)
          | (es, Returned (Some e)) \<Rightarrow> (es, ExitFatal ''Bridge stopped'' e)
          | (es, Waiting) \<Rightarrow> (es, Running)))"

section \<open>Opening and closing\<close>

text \<open>
  Replaying the events: a resource is opened once at a time, and only the one opened last is
  closed. The resources still open are the result, the newest first.
\<close>

fun replay :: "proc_event list \<Rightarrow> resource list \<Rightarrow> resource list option" where
  "replay [] open_now = Some open_now"
| "replay (Opened r # es) open_now = (if r \<in> set open_now then None else replay es (r # open_now))"
| "replay (Closed r # es) open_now =
     (case open_now of
        [] \<Rightarrow> None
      | q # qs \<Rightarrow> if q = r then replay es qs else None)"
| "replay (Serving _ # es) open_now = replay es open_now"

lemma replay_append:
  "replay (es @ fs) open_now = (case replay es open_now of None \<Rightarrow> None | Some qs \<Rightarrow> replay fs qs)"
  by (induction es open_now rule: replay.induct) (auto split: list.split)

text \<open>
  A part of the run that starts with the resources \<open>qs\<close> open and uses only those of \<open>R\<close>: it leaves
  \<open>qs\<close> open when it returns, and otherwise more on top of them.
\<close>

definition balanced :: "resource set \<Rightarrow> run_trace \<Rightarrow> bool" where
  "balanced R k \<longleftrightarrow>
     (\<forall>qs. set qs \<inter> R = {} \<longrightarrow>
        (\<exists>more. replay (fst k) qs = Some (more @ qs) \<and> set more \<subseteq> R \<and> (snd k \<noteq> Waiting \<longrightarrow> more = [])))"

named_theorems balancing

lemma balanced_returned [balancing]: "balanced R ([], Returned e)" "balanced R ([], Waiting)"
  "balanced R (Start s addr)"
  by (auto simp: balanced_def Start_def)

lemma balanced_stage [balancing]: "(\<And>x. balanced R (k x)) \<Longrightarrow> balanced R (stage x msg k)"
  by (cases x) (simp_all add: stage_def balancing)

lemma balanced_holding:
  assumes "balanced R k" "r \<notin> R"
  shows "balanced (insert r R) (holding r k)"
  unfolding balanced_def
proof (intro allI impI)
  fix qs assume qs: "set qs \<inter> insert r R = {}"
  obtain es e where k: "k = (es, e)" by (cases k)
  have "set (r # qs) \<inter> R = {}" using qs assms(2) by auto
  from assms(1) [unfolded balanced_def k fst_conv snd_conv, rule_format, OF this]
  obtain more where m: "replay es (r # qs) = Some (more @ r # qs)" "set more \<subseteq> R"
    "e \<noteq> Waiting \<longrightarrow> more = []" by blast
  show "\<exists>more. replay (fst (holding r k)) qs = Some (more @ qs) \<and> set more \<subseteq> insert r R
      \<and> (snd (holding r k) \<noteq> Waiting \<longrightarrow> more = [])"
  proof (cases e)
    case (Returned x)
    with m qs show ?thesis by (simp add: holding_def k replay_append)
  next
    case Waiting
    with m qs show ?thesis by (intro exI [of _ "more @ [r]"]) (auto simp: holding_def k)
  qed
qed

lemma balanced_mono:
  assumes "balanced R k" "R \<subseteq> S"
  shows "balanced S k"
  unfolding balanced_def
proof (intro allI impI)
  fix qs :: "resource list" assume "set qs \<inter> S = {}"
  with assms(2) have "set qs \<inter> R = {}" by blast
  with assms(1) obtain more where "replay (fst k) qs = Some (more @ qs)" "set more \<subseteq> R" "snd k \<noteq> Waiting \<longrightarrow> more = []"
    unfolding balanced_def by blast
  with assms(2) show "\<exists>more. replay (fst k) qs = Some (more @ qs) \<and> set more \<subseteq> S \<and> (snd k \<noteq> Waiting \<longrightarrow> more = [])"
    by blast
qed

lemma balanced_after: "balanced R (es, Returned None) \<Longrightarrow> balanced R k \<Longrightarrow> balanced R (after es k)"
  unfolding balanced_def after_def by (auto simp: replay_append split: option.split)

lemma searched_balanced: "balanced {TmpGate, TmpDHT} (fst (discover_relays bt), Returned None)"
  by (auto simp: discover_relays_def balanced_def)

lemma network_balanced:
  assumes "balanced R k" "NetMgr \<notin> R" "{TmpGate, TmpDHT} \<subseteq> R"
  shows "balanced (insert NetMgr R) (with_network bt c k)"
proof -
  obtain searched relays where d: "discover_relays bt = (searched, relays)" by (cases "discover_relays bt")
  have "balanced (insert NetMgr R) (if cTunnelSections c \<ge> 2 then searched else [], Returned None)"
    using balanced_mono [OF searched_balanced [of bt], of "insert NetMgr R"] assms(3) d by (auto simp: balancing)
  moreover have "balanced (insert NetMgr R) (holding NetMgr k)" using assms by (intro balanced_holding)
  ultimately show ?thesis
    unfolding with_network_def by (auto simp: d balancing intro!: balanced_after split: option.split sum.split)
qed

lemma with_pool_ok: "ok (initDNSResolver (bt_connect bt) (bt_root bt)) \<Longrightarrow> with_pool bt k = holding ConnPool k"
  by (auto simp: with_pool_def ok_def split: sum.splits)

lemma balanced_config:
  "(ok x \<Longrightarrow> balanced R k) \<Longrightarrow> balanced R (stage x msg (\<lambda>_. k))"
  by (cases x) (simp_all add: stage_def balancing)

lemma run_balanced:
  assumes leak: "\<not> pool_leaks bt c"
  shows "balanced UNIV (run bt c)"
proof -
  let ?inner = "insert DhtGate (insert DhtClient (insert WsGate {TmpGate, TmpDHT}))"
  let ?pool = "insert ConnPool (insert NetMgr ?inner)"
  define k where "k =
     stage (bt_dht_key bt) ''failed to generate DHT key: '' (\<lambda>_.
     stage (bt_dht_gate bt) ''failed to start DHT gateway: '' (\<lambda>_.
     holding DhtGate (
     stage (bt_dht_client bt) ''failed to init DHT client: '' (\<lambda>_.
     holding DhtClient (
     stage (bt_ws_gate bt) ''failed to start WS bridge gateway: '' (\<lambda>_.
     holding WsGate (
     Start (bt_serve bt) (cListen c))))))))"
  have "balanced ?inner k"
    unfolding k_def by (intro balanced_stage balanced_holding balancing) simp_all
  note net = network_balanced [OF this, of bt c]
  have "balanced ?pool (stage (bt_network bt (loadConfig (cTonConfig c))) ''failed to load TON config: ''
      (\<lambda>_. with_pool bt (with_network bt c k)))"
  proof (rule balanced_config)
    assume "ok (bt_network bt (loadConfig (cTonConfig c)))"
    with leak have "ok (initDNSResolver (bt_connect bt) (bt_root bt))" by (simp add: pool_leaks_def)
    then show "balanced ?pool (with_pool bt (with_network bt c k))"
      by (simp add: with_pool_ok balanced_holding net)
  qed
  then have "balanced (insert Signals ?pool) (holding Signals (stage (bt_network bt (loadConfig (cTonConfig c)))
      ''failed to load TON config: '' (\<lambda>_. with_pool bt (with_network bt c k))))"
    by (rule balanced_holding) simp
  moreover have "run bt c = holding Signals (stage (bt_network bt (loadConfig (cTonConfig c)))
      ''failed to load TON config: '' (\<lambda>_. with_pool bt (with_network bt c k)))"
    by (simp add: run_def k_def)
  ultimately have "balanced (insert Signals ?pool) (run bt c)" by argo
  then show ?thesis by (rule balanced_mono) simp
qed

text \<open>The resources that are open whenever the server starts.\<close>

fun served_with :: "proc_event list \<Rightarrow> resource list \<Rightarrow> (string \<times> resource list) list" where
  "served_with [] open_now = []"
| "served_with (Opened r # es) open_now = served_with es (r # open_now)"
| "served_with (Closed r # es) open_now = served_with es (tl open_now)"
| "served_with (Serving addr # es) open_now = (addr, open_now) # served_with es open_now"

definition serves :: "string \<Rightarrow> resource list \<Rightarrow> run_trace \<Rightarrow> bool" where
  "serves addr st k \<longleftrightarrow> (\<forall>qs. served_with (fst k) qs \<in> {[], [(addr, st @ qs)]})"

named_theorems serving_rules

lemma serves_returned [serving_rules]: "serves addr st ([], e)"
  by (simp add: serves_def)

lemma serves_start [serving_rules]: "serves addr [] (Start s addr)"
  by (simp add: serves_def Start_def)

lemma serves_stage [serving_rules]: "(\<And>x. serves addr st (k x)) \<Longrightarrow> serves addr st (stage x msg k)"
  by (cases x) (simp_all add: stage_def serves_returned)

lemma served_with_closed: "served_with (es @ [Closed r]) qs = served_with es qs"
  by (induction es qs rule: served_with.induct) simp_all

lemma serves_holding: "serves addr st k \<Longrightarrow> serves addr (st @ [r]) (holding r k)"
  by (auto simp: serves_def holding_def served_with_closed split: prod.split run_end.split)

lemma serves_network: "serves addr st k \<Longrightarrow> serves addr (st @ [NetMgr]) (with_network bt c k)"
  using serves_holding [of addr st k NetMgr]
  by (auto simp: with_network_def discover_relays_def serves_def after_def
      split: option.split sum.split)

lemma serves_pool: "serves addr st k \<Longrightarrow> serves addr (st @ [ConnPool]) (with_pool bt k)"
  using serves_holding [of addr st k ConnPool] by (simp add: with_pool_def serves_def split: sum.split)

lemma run_serves: "serves (cListen c) [WsGate, DhtClient, DhtGate, NetMgr, ConnPool, Signals] (run bt c)"
proof -
  have "serves (cListen c) (((([] @ [WsGate]) @ [DhtClient]) @ [DhtGate]) @ [NetMgr])
    (with_network bt c (
     stage (bt_dht_key bt) ''failed to generate DHT key: '' (\<lambda>_.
     stage (bt_dht_gate bt) ''failed to start DHT gateway: '' (\<lambda>_.
     holding DhtGate (
     stage (bt_dht_client bt) ''failed to init DHT client: '' (\<lambda>_.
     holding DhtClient (
     stage (bt_ws_gate bt) ''failed to start WS bridge gateway: '' (\<lambda>_.
     holding WsGate (
     Start (bt_serve bt) (cListen c))))))))))"
    by (intro serves_network serves_stage serves_holding serves_start)
  then have "serves (cListen c) (((((([] @ [WsGate]) @ [DhtClient]) @ [DhtGate]) @ [NetMgr]) @ [ConnPool]) @ [Signals]) (run bt c)"
    unfolding run_def by (intro serves_stage serves_holding serves_pool)
  then show ?thesis by simp
qed

section \<open>How a run ends\<close>

text \<open>
  The stages that fail, in the order of the start, each with the message that names it and its own
  error. The tunnel and the listener are alternatives.
\<close>

definition fails :: "string \<Rightarrow> 'a result \<Rightarrow> (string \<times> goerr) list" where
  "fails m x = (case x of Inl e \<Rightarrow> [(m, e)] | Inr _ \<Rightarrow> [])"

definition tunnel_result :: "boot \<Rightarrow> (nat result) option" where
  "tunnel_result bt = startTunnel (snd (discover_relays bt)) (bt_generate bt) (bt_events bt)"

definition boot_failures :: "boot \<Rightarrow> Config \<Rightarrow> (string \<times> goerr) list" where
  "boot_failures bt c =
     fails ''failed to load TON config: '' (bt_network bt (loadConfig (cTonConfig c))) @
     fails ''failed to init DNS resolver: '' (initDNSResolver (bt_connect bt) (bt_root bt)) @
     (if cTunnelSections c \<ge> 2
      then (case tunnel_result bt of None \<Rightarrow> [] | Some x \<Rightarrow> fails ''tunnel init failed: '' x)
      else fails ''failed to create listener: '' (bt_listener bt)) @
     fails ''failed to generate DHT key: '' (bt_dht_key bt) @
     fails ''failed to start DHT gateway: '' (bt_dht_gate bt) @
     fails ''failed to init DHT client: '' (bt_dht_client bt) @
     fails ''failed to start WS bridge gateway: '' (bt_ws_gate bt)"

text \<open>How a part of the run ends that starts with these failures ahead of it.\<close>

definition ends_by :: "(string \<times> goerr) list \<Rightarrow> bool \<Rightarrow> serve_end \<Rightarrow> run_end \<Rightarrow> bool" where
  "ends_by fs hangs s r \<longleftrightarrow>
     (case r of
        Returned None \<Rightarrow> fs = [] \<and> s = ServerClosed
      | Returned (Some e) \<Rightarrow> (case fs of [] \<Rightarrow> s = ServeFailed e | (m, e') # _ \<Rightarrow> e = ErrWrap m e')
      | Waiting \<Rightarrow> hangs \<or> fs = [] \<and> s = StillServing)"

lemma ends_start: "ends_by [] h s (snd (Start s addr))"
  by (simp add: ends_by_def Start_def split: serve_end.split)

lemma snd_holding [simp]: "snd (holding r k) = snd k"
  by (simp add: holding_def split: prod.split run_end.split)

lemma ends_holding: "ends_by fs h s (snd k) \<Longrightarrow> ends_by fs h s (snd (holding r k))"
  by simp

lemma ends_failed: "ends_by (fails m (Inl e) @ fs) h s (Returned (Some (ErrWrap m e)))"
  by (simp add: ends_by_def fails_def)

lemma fails_not [simp]: "fails m (Inr x) = []"
  by (simp add: fails_def)

lemma ends_stage: "ends_by fs h s (snd k) \<Longrightarrow> ends_by (fails m x @ fs) h s (snd (stage x m (\<lambda>_. k)))"
  by (cases x) (simp_all add: stage_def fails_def ends_by_def)

lemma ends_last_stage: "ends_by [] h s (snd k) \<Longrightarrow> ends_by (fails m x) h s (snd (stage x m (\<lambda>_. k)))"
  using ends_stage [of "[]" h s k m x] by simp

lemma ends_pool:
  "ends_by fs h s (snd k) \<Longrightarrow>
   ends_by (fails ''failed to init DNS resolver: '' (initDNSResolver (bt_connect bt) (bt_root bt)) @ fs) h s (snd (with_pool bt k))"
  using ends_holding [of fs h s k ConnPool]
  by (cases "initDNSResolver (bt_connect bt) (bt_root bt)") (simp_all add: with_pool_def fails_def ends_by_def)

lemma ends_network:
  assumes "ends_by fs h s (snd k)" "cTunnelSections c \<ge> 2 \<and> tunnel_result bt = None \<Longrightarrow> h"
  shows "ends_by ((if cTunnelSections c \<ge> 2
      then (case tunnel_result bt of None \<Rightarrow> [] | Some x \<Rightarrow> fails ''tunnel init failed: '' x)
      else fails ''failed to create listener: '' (bt_listener bt)) @ fs) h s (snd (with_network bt c k))"
proof -
  obtain searched relays where d: "discover_relays bt = (searched, relays)" by (cases "discover_relays bt")
  let ?m = "network_manager c (bt_listener bt) (tunnel_result bt)"
  have w: "snd (with_network bt c k) = snd (case ?m of
      None \<Rightarrow> ([], Waiting) | Some (Inl e) \<Rightarrow> ([], Returned (Some e)) | Some (Inr _) \<Rightarrow> holding NetMgr k)"
    by (simp add: with_network_def tunnel_result_def d after_def)
  show ?thesis
  proof (cases "cTunnelSections c \<ge> 2")
    case True
    show ?thesis
    proof (cases "tunnel_result bt")
      case None
      with True assms(2) show ?thesis unfolding w by (simp add: network_manager_def ends_by_def)
    next
      case (Some x)
      with True assms(1) show ?thesis unfolding w by (cases x) (simp_all add: network_manager_def ends_failed)
    qed
  next
    case False
    with assms(1) show ?thesis
      unfolding w by (cases "bt_listener bt") (simp_all add: network_manager_def ends_failed)
  qed
qed

lemma run_ends:
  "ends_by (boot_failures bt c) (cTunnelSections c \<ge> 2 \<and> tunnel_result bt = None) (bt_serve bt) (snd (run bt c))"
  unfolding run_def boot_failures_def
  by (intro ends_holding ends_stage ends_pool ends_network ends_last_stage ends_start) simp_all

lemma pool_leak_run:
  assumes "pool_leaks bt c"
  shows "\<exists>e. run bt c = ([Opened Signals, Opened ConnPool, Closed Signals],
    Returned (Some (ErrWrap ''failed to init DNS resolver: '' e)))"
  using assms
  by (auto simp: pool_leaks_def run_def with_pool_def stage_def holding_def ok_def split: sum.splits)

text \<open>
  C22: whatever fails or stops on the way, every path through \<open>run\<close> closes each resource it opened
  exactly once and in the reverse order before it returns, with one exception: once the network
  configuration is loaded, when the connections to its liteservers cannot be added or the root of
  the DNS cannot be found, the connection pool stays open. A call that does not return leaves
  resources open but never closes one too many. The server starts at most once, at the configured
  address, with the signal context, the connection pool, the network manager, the DHT gateway and
  client and the gateway of the bridge open. A run that returns an error gives the message of the
  first stage that fails with the error of that stage, or the error of the server when no stage
  fails; it returns without an error only when no stage fails and the server is shut down, and it
  does not return only while the tunnel reports nothing or the server serves.
\<close>
theorem run_releases_resources:
  "(if pool_leaks bt c then fst (run bt c) = [Opened Signals, Opened ConnPool, Closed Signals]
    else \<exists>left_open. replay (fst (run bt c)) [] = Some left_open \<and> (snd (run bt c) = Waiting \<or> left_open = []))
   \<and> served_with (fst (run bt c)) [] \<in> {[], [(cListen c, [WsGate, DhtClient, DhtGate, NetMgr, ConnPool, Signals])]}
   \<and> (case snd (run bt c) of
        Returned None \<Rightarrow> boot_failures bt c = [] \<and> bt_serve bt = ServerClosed
      | Returned (Some e) \<Rightarrow>
          (case boot_failures bt c of [] \<Rightarrow> bt_serve bt = ServeFailed e | (m, e') # _ \<Rightarrow> e = ErrWrap m e')
      | Waiting \<Rightarrow>
          cTunnelSections c \<ge> 2 \<and> tunnel_result bt = None \<or> boot_failures bt c = [] \<and> bt_serve bt = StillServing)"
proof (intro conjI)
  have "\<exists>left_open. replay (fst (run bt c)) [] = Some left_open \<and> (snd (run bt c) = Waiting \<or> left_open = [])"
    if leak: "\<not> pool_leaks bt c"
  proof -
    obtain more where "replay (fst (run bt c)) [] = Some (more @ [])" "snd (run bt c) \<noteq> Waiting \<longrightarrow> more = []"
      using run_balanced [OF leak] unfolding balanced_def by (metis inf_bot_left list.set(1))
    then show ?thesis by (cases "snd (run bt c)") simp_all
  qed
  with pool_leak_run [of bt c]
  show "if pool_leaks bt c then fst (run bt c) = [Opened Signals, Opened ConnPool, Closed Signals]
    else \<exists>left_open. replay (fst (run bt c)) [] = Some left_open \<and> (snd (run bt c) = Waiting \<or> left_open = [])"
    by auto
  show "served_with (fst (run bt c)) [] \<in> {[], [(cListen c, [WsGate, DhtClient, DhtGate, NetMgr, ConnPool, Signals])]}"
    using run_serves [of c bt] unfolding serves_def by (metis append_Nil2)
  show "case snd (run bt c) of
        Returned None \<Rightarrow> boot_failures bt c = [] \<and> bt_serve bt = ServerClosed
      | Returned (Some e) \<Rightarrow>
          (case boot_failures bt c of [] \<Rightarrow> bt_serve bt = ServeFailed e | (m, e') # _ \<Rightarrow> e = ErrWrap m e')
      | Waiting \<Rightarrow>
          cTunnelSections c \<ge> 2 \<and> tunnel_result bt = None \<or> boot_failures bt c = [] \<and> bt_serve bt = StillServing"
    using run_ends [of bt c] unfolding ends_by_def .
qed

text \<open>A shutdown is the only way to the exit status zero.\<close>

lemma exit_ok_shutdown:
  assumes "main_process bt fl loaded = (es, ExitOk)"
  shows "bt_serve bt = ServerClosed"
proof (cases loaded)
  case (Inr c)
  with assms run_ends [of bt "apply_flags fl c"] show ?thesis
    by (auto simp: main_process_def ends_by_def split: prod.splits run_end.splits option.splits)
qed (use assms in \<open>simp add: main_process_def\<close>)

text \<open>A start that fails at the DHT client, and one that serves until the shutdown.\<close>

definition demo_boot :: boot where
  "demo_boot = \<lparr>bt_network = (\<lambda>_. Inr ()), bt_connect = None, bt_root = (\<lambda>i. if i < 2 then Inl (ErrLib 1) else Inr (Address 9)),
     bt_listener = Inr 3, bt_tmp_key = None, bt_tmp_gate = None, bt_tmp_dht = None, bt_overlay_key = None,
     bt_query = (\<lambda>_ _. Inl (ErrLib 2)), bt_generate = None, bt_events = [], bt_dht_key = Inr (), bt_dht_gate = Inr (),
     bt_dht_client = Inl (ErrLib 5), bt_ws_gate = Inr (), bt_serve = ServerClosed\<rparr>"

lemma demo_boot_runs:
  "run demo_boot DefaultConfig =
     ([Opened Signals, Opened ConnPool, Opened NetMgr, Opened DhtGate,
       Closed DhtGate, Closed NetMgr, Closed ConnPool, Closed Signals],
      Returned (Some (ErrWrap ''failed to init DHT client: '' (ErrLib 5))))"
  "snd (run (demo_boot\<lparr>bt_dht_client := Inr ()\<rparr>) DefaultConfig) = Returned None"
  by (simp_all add: run_def demo_boot_def holding_def stage_def initDNSResolver_def numeral_eq_Suc with_pool_def with_network_def
      discover_relays_def discoverTunnelNodes_def startTunnel_def after_def network_manager_def
      default_config_defs Start_def)

end
