(* ===== verification/Locks.thy ===== *)
theory Locks
  imports Prelude
begin

text \<open>
  Mutexes, wait groups and the data they protect: a language of lock programs with early returns
  and calls, a check that a program takes mutexes in the order of their ranks, gives all of them
  back, joins other goroutines only while it holds none and touches shared data only under the mutex
  that guards it, and the proof that threads that pass the check neither deadlock nor race.
  \<open>sync.RWMutex\<close> is modelled with its readers, its writer and the writers that wait: these keep new
  readers out.
\<close>

section \<open>Lock programs\<close>

datatype mutex =
    PeerLifecycleMu
  | ActiveOverlaysMu
  | OverlayToPeerMu
  | ActivePeersMu
  | PendingQueriesMu
  | PeersMu nat
  | SubscriptionsMu nat
  | ClientsMu
  | WriteMu nat

text \<open>
  The shared data: the four maps of peers together, the other maps of \<open>WSBridge\<close>, and of each client
  its two lists, its registry of subscriptions and the writing side of its connection.
\<close>

datatype shared =
    PeerMaps
  | OverlayMap
  | OverlayPeers
  | QueryMap
  | ClientMap
  | Owned nat
  | Registry nat
  | Writer nat

primrec guard :: "shared \<Rightarrow> mutex" where
  "guard PeerMaps = ActivePeersMu"
| "guard OverlayMap = ActiveOverlaysMu"
| "guard OverlayPeers = OverlayToPeerMu"
| "guard QueryMap = PendingQueriesMu"
| "guard ClientMap = ClientsMu"
| "guard (Owned c) = PeersMu c"
| "guard (Registry c) = SubscriptionsMu c"
| "guard (Writer c) = WriteMu c"

text \<open>
  What a goroutine counts in: the \<open>wg\<close> of a client, for its request handlers and its ping pump, or
  the local wait group of a handler, for the workers it starts.
\<close>

datatype wait_group = Uncounted | ClientGroup nat | WorkerGroup nat nat

text \<open>
  \<open>Acquire True\<close> is \<open>Lock\<close>, \<open>Acquire False\<close> is \<open>RLock\<close>; \<open>Access True\<close> changes shared data,
  \<open>Access False\<close> reads it; \<open>Blocking\<close> is a call that may take time, and \<open>Join\<close> is \<open>Wait\<close> of a wait group.
\<close>

datatype lock_op = Acquire bool mutex | Release mutex | Access bool shared | Blocking | Join wait_group

text \<open>
  \<open>ReturnIf\<close> is a conditional branch that ends the function, \<open>Call\<close> a function (or a scope with
  deferred calls after it), \<open>Either\<close> a branch after which the function goes on.
\<close>

datatype stmt =
    Do lock_op
  | ReturnIf "stmt list"
  | Either "stmt list" "stmt list"
  | Repeat "stmt list"
  | Call "stmt list"

inductive runs :: "stmt list \<Rightarrow> lock_op list \<Rightarrow> bool" where
  finished: "runs [] []"
| op: "runs ss t \<Longrightarrow> runs (Do x # ss) (x # t)"
| stay: "runs ss t \<Longrightarrow> runs (ReturnIf es # ss) t"
| leave: "runs es t \<Longrightarrow> runs (ReturnIf es # ss) t"
| left: "runs xs t \<Longrightarrow> runs ss u \<Longrightarrow> runs (Either xs ys # ss) (t @ u)"
| right: "runs ys t \<Longrightarrow> runs ss u \<Longrightarrow> runs (Either xs ys # ss) (t @ u)"
| enough: "runs ss t \<Longrightarrow> runs (Repeat xs # ss) t"
| again: "runs xs t \<Longrightarrow> runs (Repeat xs # ss) u \<Longrightarrow> runs (Repeat xs # ss) (t @ u)"
| call: "runs xs t \<Longrightarrow> runs ss u \<Longrightarrow> runs (Call xs # ss) (t @ u)"

section \<open>The check\<close>

definition rank :: "mutex \<Rightarrow> nat" where
  "rank m =
     (case m of
        PeerLifecycleMu \<Rightarrow> 0
      | ActiveOverlaysMu \<Rightarrow> 1
      | OverlayToPeerMu \<Rightarrow> 2
      | ActivePeersMu \<Rightarrow> 3
      | PendingQueriesMu \<Rightarrow> 4
      | PeersMu _ \<Rightarrow> 5
      | SubscriptionsMu _ \<Rightarrow> 6
      | ClientsMu \<Rightarrow> 7
      | WriteMu _ \<Rightarrow> 8)"

text \<open>What is held, with the mode: \<open>True\<close> for the writer.\<close>

type_synonym held = "(mutex \<times> bool) list"

definition next_in_order :: "mutex \<Rightarrow> held \<Rightarrow> bool" where
  "next_in_order m held \<longleftrightarrow> list_all (\<lambda>(x, _). rank x < rank m) held"

definition allowed :: "bool \<Rightarrow> shared \<Rightarrow> held \<Rightarrow> bool" where
  "allowed w x held \<longleftrightarrow> list_ex (\<lambda>(m, v). m = guard x \<and> (w \<longrightarrow> v)) held"

fun unhold :: "mutex \<Rightarrow> held \<Rightarrow> held option" where
  "unhold m [] = None"
| "unhold m (x # xs) = (if fst x = m then Some xs else map_option ((#) x) (unhold m xs))"

text \<open>A goroutine joins only groups of goroutines nested below its own.\<close>

definition depth :: "wait_group \<Rightarrow> nat" where
  "depth g = (case g of WorkerGroup _ _ \<Rightarrow> 0 | ClientGroup _ \<Rightarrow> 1 | Uncounted \<Rightarrow> 2)"

text \<open>One path of a goroutine at depth \<open>d\<close>: the mutexes held at its end, if it keeps to the order.\<close>

fun disciplined :: "nat \<Rightarrow> lock_op list \<Rightarrow> held \<Rightarrow> held option" where
  "disciplined d [] held = Some held"
| "disciplined d (Acquire w m # t) held = (if next_in_order m held then disciplined d t ((m, w) # held) else None)"
| "disciplined d (Release m # t) held = (case unhold m held of None \<Rightarrow> None | Some h \<Rightarrow> disciplined d t h)"
| "disciplined d (Access w x # t) held = (if allowed w x held then disciplined d t held else None)"
| "disciplined d (Blocking # t) held = disciplined d t held"
| "disciplined d (Join g # t) held = (if held = [] \<and> depth g < d then disciplined d t held else None)"

text \<open>All paths of a program at once, which have to end with the same mutexes held.\<close>

fun check :: "nat \<Rightarrow> stmt list \<Rightarrow> held \<Rightarrow> held option" where
  "check d [] held = Some held"
| "check d (Do x # ss) held = (case disciplined d [x] held of None \<Rightarrow> None | Some h \<Rightarrow> check d ss h)"
| "check d (ReturnIf es # ss) held =
     (case check d es held of None \<Rightarrow> None | Some h \<Rightarrow> if check d ss held = Some h then Some h else None)"
| "check d (Either xs ys # ss) held =
     (case check d xs held of None \<Rightarrow> None | Some h \<Rightarrow> if check d ys held = Some h then check d ss h else None)"
| "check d (Repeat xs # ss) held = (if check d xs held = Some held then check d ss held else None)"
| "check d (Call xs # ss) held = (case check d xs held of None \<Rightarrow> None | Some h \<Rightarrow> check d ss h)"

lemma disciplined_append:
  "disciplined d (t @ u) held = (case disciplined d t held of None \<Rightarrow> None | Some h \<Rightarrow> disciplined d u h)"
  by (induction d t held rule: disciplined.induct) (simp_all split: option.split)

text \<open>The check speaks for every path.\<close>

lemma check_sound: "runs ss t \<Longrightarrow> check d ss held = Some h \<Longrightarrow> disciplined d t held = Some h"
proof (induction arbitrary: held h rule: runs.induct)
  case (op ss t x)
  then show ?case
    using disciplined_append [of d "[x]" t held] by (auto split: option.splits)
qed (auto simp: disciplined_append split: option.splits if_splits)

section \<open>Threads\<close>

text \<open>
  What a thread counts in, what it holds, with the mode, what it still has to do, and whether it has
  called the \<open>Lock\<close> that comes next and waits in it.
\<close>

record lock_thread =
  th_group :: wait_group
  th_held :: held
  th_rest :: "lock_op list"
  th_waits :: bool

definition goroutine :: "wait_group \<Rightarrow> lock_op list \<Rightarrow> lock_thread" where
  "goroutine g t = \<lparr>th_group = g, th_held = [], th_rest = t, th_waits = False\<rparr>"

definition holds :: "lock_thread \<Rightarrow> mutex \<Rightarrow> bool" where
  "holds th m \<longleftrightarrow> m \<in> fst ` set (th_held th)"

definition wants_write :: "lock_thread \<Rightarrow> mutex \<Rightarrow> bool" where
  "wants_write th m \<longleftrightarrow>
     th_waits th \<and> (case th_rest th of Acquire True x # _ \<Rightarrow> x = m | _ \<Rightarrow> False)"

text \<open>
  A writer first announces itself, which needs nobody, and gets the mutex when no one holds it; a
  reader gets it when no writer holds it or has announced itself. A \<open>Wait\<close> returns when the
  goroutines of its group have returned.
\<close>

definition enabled :: "lock_thread list \<Rightarrow> lock_thread \<Rightarrow> bool" where
  "enabled ths th \<longleftrightarrow>
     (case th_rest th of
        [] \<Rightarrow> False
      | Acquire True m # _ \<Rightarrow> th_waits th \<longrightarrow> \<not> list_ex (\<lambda>x. holds x m) ths
      | Acquire False m # _ \<Rightarrow> \<not> list_ex (\<lambda>x. (m, True) \<in> set (th_held x) \<or> wants_write x m) ths
      | Join g # _ \<Rightarrow> \<not> list_ex (\<lambda>x. th_group x = g \<and> th_rest x \<noteq> []) ths
      | _ \<Rightarrow> True)"

definition advance :: "lock_thread \<Rightarrow> lock_thread" where
  "advance th =
     (case th_rest th of
        [] \<Rightarrow> th
      | Acquire w m # t \<Rightarrow>
          if w \<and> \<not> th_waits th then th\<lparr>th_waits := True\<rparr>
          else th\<lparr>th_held := (m, w) # th_held th, th_rest := t, th_waits := False\<rparr>
      | Release m # t \<Rightarrow>
          th\<lparr>th_held := (case unhold m (th_held th) of None \<Rightarrow> th_held th | Some h \<Rightarrow> h), th_rest := t\<rparr>
      | _ # t \<Rightarrow> th\<lparr>th_rest := t\<rparr>)"

inductive lock_step :: "lock_thread list \<Rightarrow> lock_thread list \<Rightarrow> bool" where
  "i < length ths \<Longrightarrow> enabled ths (ths ! i) \<Longrightarrow> lock_step ths (ths[i := advance (ths ! i)])"

definition well_locked :: "lock_thread \<Rightarrow> bool" where
  "well_locked th \<longleftrightarrow>
     disciplined (depth (th_group th)) (th_rest th) (th_held th) = Some [] \<and>
     (th_waits th \<longrightarrow> (case th_rest th of Acquire True _ # _ \<Rightarrow> True | _ \<Rightarrow> False))"

text \<open>At most two steps for each operation.\<close>

definition steps_left :: "lock_thread \<Rightarrow> nat" where
  "steps_left th = 2 * length (th_rest th) - (if th_waits th then 1 else 0)"

definition ops_left :: "lock_thread list \<Rightarrow> nat" where
  "ops_left ths = sum_list (map steps_left ths)"

definition all_finished :: "lock_thread list \<Rightarrow> bool" where
  "all_finished ths \<longleftrightarrow> list_all (\<lambda>th. th_rest th = []) ths"

lemma advance_well_locked:
  assumes "well_locked th" "th_rest th \<noteq> []"
  shows "well_locked (advance th) \<and> steps_left (advance th) < steps_left th"
proof (cases "th_rest th")
  case (Cons x t)
  show ?thesis
  proof (cases x)
    case (Acquire w m)
    with assms(1) Cons show ?thesis
      by (cases w; cases "th_waits th") (auto simp: well_locked_def advance_def steps_left_def split: if_splits)
  qed (use assms(1) Cons in
      \<open>auto simp: well_locked_def advance_def steps_left_def split: if_splits option.splits\<close>)
qed (use assms in simp)

lemma finished_holds_nothing: "well_locked th \<Longrightarrow> th_rest th = [] \<Longrightarrow> \<not> holds th m"
  by (simp add: well_locked_def holds_def)

lemma join_holds_nothing:
  "well_locked th \<Longrightarrow> th_rest th = Join g # t \<Longrightarrow> \<not> holds th m \<and> depth g < depth (th_group th)"
  by (auto simp: well_locked_def holds_def split: if_splits)

text \<open>
  A thread that cannot go on waits for others to return and holds nothing, or waits for a mutex
  above all it holds.
\<close>

lemma blocked_wants:
  assumes "\<not> enabled ths th" "th_rest th \<noteq> []" "well_locked th"
  obtains
    (join) g t where "th_rest th = Join g # t" "list_ex (\<lambda>x. th_group x = g \<and> th_rest x \<noteq> []) ths"
  | (mutex) w m t where "th_rest th = Acquire w m # t" "\<And>x. holds th x \<Longrightarrow> rank x < rank m"
      "list_ex (\<lambda>x. holds x m \<or> wants_write x m) ths"
proof (cases "th_rest th")
  case (Cons x t)
  show thesis
  proof (cases x)
    case (Acquire w m)
    have "rank y < rank m" if "holds th y" for y
      using assms(3) Cons Acquire that
      by (force simp: well_locked_def next_in_order_def list_all_iff holds_def split: if_splits)
    moreover have "list_ex (\<lambda>x. holds x m \<or> wants_write x m) ths"
      using assms(1) Cons Acquire by (cases w; force simp: enabled_def list_ex_iff holds_def)
    ultimately show thesis using mutex Cons Acquire by blast
  qed (use assms(1) Cons join in \<open>simp_all add: enabled_def\<close>)
qed (use assms in simp)

definition wanted :: "lock_thread \<Rightarrow> nat" where
  "wanted th = (case th_rest th of Acquire _ m # _ \<Rightarrow> Suc (rank m) | _ \<Rightarrow> 0)"

text \<open>Among finitely many waiting threads, the holder of a wanted mutex waits for a higher one.\<close>

lemma holder_wants_more:
  assumes no: "\<not> enabled ths x" and wl: "well_locked x" and h: "holds x m"
  shows "th_rest x \<noteq> [] \<and> Suc (rank m) < wanted x"
proof -
  have busy: "th_rest x \<noteq> []" using finished_holds_nothing wl h by blast
  from no busy wl show ?thesis
  proof (cases rule: blocked_wants)
    case (join g t)
    with join_holds_nothing [OF wl] h show ?thesis by blast
  next
    case (mutex w m' t)
    with h busy show ?thesis by (simp add: wanted_def)
  qed
qed

lemma some_enabled:
  assumes wl: "\<forall>th \<in> set ths. well_locked th" and busy: "\<not> all_finished ths"
  shows "\<exists>th \<in> set ths. enabled ths th"
proof (rule ccontr)
  assume no: "\<not> ?thesis"
  let ?U = "{th \<in> set ths. th_rest th \<noteq> []}"
  have fin: "finite ?U" and ne: "?U \<noteq> {}" using busy by (auto simp: all_finished_def list_all_iff)
  from ne have ne': "wanted ` ?U \<noteq> {}" by blast
  from Max_in [OF finite_imageI [OF fin] ne'] obtain th where th: "th \<in> ?U"
    and m: "Max (wanted ` ?U) = wanted th" by (rule imageE)
  have top: "wanted x \<le> wanted th" if "x \<in> ?U" for x
    using Max_ge [OF finite_imageI [OF fin] imageI [OF that, of wanted]] m by simp
  have no_holder: False if h: "holds x m" "x \<in> set ths" "wanted th = Suc (rank m)" for x m
  proof -
    have "\<not> enabled ths x" "well_locked x" using h(2) no wl by blast+
    from holder_wants_more [OF this h(1)] have "x \<in> ?U" "wanted th < wanted x" using h(2,3) by simp_all
    with top [of x] show False by simp
  qed
  have th': "\<not> enabled ths th" "th_rest th \<noteq> []" "well_locked th" using th no wl by blast+
  then show False
  proof (cases rule: blocked_wants)
    case (mutex w m t)
    then have m: "wanted th = Suc (rank m)" by (simp add: wanted_def)
    from mutex(3) obtain x where x: "x \<in> set ths" "holds x m \<or> wants_write x m" by (auto simp: list_ex_iff)
    with no_holder m have "wants_write x m" by blast
    then obtain t' where t': "th_rest x = Acquire True m # t'" "th_waits x"
      by (auto simp: wants_write_def split: list.splits lock_op.splits bool.splits)
    from x(1) no have "\<not> enabled ths x" by blast
    with t' have "list_ex (\<lambda>y. holds y m) ths" by (simp add: enabled_def)
    with no_holder m show False by (auto simp: list_ex_iff)
  next
    case (join g t)
    then have zero: "wanted x = 0" if "x \<in> ?U" for x using top [OF that] by (simp add: wanted_def)
    from ne have "(\<lambda>x. depth (th_group x)) ` ?U \<noteq> {}" by blast
    from Min_in [OF finite_imageI [OF fin] this] obtain x where x: "x \<in> ?U"
      and least: "Min ((\<lambda>x. depth (th_group x)) ` ?U) = depth (th_group x)" by (rule imageE)
    have x': "\<not> enabled ths x" "th_rest x \<noteq> []" "well_locked x" using x no wl by blast+
    then show False
    proof (cases rule: blocked_wants)
      case (join g t)
      from join(2) obtain y where y: "y \<in> ?U" "th_group y = g" by (auto simp: list_ex_iff)
      from Min_le [OF finite_imageI [OF fin] imageI [OF y(1), of "\<lambda>x. depth (th_group x)"]] least
      have "depth (th_group x) \<le> depth g" using y(2) by simp
      with join_holds_nothing [OF x'(3) join(1)] show False by simp
    next
      case (mutex w m t)
      with zero [OF x] show False by (simp add: wanted_def)
    qed
  qed
qed

lemma step_well_locked:
  assumes "lock_step ths ths'" "\<forall>th \<in> set ths. well_locked th"
  shows "(\<forall>th \<in> set ths'. well_locked th) \<and> ops_left ths' < ops_left ths"
  using assms(1)
proof cases
  case (1 i)
  have e: "th_rest (ths ! i) \<noteq> []" using 1(3) by (auto simp: enabled_def)
  have w: "well_locked (ths ! i)" using 1(2) assms(2) by simp
  note a = advance_well_locked [OF w e]
  have "\<forall>th \<in> set ths'. well_locked th"
    using 1(1) a assms(2) set_update_subset_insert [of ths i "advance (ths ! i)"] by blast
  moreover have "ths = take i ths @ ths ! i # drop (Suc i) ths" using 1(2) by (rule id_take_nth_drop)
  then have "ops_left ths = ops_left (take i ths) + steps_left (ths ! i) + ops_left (drop (Suc i) ths)"
    unfolding ops_left_def by (metis (no_types, lifting) add.assoc list.simps(9) map_append sum_list.Cons sum_list_append)
  moreover have "ops_left ths' = ops_left (take i ths) + steps_left (advance (ths ! i)) + ops_left (drop (Suc i) ths)"
    using 1(1,2) by (simp add: ops_left_def upd_conv_take_nth_drop)
  ultimately show ?thesis using a by simp
qed

section \<open>Exclusion\<close>

text \<open>Nobody else holds what a writer holds.\<close>

definition exclusive :: "lock_thread list \<Rightarrow> bool" where
  "exclusive ths \<longleftrightarrow>
     (\<forall>i < length ths. \<forall>j < length ths. \<forall>m. i \<noteq> j \<longrightarrow> (m, True) \<in> set (th_held (ths ! i)) \<longrightarrow> \<not> holds (ths ! j) m)"

text \<open>Two goroutines are about to touch the same data, and one of them changes it.\<close>

definition conflict :: "lock_thread \<Rightarrow> lock_thread \<Rightarrow> bool" where
  "conflict a b \<longleftrightarrow>
     (case (th_rest a, th_rest b) of
        (Access w x # _, Access v y # _) \<Rightarrow> x = y \<and> (w \<or> v)
      | _ \<Rightarrow> False)"

definition data_race :: "lock_thread list \<Rightarrow> bool" where
  "data_race ths \<longleftrightarrow> (\<exists>i < length ths. \<exists>j < length ths. i \<noteq> j \<and> conflict (ths ! i) (ths ! j))"

lemma unhold_subset: "unhold m hs = Some h \<Longrightarrow> set h \<subseteq> set hs"
  by (induction m hs arbitrary: h rule: unhold.induct) (auto split: if_splits)

lemma advance_held:
  obtains "set (th_held (advance th)) \<subseteq> set (th_held th)"
  | w m t where "th_rest th = Acquire w m # t" "w \<longrightarrow> th_waits th" "th_held (advance th) = (m, w) # th_held th"
proof (cases "th_rest th")
  case (Cons x t)
  show thesis
  proof (cases x)
    case (Acquire w m)
    with Cons that show thesis by (cases "w \<and> \<not> th_waits th") (auto simp: advance_def)
  next
    case (Release m)
    with Cons that(1) unhold_subset [of m "th_held th"] show thesis
      by (auto simp: advance_def split: option.splits)
  qed (use Cons that(1) in \<open>simp_all add: advance_def\<close>)
qed (use that(1) in \<open>simp add: advance_def\<close>)

lemma step_exclusive:
  assumes "lock_step ths ths'" "exclusive ths"
  shows "exclusive ths'"
  using assms(1)
proof cases
  case (1 i)
  have ex: "\<not> holds (ths ! k) m" if "j < length ths" "k < length ths" "j \<noteq> k" "(m, True) \<in> set (th_held (ths ! j))" for j k m
    using assms(2) that by (simp add: exclusive_def)
  consider (less) "set (th_held (advance (ths ! i))) \<subseteq> set (th_held (ths ! i))"
    | (more) w m t where "th_rest (ths ! i) = Acquire w m # t" "w \<longrightarrow> th_waits (ths ! i)"
      "th_held (advance (ths ! i)) = (m, w) # th_held (ths ! i)"
    by (rule advance_held)
  then show ?thesis
  proof cases
    case less
    have le: "set (th_held (ths' ! j)) \<subseteq> set (th_held (ths ! j))" if "j < length ths" for j
      using 1 less that by (cases "j = i") simp_all
    show ?thesis unfolding exclusive_def
    proof (intro allI impI)
      fix j k m
      assume a: "j < length ths'" "k < length ths'" "j \<noteq> k" "(m, True) \<in> set (th_held (ths' ! j))"
      have "j < length ths" "k < length ths" using a(1,2) 1 by simp_all
      with ex [of j k m] le [of j] le [of k] a(3,4) show "\<not> holds (ths' ! k) m" by (auto simp: holds_def)
    qed
  next
    case (more w m t)
    have free: "\<not> list_ex (\<lambda>x. (m, True) \<in> set (th_held x)) ths" "w \<Longrightarrow> \<not> list_ex (\<lambda>x. holds x m) ths"
      using 1(3) more(1,2) by (cases w; force simp: enabled_def list_ex_iff holds_def)+
    have at: "(ths' ! j = (if j = i then advance (ths ! i) else ths ! j))" if "j < length ths" for j
      using 1 that by simp
    show ?thesis unfolding exclusive_def
    proof (intro allI impI)
      fix j k x
      assume a: "j < length ths'" "k < length ths'" "j \<noteq> k" "(x, True) \<in> set (th_held (ths' ! j))"
      have l: "j < length ths" "k < length ths" using a(1,2) 1 by simp_all
      show "\<not> holds (ths' ! k) x"
      proof (cases "x = m \<and> (j = i \<or> k = i)")
        case True
        with free l a(3,4) more(3) ex [OF l a(3)] show ?thesis
          by (auto simp: at [OF l(1)] at [OF l(2)] list_ex_length holds_def split: if_splits)
      next
        case False
        with ex [OF l a(3), of x] a(4) more(3) show ?thesis
          by (auto simp: at [OF l(1)] at [OF l(2)] holds_def split: if_splits)
      qed
    qed
  qed
qed

lemma steps_exclusive: "lock_step\<^sup>*\<^sup>* ths ths' \<Longrightarrow> exclusive ths \<Longrightarrow> exclusive ths'"
  by (induction rule: rtranclp_induct) (use step_exclusive in blast)+

text \<open>Whoever is about to touch data holds its mutex, as the writer when it changes the data.\<close>

lemma access_holds:
  assumes "well_locked th" "th_rest th = Access w x # t"
  obtains v where "(guard x, v) \<in> set (th_held th)" "w \<longrightarrow> v"
  using assms by (auto simp: well_locked_def allowed_def list_ex_iff split: if_splits)

lemma no_data_race:
  assumes wl: "\<forall>th \<in> set ths. well_locked th" and ex: "exclusive ths"
  shows "\<not> data_race ths"
proof
  assume "data_race ths"
  then obtain i j where ij: "i < length ths" "j < length ths" "i \<noteq> j" and c: "conflict (ths ! i) (ths ! j)"
    by (auto simp: data_race_def)
  from c obtain w x t v u where a: "th_rest (ths ! i) = Access w x # t" "th_rest (ths ! j) = Access v x # u" "w \<or> v"
    by (cases "th_rest (ths ! i)"; cases "th_rest (ths ! j)";
        cases "hd (th_rest (ths ! i))"; cases "hd (th_rest (ths ! j))") (auto simp: conflict_def)
  from ij wl have wi: "well_locked (ths ! i)" "well_locked (ths ! j)" by simp_all
  obtain p where p: "(guard x, p) \<in> set (th_held (ths ! i))" "w \<longrightarrow> p" by (rule access_holds [OF wi(1) a(1)])
  obtain q where q: "(guard x, q) \<in> set (th_held (ths ! j))" "v \<longrightarrow> q" by (rule access_holds [OF wi(2) a(2)])
  have "holds (ths ! i) (guard x)" "holds (ths ! j) (guard x)" using p(1) q(1) by (force simp: holds_def)+
  moreover have "p \<or> q" using p(2) q(2) a(3) by blast
  ultimately show False using ex ij p(1) q(1) by (auto simp: exclusive_def)
qed

section \<open>Progress\<close>

text \<open>Every run of threads that keep the order comes to its end, and it cannot stop before.\<close>

lemma steps_well_locked: "lock_step\<^sup>*\<^sup>* ths ths' \<Longrightarrow> \<forall>th \<in> set ths. well_locked th \<Longrightarrow> \<forall>th \<in> set ths'. well_locked th"
  by (induction rule: rtranclp_induct) (use step_well_locked in blast)+

lemma can_go_on:
  assumes "\<forall>th \<in> set ths. well_locked th" "\<not> all_finished ths"
  shows "\<exists>ths'. lock_step ths ths'"
  using some_enabled [OF assms] lock_step.intros by (metis in_set_conv_nth)

lemma steps_bounded:
  "(lock_step ^^ n) ths ths' \<Longrightarrow> \<forall>th \<in> set ths. well_locked th \<Longrightarrow> n + ops_left ths' \<le> ops_left ths"
proof (induction n arbitrary: ths')
  case (Suc n)
  then obtain u where u: "(lock_step ^^ n) ths u" "lock_step u ths'" by auto
  have "\<forall>th \<in> set u. well_locked th"
    using steps_well_locked [OF relpowp_imp_rtranclp [OF u(1)]] Suc.prems(2) by blast
  with step_well_locked [OF u(2)] Suc.IH [OF u(1)] Suc.prems(2) show ?case by simp
qed simp

end
