(* ===== verification/Concurrency.thy ===== *)
theory Concurrency
  imports Locks
begin

text \<open>
  The functions of the bridge as lock programs: the order in which they take mutexes, touch the data
  that is shared and give the mutexes back, on every branch; which goroutines run them; and the
  proof that the goroutines of a bridge neither wait for each other in a circle nor race for shared
  data. \<open>c\<close> is the client a function works for, \<open>cs\<close> are all clients, one of which may own a peer. A
  reply on an early return stands once for all checks between two mutex operations that reply and
  return. Calls into the network library and waits on channels are \<open>Blocking\<close>. The library is taken
  to return from its calls, to take none of these mutexes inside them but in the connection handler
  that \<open>RegisterClient\<close> runs, and to run a disconnect handler in a goroutine of its own, as the peer
  of \<open>peer_lifecycle_test.go\<close> does: the handler takes \<open>peerLifecycleMu\<close>, which a caller of \<open>Close\<close> may
  hold. A panic is taken to happen while a handler holds no mutex.
\<close>

section \<open>Shorthands\<close>

abbreviation lock :: "mutex \<Rightarrow> stmt" where "lock m \<equiv> Do (Acquire True m)"
abbreviation rlock :: "mutex \<Rightarrow> stmt" where "rlock m \<equiv> Do (Acquire False m)"
abbreviation unlock :: "mutex \<Rightarrow> stmt" where "unlock m \<equiv> Do (Release m)"
abbreviation block :: stmt where "block \<equiv> Do Blocking"

text \<open>Shared data as it is accessed, and one access in a critical section of its own.\<close>

abbreviation get :: "shared \<Rightarrow> stmt" where "get x \<equiv> Do (Access False x)"
abbreviation put :: "shared \<Rightarrow> stmt" where "put x \<equiv> Do (Access True x)"

abbreviation rlocked_get :: "shared \<Rightarrow> stmt" where
  "rlocked_get x \<equiv> Call [rlock (guard x), get x, unlock (guard x)]"

abbreviation locked_get :: "shared \<Rightarrow> stmt" where
  "locked_get x \<equiv> Call [lock (guard x), get x, unlock (guard x)]"

abbreviation locked_put :: "shared \<Rightarrow> stmt" where
  "locked_put x \<equiv> Call [lock (guard x), put x, unlock (guard x)]"

text \<open>A map entry that is looked up and removed if it is there.\<close>

abbreviation locked_take :: "shared \<Rightarrow> stmt" where
  "locked_take x \<equiv> Call [lock (guard x), get x, Either [put x] [], unlock (guard x)]"

text \<open>One of the clients, picked by the state; none when there are none.\<close>

fun some_client :: "nat list \<Rightarrow> (nat \<Rightarrow> stmt list) \<Rightarrow> stmt" where
  "some_client [] p = Call []"
| "some_client (c # cs) p = Either (p c) [some_client cs p]"

section \<open>Writing to clients\<close>

text \<open>\<open>sendEvent\<close>, \<open>sendResult\<close> and \<open>sendError\<close>: what cannot be marshalled is not sent.\<close>

definition send_locks :: "nat \<Rightarrow> stmt list" where
  "send_locks c = [ReturnIf [], lock (WriteMu c), put (Writer c), block, unlock (WriteMu c)]"

abbreviation respond :: "nat \<Rightarrow> stmt" where "respond c \<equiv> Call (send_locks c)"

definition broadcast_locks :: "nat list \<Rightarrow> stmt list" where
  "broadcast_locks cs =
     [ReturnIf [], rlocked_get ClientMap,
      Repeat [some_client cs (\<lambda>c. [lock (WriteMu c), put (Writer c), block, unlock (WriteMu c)])]]"

section \<open>Peers\<close>

text \<open>\<open>clientOwnsPeer\<close> and \<open>clientOwnsOverlay\<close>; \<open>addClientPeer\<close>.\<close>

definition owns_locks :: "nat \<Rightarrow> stmt list" where
  "owns_locks c = [lock (PeersMu c), get (Owned c), unlock (PeersMu c)]"

definition add_peer_locks :: "nat \<Rightarrow> stmt list" where
  "add_peer_locks c = [lock (PeersMu c), Call [get (Owned c), ReturnIf [], put (Owned c)], unlock (PeersMu c)]"

definition install_locks :: "stmt list" where
  "install_locks =
     [lock ActivePeersMu,
      Call [get PeerMaps, ReturnIf [ReturnIf [], get PeerMaps, ReturnIf [], Either [put PeerMaps] []],
            block, ReturnIf [], put PeerMaps],
      unlock ActivePeersMu]"

definition detach_locks :: "nat list \<Rightarrow> stmt list" where
  "detach_locks cs =
     [rlocked_get PeerMaps, ReturnIf [],
      Call [lock OverlayToPeerMu, Repeat [get OverlayPeers, Either [put OverlayPeers] []], unlock OverlayToPeerMu],
      Call [lock ActiveOverlaysMu, Repeat [get OverlayMap, Either [put OverlayMap] []], unlock ActiveOverlaysMu],
      Call [lock PendingQueriesMu, Repeat [get QueryMap, Either [put QueryMap] []], unlock PendingQueriesMu],
      Either [some_client cs (\<lambda>c. [lock (PeersMu c), get (Owned c), put (Owned c), unlock (PeersMu c)])] [],
      Repeat [block],
      lock ActivePeersMu, get PeerMaps, ReturnIf [unlock ActivePeersMu], put PeerMaps, unlock ActivePeersMu]"

text \<open>The connection handler of the gateway, and \<open>RegisterClient\<close>, which runs it.\<close>

definition connection_locks :: "nat list \<Rightarrow> stmt list" where
  "connection_locks cs = [Call install_locks, ReturnIf [], Call (broadcast_locks cs)]"

definition register_client :: "nat list \<Rightarrow> stmt list" where
  "register_client cs = [block, Either [Call (connection_locks cs)] [], block]"

text \<open>An address that is already connected: by another client, by nobody, by this client.\<close>

definition existing_locks :: "nat \<Rightarrow> stmt list" where
  "existing_locks c =
     [ReturnIf [respond c],
      ReturnIf [locked_get (Owned c), ReturnIf [respond c], block, ReturnIf [respond c],
                Call install_locks, ReturnIf [respond c], Call (add_peer_locks c), respond c],
      block, ReturnIf [respond c], respond c]"

definition connect_locks :: "nat list \<Rightarrow> nat \<Rightarrow> stmt list" where
  "connect_locks cs c =
     [ReturnIf [respond c],
      lock PeerLifecycleMu,
      Call [rlocked_get PeerMaps,
            ReturnIf (existing_locks c),
            locked_get (Owned c), ReturnIf [respond c],
            Call (register_client cs), ReturnIf [respond c],
            block, ReturnIf [Call (detach_locks cs), block, respond c],
            Call install_locks, ReturnIf [Call (detach_locks cs), block, respond c],
            Call (add_peer_locks c), respond c],
      unlock PeerLifecycleMu]"

definition connect_by_adnl_locks :: "nat list \<Rightarrow> nat \<Rightarrow> stmt list" where
  "connect_by_adnl_locks cs c =
     [ReturnIf [respond c],
      lock PeerLifecycleMu,
      Call [rlocked_get PeerMaps,
            ReturnIf (existing_locks c),
            locked_get (Owned c), ReturnIf [respond c],
            block, ReturnIf [respond c],
            Repeat [Call (register_client cs), Either [] [block, Either [Call (detach_locks cs), block] []]],
            ReturnIf [respond c],
            Call install_locks, ReturnIf [Call (detach_locks cs), block, respond c],
            Call (add_peer_locks c), respond c],
      unlock PeerLifecycleMu]"

text \<open>\<open>adnl.sendMessage\<close>, \<open>adnl.ping\<close> and \<open>adnl.query\<close>.\<close>

definition peer_call_locks :: "nat \<Rightarrow> stmt list" where
  "peer_call_locks c =
     [ReturnIf [respond c], rlocked_get PeerMaps, ReturnIf [respond c],
      Call (owns_locks c), ReturnIf [respond c], block, ReturnIf [respond c], respond c]"

definition disconnect_locks :: "nat list \<Rightarrow> nat \<Rightarrow> stmt list" where
  "disconnect_locks cs c =
     [ReturnIf [respond c],
      lock PeerLifecycleMu,
      Call [Call (owns_locks c), ReturnIf [respond c],
            rlocked_get PeerMaps, ReturnIf [respond c],
            Call (detach_locks cs), ReturnIf [respond c], block, respond c],
      unlock PeerLifecycleMu]"

definition peers_locks :: "nat \<Rightarrow> stmt list" where
  "peers_locks c =
     [locked_get (Owned c),
      Call [rlock ActivePeersMu, Repeat [get PeerMaps], unlock ActivePeersMu],
      respond c]"

definition set_query_handler_locks :: "nat \<Rightarrow> stmt list" where
  "set_query_handler_locks c =
     [ReturnIf [respond c],
      lock PeerLifecycleMu, rlocked_get PeerMaps,
      ReturnIf [unlock PeerLifecycleMu, respond c],
      Call (owns_locks c), ReturnIf [unlock PeerLifecycleMu, respond c],
      locked_put PeerMaps, unlock PeerLifecycleMu, respond c]"

text \<open>The handler it sets, and the one of \<open>overlay.setQueryHandler\<close>.\<close>

definition query_received_locks :: "nat \<Rightarrow> stmt list" where
  "query_received_locks c =
     [ReturnIf [], lock PeerLifecycleMu, rlocked_get PeerMaps,
      ReturnIf [unlock PeerLifecycleMu],
      locked_put QueryMap, unlock PeerLifecycleMu, respond c]"

text \<open>\<open>adnl.answer\<close> and \<open>overlay.answer\<close>.\<close>

definition answer_locks :: "nat \<Rightarrow> stmt list" where
  "answer_locks c =
     [ReturnIf [respond c],
      lock PendingQueriesMu, get QueryMap,
      ReturnIf [Either [put QueryMap] [], unlock PendingQueriesMu, respond c],
      ReturnIf [unlock PendingQueriesMu, respond c],
      unlock PendingQueriesMu,
      rlocked_get PeerMaps, ReturnIf [respond c],
      block, ReturnIf [respond c],
      locked_take QueryMap, respond c]"

text \<open>What the library calls when a peer sends a message or a query, or is gone.\<close>

definition peer_custom_locks :: "nat list \<Rightarrow> stmt list" where
  "peer_custom_locks cs =
     [rlocked_get PeerMaps, ReturnIf [], Either [some_client cs (\<lambda>c. [respond c])] [Call (broadcast_locks cs)]]"

definition peer_query_locks :: "nat list \<Rightarrow> stmt list" where
  "peer_query_locks cs =
     [rlocked_get PeerMaps, ReturnIf [], some_client cs (\<lambda>c. [Call (query_received_locks c)])]"

definition peer_disconnect_locks :: "nat list \<Rightarrow> stmt list" where
  "peer_disconnect_locks cs =
     [lock PeerLifecycleMu, Call (detach_locks cs), unlock PeerLifecycleMu, ReturnIf [],
      Either [some_client cs (\<lambda>c. [respond c])] [Call (broadcast_locks cs)]]"

section \<open>Overlays\<close>

definition join_locks :: "nat \<Rightarrow> stmt list" where
  "join_locks c =
     [ReturnIf [respond c],
      lock PeerLifecycleMu, locked_get (Owned c),
      ReturnIf [unlock PeerLifecycleMu, respond c],
      rlocked_get PeerMaps, ReturnIf [unlock PeerLifecycleMu, respond c],
      Call (owns_locks c), ReturnIf [unlock PeerLifecycleMu, respond c],
      lock ActiveOverlaysMu, get OverlayMap,
      ReturnIf [unlock ActiveOverlaysMu,
                Call (owns_locks c), ReturnIf [unlock PeerLifecycleMu, respond c],
                locked_get OverlayPeers,
                ReturnIf [unlock PeerLifecycleMu, respond c],
                unlock PeerLifecycleMu, respond c],
      block, ReturnIf [unlock ActiveOverlaysMu, unlock PeerLifecycleMu, respond c],
      block, ReturnIf [block, unlock ActiveOverlaysMu, unlock PeerLifecycleMu, respond c],
      put OverlayMap, unlock ActiveOverlaysMu,
      locked_put OverlayPeers,
      block, block,
      Call [lock (PeersMu c), get (Owned c), put (Owned c), unlock (PeersMu c)],
      unlock PeerLifecycleMu, respond c]"

definition leave_locks :: "nat \<Rightarrow> stmt list" where
  "leave_locks c =
     [ReturnIf [respond c],
      lock PeerLifecycleMu,
      Call (owns_locks c), ReturnIf [unlock PeerLifecycleMu, respond c],
      locked_take OverlayMap, ReturnIf [unlock PeerLifecycleMu, respond c],
      locked_take (Owned c),
      locked_put OverlayPeers,
      block, unlock PeerLifecycleMu, respond c]"

text \<open>\<open>overlay.getPeers\<close>, \<open>overlay.sendMessage\<close>, \<open>overlay.sendRaw\<close> and \<open>overlay.broadcast\<close>.\<close>

definition overlay_call_locks :: "nat \<Rightarrow> stmt list" where
  "overlay_call_locks c =
     [ReturnIf [respond c], rlocked_get OverlayMap, ReturnIf [respond c],
      Call (owns_locks c), ReturnIf [respond c], block, ReturnIf [respond c], respond c]"

definition overlay_query_locks :: "nat \<Rightarrow> stmt list" where
  "overlay_query_locks c =
     [ReturnIf [respond c],
      lock PeerLifecycleMu, rlocked_get OverlayMap,
      ReturnIf [unlock PeerLifecycleMu, respond c],
      Call (owns_locks c), ReturnIf [unlock PeerLifecycleMu, respond c],
      unlock PeerLifecycleMu, block, ReturnIf [respond c], respond c]"

definition set_overlay_query_handler_locks :: "nat \<Rightarrow> stmt list" where
  "set_overlay_query_handler_locks c =
     [ReturnIf [respond c],
      lock PeerLifecycleMu, rlocked_get OverlayMap,
      ReturnIf [unlock PeerLifecycleMu, respond c],
      Call (owns_locks c), ReturnIf [unlock PeerLifecycleMu, respond c],
      rlocked_get PeerMaps, ReturnIf [unlock PeerLifecycleMu, respond c],
      Call (owns_locks c), ReturnIf [unlock PeerLifecycleMu, respond c],
      locked_get OverlayPeers, ReturnIf [unlock PeerLifecycleMu, respond c],
      block, unlock PeerLifecycleMu, respond c]"

section \<open>Subscriptions\<close>

text \<open>
  Every streaming method registers its \<open>cancel\<close>, works and writes until it returns, and removes the
  entry in a deferred call; two of them wait for goroutines they have started.
\<close>

definition stream_locks :: "nat \<Rightarrow> stmt list \<Rightarrow> stmt list" where
  "stream_locks c body =
     [ReturnIf [respond c], locked_put (Registry c), Call body, locked_put (Registry c)]"

definition pushing :: "nat \<Rightarrow> stmt list" where
  "pushing c = [Repeat [Either [block] [respond c]]]"

text \<open>\<open>ks\<close> are the wait groups of a handler: one, or one for each batch of messages that a trace follows.\<close>

definition multi_account_locks :: "nat list \<Rightarrow> nat \<Rightarrow> stmt list" where
  "multi_account_locks ks c = stream_locks c [respond c, Call (map (\<lambda>k. Do (Join (WorkerGroup c k))) ks)]"

fun trace_turns :: "nat list \<Rightarrow> nat \<Rightarrow> stmt list" where
  "trace_turns [] c = [block]"
| "trace_turns (k # ks) c =
     [block, Either [respond c] [], ReturnIf [], Do (Join (WorkerGroup c k)), Either [respond c] [], Call (trace_turns ks c)]"

definition trace_locks :: "nat list \<Rightarrow> nat \<Rightarrow> stmt list" where
  "trace_locks ks c = stream_locks c (ReturnIf [respond c] # respond c # trace_turns ks c)"

definition unsubscribe_locks :: "nat \<Rightarrow> stmt list" where
  "unsubscribe_locks c =
     [ReturnIf [respond c], locked_take (Registry c), ReturnIf [respond c], respond c]"

definition network_info_locks :: "nat \<Rightarrow> stmt list" where
  "network_info_locks c = [rlocked_get ClientMap, respond c]"

section \<open>A connection\<close>

text \<open>
  \<open>handleWS\<close>: the handshake, the read loop, in which a ping is answered under the write mutex, and the deferred calls in their order, which first wait
  for the goroutines of the connection.
\<close>

definition connection_life_locks :: "nat list \<Rightarrow> nat \<Rightarrow> stmt list" where
  "connection_life_locks cs c =
     [ReturnIf [block],
      lock ClientsMu, get ClientMap, ReturnIf [unlock ClientsMu, block], put ClientMap, unlock ClientsMu,
      Repeat [block, Either [lock (WriteMu c), put (Writer c), block, unlock (WriteMu c)] [], Either [respond c] []],
      Do (Join (ClientGroup c)),
      Call [lock (PeersMu c), get (Owned c), put (Owned c), unlock (PeersMu c)],
      lock PeerLifecycleMu,
      Repeat [rlocked_get PeerMaps, Either [Call (detach_locks cs), Either [block] []] []],
      unlock PeerLifecycleMu,
      lock PeerLifecycleMu,
      Call [lock (PeersMu c), get (Owned c), put (Owned c), unlock (PeersMu c)],
      Repeat [locked_take OverlayMap, locked_put OverlayPeers, Either [block] []],
      unlock PeerLifecycleMu,
      locked_put ClientMap, block]"

definition ping_pump_locks :: "nat \<Rightarrow> stmt list" where
  "ping_pump_locks c = [Repeat [block, lock (WriteMu c), put (Writer c), block, unlock (WriteMu c)]]"

text \<open>The goroutine of a request: a panic is answered, too many requests are refused.\<close>

definition request_locks :: "nat \<Rightarrow> stmt list \<Rightarrow> stmt list" where
  "request_locks c handler = [ReturnIf [respond c], Call handler, Either [respond c] []]"

text \<open>The goroutine that evicts expired queries.\<close>

definition sweeper_locks :: "stmt list" where
  "sweeper_locks = [Repeat [block, Call [lock PendingQueriesMu, Repeat [get QueryMap, Either [put QueryMap] []], unlock PendingQueriesMu]]]"

section \<open>The goroutines of a bridge\<close>

datatype routine =
    ConnectionLife nat
  | PingPump nat
  | Handler nat "nat list" string
  | AccountWorker nat nat
  | TraceResolver nat nat
  | ConnectionCallback
  | CustomCallback
  | QueryCallback
  | DisconnectCallback
  | OverlayCallback nat
  | OverlayQueryCallback nat
  | Sweeper

text \<open>Methods that are not listed read, call and reply, and take no mutex but that of the writes.\<close>

definition method_locks :: "nat list \<Rightarrow> nat \<Rightarrow> nat list \<Rightarrow> string \<Rightarrow> stmt list" where
  "method_locks cs c ks m =
     (if m = ''adnl.connect'' then connect_locks cs c
      else if m = ''adnl.connectByADNL'' then connect_by_adnl_locks cs c
      else if m \<in> set [''adnl.sendMessage'', ''adnl.ping'', ''adnl.query''] then peer_call_locks c
      else if m = ''adnl.disconnect'' then disconnect_locks cs c
      else if m = ''adnl.peers'' then peers_locks c
      else if m = ''adnl.setQueryHandler'' then set_query_handler_locks c
      else if m \<in> set [''adnl.answer'', ''overlay.answer''] then answer_locks c
      else if m = ''overlay.join'' then join_locks c
      else if m = ''overlay.leave'' then leave_locks c
      else if m \<in> set [''overlay.getPeers'', ''overlay.sendMessage'', ''overlay.sendRaw'', ''overlay.broadcast'']
        then overlay_call_locks c
      else if m = ''overlay.query'' then overlay_query_locks c
      else if m = ''overlay.setQueryHandler'' then set_overlay_query_handler_locks c
      else if m \<in> set [''subscribe.transactions'', ''subscribe.blocks'', ''subscribe.accountState'',
                       ''subscribe.newTransactions'', ''subscribe.configChanges'', ''lite.sendAndWatch'']
        then stream_locks c (pushing c)
      else if m = ''subscribe.multiAccount'' then multi_account_locks ks c
      else if m = ''subscribe.trace'' then trace_locks ks c
      else if m = ''subscribe.unsubscribe'' then unsubscribe_locks c
      else if m = ''network.info'' then network_info_locks c
      else [block, respond c])"

definition locks_of :: "nat list \<Rightarrow> routine \<Rightarrow> stmt list" where
  "locks_of cs r =
     (case r of
        ConnectionLife c \<Rightarrow> connection_life_locks cs c
      | PingPump c \<Rightarrow> ping_pump_locks c
      | Handler c ks m \<Rightarrow> request_locks c (method_locks cs c ks m)
      | AccountWorker c k \<Rightarrow> pushing c
      | TraceResolver c k \<Rightarrow> pushing c
      | ConnectionCallback \<Rightarrow> connection_locks cs
      | CustomCallback \<Rightarrow> peer_custom_locks cs
      | QueryCallback \<Rightarrow> peer_query_locks cs
      | DisconnectCallback \<Rightarrow> peer_disconnect_locks cs
      | OverlayCallback c \<Rightarrow> send_locks c
      | OverlayQueryCallback c \<Rightarrow> query_received_locks c
      | Sweeper \<Rightarrow> sweeper_locks)"

definition group_of :: "routine \<Rightarrow> wait_group" where
  "group_of r =
     (case r of
        PingPump c \<Rightarrow> ClientGroup c
      | Handler c _ _ \<Rightarrow> ClientGroup c
      | AccountWorker c k \<Rightarrow> WorkerGroup c k
      | TraceResolver c k \<Rightarrow> WorkerGroup c k
      | _ \<Rightarrow> Uncounted)"

section \<open>Every routine keeps the order\<close>

lemmas rank_simps = rank_def next_in_order_def depth_def allowed_def

lemma check_some_client:
  "(\<And>c. check d (p c) held = Some held) \<Longrightarrow> check d (some_client cs p # ss) held = check d ss held"
  by (induction cs arbitrary: ss) simp_all

lemma check_send [simp]:
  "next_in_order (WriteMu c) held \<Longrightarrow> check d (send_locks c) held = Some held"
  by (simp add: send_locks_def allowed_def)

lemma check_broadcast [simp]:
  "held = [] \<or> held = [(PeerLifecycleMu, True)] \<Longrightarrow> check d (broadcast_locks cs) held = Some held"
  by (auto simp: broadcast_locks_def check_some_client rank_simps)

lemma check_owns [simp]: "next_in_order (PeersMu c) held \<Longrightarrow> check d (owns_locks c) held = Some held"
  by (simp add: owns_locks_def allowed_def)

lemma check_add_peer [simp]: "next_in_order (PeersMu c) held \<Longrightarrow> check d (add_peer_locks c) held = Some held"
  by (simp add: add_peer_locks_def allowed_def)

lemma check_install [simp]: "next_in_order ActivePeersMu held \<Longrightarrow> check d install_locks held = Some held"
  by (simp add: install_locks_def allowed_def)

lemma check_detach [simp]: "check d (detach_locks cs) [(PeerLifecycleMu, True)] = Some [(PeerLifecycleMu, True)]"
  by (simp add: detach_locks_def check_some_client rank_simps)

lemma check_connection [simp]:
  "held = [] \<or> held = [(PeerLifecycleMu, True)] \<Longrightarrow> check d (connection_locks cs) held = Some held"
  by (auto simp: connection_locks_def rank_simps)

lemma check_register [simp]: "check d (register_client cs) [(PeerLifecycleMu, True)] = Some [(PeerLifecycleMu, True)]"
  by (simp add: register_client_def)

lemma check_existing [simp]: "check d (existing_locks c) [(PeerLifecycleMu, True)] = Some [(PeerLifecycleMu, True)]"
  by (simp add: existing_locks_def rank_simps)

lemma check_connect [simp]: "check d (connect_locks cs c) [] = Some []"
  by (simp add: connect_locks_def rank_simps)

lemma check_connect_by_adnl [simp]: "check d (connect_by_adnl_locks cs c) [] = Some []"
  by (simp add: connect_by_adnl_locks_def rank_simps)

lemma check_peer_call [simp]: "check d (peer_call_locks c) [] = Some []"
  by (simp add: peer_call_locks_def rank_simps)

lemma check_disconnect [simp]: "check d (disconnect_locks cs c) [] = Some []"
  by (simp add: disconnect_locks_def rank_simps)

lemma check_peers [simp]: "check d (peers_locks c) [] = Some []"
  by (simp add: peers_locks_def rank_simps)

lemma check_set_query_handler [simp]: "check d (set_query_handler_locks c) [] = Some []"
  by (simp add: set_query_handler_locks_def rank_simps)

lemma check_query_received [simp]: "check d (query_received_locks c) [] = Some []"
  by (simp add: query_received_locks_def rank_simps)

lemma check_answer [simp]: "check d (answer_locks c) [] = Some []"
  by (simp add: answer_locks_def rank_simps)

lemma check_peer_custom [simp]: "check d (peer_custom_locks cs) [] = Some []"
  by (simp add: peer_custom_locks_def check_some_client rank_simps)

lemma check_peer_query [simp]: "check d (peer_query_locks cs) [] = Some []"
  by (simp add: peer_query_locks_def check_some_client rank_simps)

lemma check_peer_disconnect [simp]: "check d (peer_disconnect_locks cs) [] = Some []"
  by (simp add: peer_disconnect_locks_def check_some_client rank_simps)

lemma check_join [simp]: "check d (join_locks c) [] = Some []"
  by (simp add: join_locks_def rank_simps)

lemma check_leave [simp]: "check d (leave_locks c) [] = Some []"
  by (simp add: leave_locks_def rank_simps)

lemma check_overlay_call [simp]: "check d (overlay_call_locks c) [] = Some []"
  by (simp add: overlay_call_locks_def rank_simps)

lemma check_overlay_query [simp]: "check d (overlay_query_locks c) [] = Some []"
  by (simp add: overlay_query_locks_def rank_simps)

lemma check_set_overlay_query_handler [simp]: "check d (set_overlay_query_handler_locks c) [] = Some []"
  by (simp add: set_overlay_query_handler_locks_def rank_simps)

lemma check_pushing [simp]: "check d (pushing c) [] = Some []"
  by (simp add: pushing_def rank_simps)

lemma check_stream [simp]: "check d body [] = Some [] \<Longrightarrow> check d (stream_locks c body) [] = Some []"
  by (simp add: stream_locks_def rank_simps)

lemma check_joins [simp]: "check (Suc 0) (map (\<lambda>k. Do (Join (WorkerGroup c k))) ks) [] = Some []"
  by (induction ks) (simp_all add: depth_def)

lemma check_trace_turns [simp]: "check (Suc 0) (trace_turns ks c) [] = Some []"
  by (induction ks c rule: trace_turns.induct) (simp_all add: rank_simps)

lemma check_multi_account [simp]: "check (Suc 0) (multi_account_locks ks c) [] = Some []"
  by (simp add: multi_account_locks_def rank_simps)

lemma check_trace [simp]: "check (Suc 0) (trace_locks ks c) [] = Some []"
  by (simp add: trace_locks_def rank_simps)

lemma check_unsubscribe [simp]: "check d (unsubscribe_locks c) [] = Some []"
  by (simp add: unsubscribe_locks_def rank_simps)

lemma check_network_info [simp]: "check d (network_info_locks c) [] = Some []"
  by (simp add: network_info_locks_def rank_simps)

lemma check_connection_life [simp]: "check 2 (connection_life_locks cs c) [] = Some []"
  by (simp add: connection_life_locks_def numeral_2_eq_2 rank_simps)

lemma check_ping_pump [simp]: "check d (ping_pump_locks c) [] = Some []"
  by (simp add: ping_pump_locks_def rank_simps)

lemma check_sweeper [simp]: "check d sweeper_locks [] = Some []"
  by (simp add: sweeper_locks_def rank_simps)

lemma check_method [simp]: "check (Suc 0) (method_locks cs c ks m) [] = Some []"
  by (simp add: method_locks_def rank_simps)

lemma check_routine: "check (depth (group_of r)) (locks_of cs r) [] = Some []"
  by (cases r) (simp_all add: locks_of_def group_of_def request_locks_def rank_simps)

section \<open>No deadlock\<close>

definition goroutines :: "routine list \<Rightarrow> lock_op list list \<Rightarrow> lock_thread list" where
  "goroutines rs ts = map2 (\<lambda>r t. goroutine (group_of r) t) rs ts"

lemma goroutines_well_locked:
  "list_all2 (\<lambda>r t. runs (locks_of cs r) t) rs ts \<Longrightarrow> \<forall>th \<in> set (goroutines rs ts). well_locked th"
proof (induction rule: list_all2_induct)
  case (Cons r rs t ts)
  have "disciplined (depth (group_of r)) t [] = Some []"
    using Cons.hyps(1) check_routine by (rule check_sound)
  with Cons.IH show ?case by (simp add: goroutines_def goroutine_def well_locked_def)
qed (simp add: goroutines_def)

lemma goroutines_ops:
  "list_all2 P rs ts \<Longrightarrow> ops_left (goroutines rs ts) = 2 * sum_list (map length ts)"
  by (induction rule: list_all2_induct)
    (simp_all add: goroutines_def ops_left_def goroutine_def steps_left_def)

text \<open>
  C6: the goroutines of a bridge never deadlock on its mutexes and wait groups: whatever connections,
  request handlers, workers, library callbacks and background goroutines there are, whatever path
  each of them takes, and however their steps interleave, some goroutine can go on until all of them
  have returned, this takes at most two steps for each operation, and no mutex is held at the end.
\<close>

theorem bridge_never_deadlocks:
  assumes "list_all2 (\<lambda>r t. runs (locks_of cs r) t) rs ts"
    and "(lock_step ^^ n) (goroutines rs ts) ths"
  shows "n \<le> 2 * sum_list (map length ts) \<and>
    ((\<exists>ths'. lock_step ths ths') \<or> all_finished ths \<and> (\<forall>m. list_all (\<lambda>th. \<not> holds th m) ths))"
proof -
  note start = goroutines_well_locked [OF assms(1)]
  have wl: "\<forall>th \<in> set ths. well_locked th"
    by (rule steps_well_locked [OF relpowp_imp_rtranclp [OF assms(2)] start])
  have "n + ops_left ths \<le> ops_left (goroutines rs ts)" by (rule steps_bounded [OF assms(2) start])
  then have "n \<le> 2 * sum_list (map length ts)" by (simp add: goroutines_ops [OF assms(1)])
  moreover have "list_all (\<lambda>th. \<not> holds th m) ths" if "all_finished ths" for m
    using that wl finished_holds_nothing by (auto simp: all_finished_def list_all_iff)
  ultimately show ?thesis using can_go_on [OF wl] by blast
qed

text \<open>
  A peer goes away while its owner disconnects it: the callback has announced itself and got
  \<open>peerLifecycleMu\<close>, and the handler waits for it.
\<close>

definition gone_path :: "lock_op list" where
  "gone_path =
     [Acquire True PeerLifecycleMu, Acquire False ActivePeersMu, Access False PeerMaps, Release ActivePeersMu,
      Release PeerLifecycleMu]"

definition disconnect_path :: "lock_op list" where
  "disconnect_path =
     [Acquire True PeerLifecycleMu, Acquire True (PeersMu 1), Access False (Owned 1), Release (PeersMu 1),
      Acquire True (WriteMu 1), Access True (Writer 1), Blocking, Release (WriteMu 1), Release PeerLifecycleMu]"

definition look_up_path :: "lock_op list" where
  "look_up_path = [Acquire False ActivePeersMu, Access False PeerMaps, Release ActivePeersMu]"

lemma look_up_runs:
  "runs (rlocked_get PeerMaps # ReturnIf [] # ss) look_up_path"
proof -
  have "runs [rlock ActivePeersMu, get PeerMaps, unlock ActivePeersMu] look_up_path"
    unfolding look_up_path_def by (intro runs.op runs.finished)
  from runs.call [OF this runs.leave [OF runs.finished]] show ?thesis by simp
qed

lemma gone_path_runs: "runs (locks_of [1] DisconnectCallback) gone_path"
proof -
  have "runs (detach_locks [1]) look_up_path" unfolding detach_locks_def by (rule look_up_runs)
  from runs.op [OF runs.call [OF this runs.op [OF runs.leave [OF runs.finished]]]] show ?thesis
    by (simp add: locks_of_def peer_disconnect_locks_def gone_path_def look_up_path_def)
qed

lemma disconnect_path_runs: "runs (locks_of [1] (Handler 1 [] ''adnl.disconnect'')) disconnect_path"
proof -
  have owned: "runs (owns_locks 1) [Acquire True (PeersMu 1), Access False (Owned 1), Release (PeersMu 1)]"
    unfolding owns_locks_def by (intro runs.op runs.finished)
  have "runs (send_locks 1) [Acquire True (WriteMu 1), Access True (Writer 1), Blocking, Release (WriteMu 1)]"
    unfolding send_locks_def by (intro runs.stay runs.op runs.finished)
  note refused = runs.leave [OF runs.call [OF this runs.finished]]
  note body = runs.stay [OF runs.op [OF runs.call [OF runs.call [OF owned refused] runs.op [OF runs.finished]]]]
  have "runs (disconnect_locks [1] 1) disconnect_path"
    using body unfolding disconnect_locks_def disconnect_path_def append.simps .
  from runs.stay [OF runs.call [OF this runs.right [OF runs.finished runs.finished]]]
  have "runs (request_locks 1 (disconnect_locks [1] 1)) disconnect_path"
    unfolding request_locks_def append.right_neutral .
  moreover have "locks_of [1] (Handler 1 [] ''adnl.disconnect'') = request_locks 1 (disconnect_locks [1] 1)"
    by (simp add: locks_of_def method_locks_def)
  ultimately show ?thesis by (simp only:)
qed

lemma lock_step_at:
  "i < length ths \<Longrightarrow> enabled ths (ths ! i) \<Longrightarrow> ths' = ths[i := advance (ths ! i)] \<Longrightarrow> lock_step ths ths'"
  using lock_step.intros by simp

theorem bridge_never_deadlocks_witness:
  "\<exists>ths. (lock_step ^^ 2) (goroutines [DisconnectCallback, Handler 1 [] ''adnl.disconnect''] [gone_path, disconnect_path]) ths
     \<and> list_ex (\<lambda>th. holds th PeerLifecycleMu) ths \<and> (\<exists>ths'. lock_step ths ths')"
proof -
  let ?rs = "[DisconnectCallback, Handler 1 [] ''adnl.disconnect'']" and ?ts = "[gone_path, disconnect_path]"
  let ?b = "goroutine (ClientGroup 1) disconnect_path"
  let ?a1 = "(goroutine Uncounted gone_path)\<lparr>th_waits := True\<rparr>"
  let ?a2 = "(goroutine Uncounted (tl gone_path))\<lparr>th_held := [(PeerLifecycleMu, True)]\<rparr>"
  have paths: "list_all2 (\<lambda>r t. runs (locks_of [1] r) t) ?rs ?ts"
    by (intro list.rel_intros gone_path_runs disconnect_path_runs)
  have s: "goroutines ?rs ?ts = [goroutine Uncounted gone_path, ?b]" by (simp add: goroutines_def group_of_def)
  have "lock_step [goroutine Uncounted gone_path, ?b] [?a1, ?b]"
    by (rule lock_step_at [where i = 0]) (simp_all add: goroutine_def gone_path_def enabled_def advance_def)
  moreover have "lock_step [?a1, ?b] [?a2, ?b]"
    by (rule lock_step_at [where i = 0])
      (simp_all add: goroutine_def gone_path_def disconnect_path_def enabled_def advance_def holds_def)
  ultimately have two: "(lock_step ^^ 2) (goroutines ?rs ?ts) [?a2, ?b]"
    unfolding s by (auto simp: numeral_2_eq_2)
  have busy: "\<not> all_finished [?a2, ?b]" by (simp add: all_finished_def goroutine_def disconnect_path_def)
  from bridge_never_deadlocks [OF paths two] busy have "\<exists>ths'. lock_step [?a2, ?b] ths'" by blast
  moreover have "list_ex (\<lambda>th. holds th PeerLifecycleMu) [?a2, ?b]" by (simp add: holds_def goroutine_def)
  ultimately show ?thesis using two by blast
qed

text \<open>
  C7: the goroutines of a bridge never race for shared data: however their steps interleave, no two of
  them are ever about to touch the same map, list, registry or connection while one of the two
  changes it.
\<close>

theorem bridge_race_free:
  assumes "list_all2 (\<lambda>r t. runs (locks_of cs r) t) rs ts"
    and "lock_step\<^sup>*\<^sup>* (goroutines rs ts) ths"
  shows "\<not> data_race ths"
proof (rule no_data_race)
  show "\<forall>th \<in> set ths. well_locked th"
    by (rule steps_well_locked [OF assms(2) goroutines_well_locked [OF assms(1)]])
  show "exclusive ths"
    by (rule steps_exclusive [OF assms(2)]) (simp add: exclusive_def goroutines_def goroutine_def)
qed

text \<open>A message and a query of a peer are looked up at the same time, by two readers.\<close>

theorem bridge_race_free_witness:
  "\<exists>ths. lock_step\<^sup>*\<^sup>* (goroutines [CustomCallback, QueryCallback] [look_up_path, look_up_path]) ths
     \<and> list_all (\<lambda>th. th_rest th = Access False PeerMaps # [Release ActivePeersMu]) ths \<and> \<not> data_race ths"
proof -
  let ?rs = "[CustomCallback, QueryCallback]" and ?ts = "[look_up_path, look_up_path]"
  let ?a = "goroutine Uncounted look_up_path"
  let ?b = "(goroutine Uncounted (tl look_up_path))\<lparr>th_held := [(ActivePeersMu, False)]\<rparr>"
  have "runs (locks_of [1] CustomCallback) look_up_path"
    unfolding locks_of_def routine.simps peer_custom_locks_def
    by (rule look_up_runs)
  moreover have "runs (locks_of [1] QueryCallback) look_up_path"
    unfolding locks_of_def routine.simps peer_query_locks_def
    by (rule look_up_runs)
  ultimately have paths: "list_all2 (\<lambda>r t. runs (locks_of [1] r) t) ?rs ?ts" by (intro list.rel_intros)
  have s: "goroutines ?rs ?ts = [?a, ?a]" by (simp add: goroutines_def group_of_def)
  have "lock_step [?a, ?a] [?b, ?a]"
    by (rule lock_step_at [where i = 0])
      (simp_all add: goroutine_def look_up_path_def enabled_def advance_def wants_write_def)
  moreover have "lock_step [?b, ?a] [?b, ?b]"
    by (rule lock_step_at [where i = 1])
      (simp_all add: goroutine_def look_up_path_def enabled_def advance_def wants_write_def)
  ultimately have two: "lock_step\<^sup>*\<^sup>* (goroutines ?rs ?ts) [?b, ?b]" unfolding s
    by (rule rtranclp.rtrancl_into_rtrancl [OF r_into_rtranclp])
  have "list_all (\<lambda>th. th_rest th = Access False PeerMaps # [Release ActivePeersMu]) [?b, ?b]"
    by (simp add: goroutine_def look_up_path_def)
  with two bridge_race_free [OF paths two] show ?thesis by blast
qed

end
