(* ===== verification/Spec2Isabelle.thy ===== *)
theory Spec2Isabelle
  imports ConfigFile QueryProps TraceProps ServiceProps SubProps LiteProps Replies Teardown SlotRace Keepalive Process Concurrency
begin

text \<open>
  A model of tonutils-bridge: a WebSocket server (main.go, config.go and the package wsbridge) that
  gives its clients the TON network as JSON-RPC methods and pushes events to them.

  \<^bold>\<open>How the program works.\<close> A connection is admitted by \<open>handleWS\<close> (bridge.go), which then reads
  frames. Each request runs in its own goroutine under a semaphore per client, through the switch
  of \<open>handleRequest\<close> behind the namespace gate of wsbridge/config.go. The adnl and overlay
  namespaces share peers, overlays and pending queries of all clients in maps of \<open>WSBridge\<close>; the
  subscriptions keep their request running and own a slot, a registry entry and a token; all other
  methods ask a library and reply. The network libraries call back into the bridge when a message,
  a query, a broadcast or a disconnection arrives.

  \<^bold>\<open>Theories.\<close>
  \<^item> Prelude, Encoding, Base64, GoDuration, GoNet, JsonNumber: hexadecimal, base64, decimal and hexadecimal
    numbers, durations, the parts of Go's net package and float64 that the code uses. Encoding
    states the contract of an injective encoding as a locale.
  \<^item> NetGuard: the table of private networks and the SSRF test (helpers.go, adnl.go).
  \<^item> JsonRpc, RuntimeConfig, BridgeState, Params: requests, parameters, replies and events as
    values, \<open>BridgeConfig\<close>, the state \<open>WSBridge\<close> with its clients, peers and overlays, and what
    leaves the bridge as a list of effects.
  \<^item> PeerLifecycle, AdnlHandlers, OverlayHandlers, Dispatch, Connection: adnl.go, overlay.go and
    bridge.go, one definition per function or per closure the library calls.
  \<^item> ServerConfig, ConfigFile: config.go, with decoding, defaults, migration, validation and the
    file operations as a record of outcomes.
  \<^item> TonObjects, TonApi, TonClient, SubSlots, Subscribe: the serializers and the calls of the TON
    client, the slots and the registry of subscriptions, and one iteration of every loop of
    subscribe.go. SlotRace: the subscription counter at the grain of its atomic operations. Trace:
    the coordinator of trace.go as a step relation whose states include the panics of the Go
    runtime.
  \<^item> Lite, Watch, Emulate, Dht, Tokens, Dns: the other namespaces.
  \<^item> Services, World: the service behind the dispatcher, and the connections, requests and
    subscriptions of all clients together with the calls of the network library as one transition
    system (\<open>world_step\<close>).
  \<^item> Keepalive: the read deadline, pongs and pings of a connection. Startup, Process: main.go and
    \<open>Start\<close>, with the stages of the start and the deferred calls that undo them.
  \<^item> Locks, Concurrency: a language of lock programs with a sound check of the order of their mutexes
    and of the data they guard, and every function of the package as such a program, for all
    goroutines of a bridge at once.

  \<^bold>\<open>What is shown.\<close>
  \<^item> BridgeInv, HandlerInv, Reachable: the maps of the bridge agree with each other in every
    reachable state. PeerProps: installation, teardown and the privacy of peer events. Isolation:
    a client reaches only its own peers and overlays, and connections leave to public hosts only.
    QueryProps: the life of a query, who may answer it, and that messages arrive intact.
  \<^item> Frame, SubWorld, WorldProps: slots, tokens and registry of a client always match its running
    subscriptions, and with a configuration that validates there is always room for the request
    that ends one. SlotRace: handlers that interleave at the counter never exceed its limit, but
    may be refused with a free slot. Teardown: nothing of a client is left when its connection has
    ended. ServiceProps: what may be published in the DHT.
  \<^item> Replies: every request of every namespace gets one reply, under its own id, that is an object
    or an error with a standard code.
  \<^item> SubProps: the loops that follow the masterchain are instances of the locale \<open>block_follower\<close>,
    which gives that no block is missed or reported twice, that every turn whose calls succeed
    brings the next block and why a loop may end; the loops that watch a value are instances of \<open>replicated\<close>, which gives that a client can rebuild the value from the events.
  \<^item> TraceProps: the balance of the messages followed and the reports, which a complete trace has
    even, the bounds of a trace, and the interleaving that breaks it. LiteProps: walks through the
    history of an account are complete, or end with the error of a call that failed.
  \<^item> NetGuard: the masks of the network table are intervals of addresses that are written down
    without it. ServerConfig, ConfigFile: a configuration that is loaded has been validated and is
    written back and read as it was. Keepalive: who answers the pings in time is not timed out, who
    never does is dropped at the deadline. Process: which resources are open when, that they are
    closed, and which error a run returns.
    Concurrency: whatever goroutines there are and however they interleave, they never wait for
    each other's mutexes and wait groups in a circle, and never race for shared data.

  \<^bold>\<open>Partiality.\<close> No fuel is used. The loops of the code that have no bound of their own
  (\<open>collect_pages\<close>, \<open>find_lt\<close>, \<open>scan_history\<close> and \<open>out_list\<close>) are partial functions whose value
  \<open>None\<close> is a run that never ends; that they end for a liteserver that behaves as documented is
  proved. All other recursion is structural or has a measure. Integers keep the width of the
  code where it matters (\<open>to_int32\<close>, \<open>to_int64\<close>, \<open>next_seqno\<close>, the 64-bit query counters); a
  connection that opens \<open>2 ^ 64\<close> subscriptions is left out of SubWorld.

  \<^bold>\<open>Parameters.\<close> Cells, slices, addresses and messages of tonutils-go (\<open>ton_lib\<close>), the liteservers
  (\<open>ton_api\<close>), ADNL and overlay connections, the DHT client, the TVM emulator, the contract
  getters, the TL serializer, hashes and the resolution of host names are arguments of the
  definitions that use them. Laws about them are named hypotheses, such as \<open>serves_history\<close>,
  \<open>serves_or_fails\<close>, \<open>pages_truth\<close> and \<open>numbered\<close>, with instances that satisfy them.

  \<^bold>\<open>Not modelled.\<close> The bytes of frames and the HTTP server, which belong to libraries. Log
  output. Sleeps and the timeouts of request contexts, except as the outcome that a call fails.
  Handlers are atomic except where the code calls the network in the middle of a change (an answer
  to a query, the turns of a loop), in SlotRace, and in Concurrency, which has their mutexes and
  which data they touch, but not its values; a panic inside a critical section is not modelled.
  That a handler returns and that a loop leaves through \<open>ctx.Done()\<close> are rules of \<open>world_step\<close>
  that may fire at any time; nothing is claimed of when they do. Frames are handled when they
  arrive: what the reading goroutine spends in the ping handler or in an error reply is left out of
  Keepalive. The end of the process does not wait for the handlers, which is a finding and not
  modelled further.
\<close>

end
